(* ===== verification/FL_Prelude.thy ===== *)
theory FL_Prelude
  imports Main "HOL-Library.Word"
begin

text \<open>
  Generic material shared by the components of the freelite model: the C integer
  types at their width, objects in memory as byte lists with reads and writes at an
  offset, the little-endian codec of the x86-64 ABI, C strings (\<open>strlen\<close>-style
  contents, \<open>strncpy\<close>, reading up to the first NUL), the lookup-or-keep insertion of
  \<open>std::unordered_map\<close>, and the interface (a locale) of a field that is stored at a
  byte offset of an object.
\<close>

section \<open>Types and collections of rules\<close>

type_synonym byte = "8 word"
type_synonym c_int = "32 word"
type_synonym c_long = "64 word"
type_synonym c_ptr = "64 word"

named_theorems layout_simps \<open>accessors of structures stored in byte lists\<close>
named_theorems codec_defs \<open>definitions of the message encoders and decoders\<close>

abbreviation c_neg :: "c_int \<Rightarrow> bool" where
  "c_neg x \<equiv> sint x < 0"

lemma c_neg_minus_one [simp]: "c_neg (-1)"
  by simp

lemma unat_c_int_less: "unat (x :: c_int) < 4294967296"
  using unsigned_less [of x] by simp

lemma unat_c_long_less: "unat (x :: c_long) < 18446744073709551616"
  using unsigned_less [of x] by simp

section \<open>Byte ranges of an object\<close>

definition chunk :: "nat \<Rightarrow> nat \<Rightarrow> 'a list \<Rightarrow> 'a list" where
  "chunk off n buf = take n (drop off buf)"

definition patch :: "nat \<Rightarrow> 'a list \<Rightarrow> 'a list \<Rightarrow> 'a list" where
  "patch off bs buf = take off buf @ bs @ drop (off + length bs) buf"

lemma length_chunk [simp]: "off + n \<le> length buf \<Longrightarrow> length (chunk off n buf) = n"
  by (simp add: chunk_def)

lemma length_patch [simp]:
  "off + length bs \<le> length buf \<Longrightarrow> length (patch off bs buf) = length buf"
  by (simp add: patch_def)

lemma chunk_patch_same [simp]:
  "\<lbrakk>n = length bs; off + n \<le> length buf\<rbrakk> \<Longrightarrow> chunk off n (patch off bs buf) = bs"
  by (simp add: chunk_def patch_def)

lemma nth_chunk: "\<lbrakk>off + n \<le> length buf; i < n\<rbrakk> \<Longrightarrow> chunk off n buf ! i = buf ! (off + i)"
  by (simp add: chunk_def)

lemma nth_patch:
  "off + length bs \<le> length buf \<Longrightarrow> i < length buf \<Longrightarrow>
   patch off bs buf ! i =
     (if off \<le> i \<and> i < off + length bs then bs ! (i - off) else buf ! i)"
  by (auto simp: patch_def nth_append min_def not_less)

lemma chunk_patch_before [simp]:
  "\<lbrakk>m + n \<le> off; off + length bs \<le> length buf\<rbrakk> \<Longrightarrow> chunk m n (patch off bs buf) = chunk m n buf"
  by (rule nth_equalityI) (auto simp: nth_chunk nth_patch)

lemma chunk_patch_after [simp]:
  "\<lbrakk>off + length bs \<le> m; off + length bs \<le> length buf\<rbrakk> \<Longrightarrow>
   chunk m n (patch off bs buf) = chunk m n buf"
  by (simp add: chunk_def patch_def)

lemma chunk_patch_inside:
  "\<lbrakk>k + n \<le> length bs; off + length bs \<le> length buf\<rbrakk> \<Longrightarrow>
   chunk (off + k) n (patch off bs buf) = chunk k n bs"
  by (simp add: chunk_def patch_def)

lemma chunk_patch_prefix:
  "\<lbrakk>length bs \<le> n; off + n \<le> length buf\<rbrakk> \<Longrightarrow>
   chunk off n (patch off bs buf) = bs @ drop (length bs) (chunk off n buf)"
  by (rule nth_equalityI) (auto simp: nth_chunk nth_patch nth_append)

lemma chunk_sub: "a + n \<le> k \<Longrightarrow> chunk a n (chunk m k buf) = chunk (m + a) n buf"
  by (simp add: chunk_def take_drop add.commute min_def)

text \<open>What \<open>recv\<close> does to the destination object: the received bytes replace a prefix.\<close>

definition recv_into :: "byte list \<Rightarrow> byte list \<Rightarrow> byte list" where
  "recv_into data buf = data @ drop (length data) buf"

lemma recv_into_full [simp]: "length data = length buf \<Longrightarrow> recv_into data buf = data"
  by (simp add: recv_into_def)

lemma recv_into_Nil [simp]: "recv_into [] buf = buf"
  by (simp add: recv_into_def)

lemma length_recv_into [simp]:
  "length data \<le> length buf \<Longrightarrow> length (recv_into data buf) = length buf"
  by (simp add: recv_into_def)

section \<open>The little-endian codec\<close>

fun le_bytes :: "nat \<Rightarrow> nat \<Rightarrow> byte list" where
  "le_bytes 0 x = []"
| "le_bytes (Suc n) x = word_of_nat (x mod 256) # le_bytes n (x div 256)"

fun le_nat :: "byte list \<Rightarrow> nat" where
  "le_nat [] = 0"
| "le_nat (b # bs) = unat b + 256 * le_nat bs"

lemma length_le_bytes [simp]: "length (le_bytes n x) = n"
  by (induction n arbitrary: x) auto

lemma unat_byte [simp]: "unat (word_of_nat (x mod 256) :: byte) = x mod 256"
  by (simp add: unat_of_nat)

lemma le_nat_zeros [simp]: "le_nat (replicate n 0) = 0"
  by (induction n) simp_all

lemma le_nat_le_bytes: "le_nat (le_bytes n x) = x mod 256 ^ n"
  by (induction n arbitrary: x) (simp_all add: mod_mult2_eq)

lemma le_nat_bound: "le_nat bs < 256 ^ length bs"
proof (induction bs)
  case (Cons b bs)
  have "unat b < 256"
    using unsigned_less [of b] by simp
  with Cons show ?case by simp
qed simp

lemma le_bytes_le_nat: "le_bytes (length bs) (le_nat bs) = bs"
proof (induction bs)
  case (Cons b bs)
  have "unat b < 256"
    using unsigned_less [of b] by simp
  with Cons show ?case by simp
qed simp

section \<open>Fields stored at an offset of an object\<close>

definition get32 :: "nat \<Rightarrow> byte list \<Rightarrow> c_int" where
  "get32 off buf = word_of_nat (le_nat (chunk off 4 buf))"

definition put32 :: "nat \<Rightarrow> c_int \<Rightarrow> byte list \<Rightarrow> byte list" where
  "put32 off v buf = patch off (le_bytes 4 (unat v)) buf"

definition get64 :: "nat \<Rightarrow> byte list \<Rightarrow> c_long" where
  "get64 off buf = word_of_nat (le_nat (chunk off 8 buf))"

definition put64 :: "nat \<Rightarrow> c_long \<Rightarrow> byte list \<Rightarrow> byte list" where
  "put64 off v buf = patch off (le_bytes 8 (unat v)) buf"

definition get_bool :: "nat \<Rightarrow> byte list \<Rightarrow> bool" where
  "get_bool off buf = (le_nat (chunk off 1 buf) \<noteq> 0)"

definition put_bool :: "nat \<Rightarrow> bool \<Rightarrow> byte list \<Rightarrow> byte list" where
  "put_bool off b buf = patch off [if b then 1 else 0] buf"

definition get_arr :: "nat \<Rightarrow> nat \<Rightarrow> byte list \<Rightarrow> byte list" where
  "get_arr n off buf = chunk off n buf"

definition put_arr :: "nat \<Rightarrow> nat \<Rightarrow> byte list \<Rightarrow> byte list \<Rightarrow> byte list" where
  "put_arr n off bs buf = patch off (take n bs) buf"

text \<open>
  The interface of a stored field: what is written is read back, the object keeps its
  size, bytes outside the field keep their value, and reading depends on the bytes of
  the field alone. \<open>valid\<close> is the set of values the field can hold (an array field of
  length \<open>n\<close> holds lists of length \<open>n\<close>).
\<close>

locale buf_field =
  fixes width :: nat
    and valid :: "'v \<Rightarrow> bool"
    and get :: "nat \<Rightarrow> byte list \<Rightarrow> 'v"
    and put :: "nat \<Rightarrow> 'v \<Rightarrow> byte list \<Rightarrow> byte list"
  assumes get_put: "\<lbrakk>valid v; off + width \<le> length buf\<rbrakk> \<Longrightarrow> get off (put off v buf) = v"
    and length_put: "\<lbrakk>valid v; off + width \<le> length buf\<rbrakk> \<Longrightarrow> length (put off v buf) = length buf"
    and chunk_put: "\<lbrakk>valid v; off + width \<le> length buf; m + n \<le> off \<or> off + width \<le> m\<rbrakk> \<Longrightarrow>
      chunk m n (put off v buf) = chunk m n buf"
    and get_local: "chunk off width a = chunk off' width b \<Longrightarrow> get off a = get off' b"
begin

lemma get_put_above:
  "\<lbrakk>valid v; off' + width \<le> length buf; off' + width \<le> off\<rbrakk> \<Longrightarrow>
   get off (put off' v buf) = get off buf"
  by (rule get_local) (simp add: chunk_put)

lemma get_put_below:
  "\<lbrakk>valid v; off' + width \<le> length buf; off + width \<le> off'\<rbrakk> \<Longrightarrow>
   get off (put off' v buf) = get off buf"
  by (rule get_local) (simp add: chunk_put)

lemma get_chunk:
  "off + width \<le> n \<Longrightarrow> get off (chunk m n buf) = get (m + off) buf"
  by (rule get_local) (simp add: chunk_sub)

end

text \<open>
  Two fields of one object, possibly with different codecs: writing one leaves the other
  alone when their byte ranges are disjoint.
\<close>

locale field_pair =
  a: buf_field wa va ga pa + b: buf_field wb vb gb pb
  for wa :: nat and va :: "'a \<Rightarrow> bool" and ga :: "nat \<Rightarrow> byte list \<Rightarrow> 'a"
    and pa :: "nat \<Rightarrow> 'a \<Rightarrow> byte list \<Rightarrow> byte list"
    and wb :: nat and vb :: "'b \<Rightarrow> bool" and gb :: "nat \<Rightarrow> byte list \<Rightarrow> 'b"
    and pb :: "nat \<Rightarrow> 'b \<Rightarrow> byte list \<Rightarrow> byte list"
begin

lemma frame_above:
  "\<lbrakk>vb v; off' + wb \<le> length buf; off' + wb \<le> off\<rbrakk> \<Longrightarrow> ga off (pb off' v buf) = ga off buf"
  by (rule a.get_local) (simp add: b.chunk_put)

lemma frame_below:
  "\<lbrakk>vb v; off' + wb \<le> length buf; off + wa \<le> off'\<rbrakk> \<Longrightarrow> ga off (pb off' v buf) = ga off buf"
  by (rule a.get_local) (simp add: b.chunk_put)

end

lemma get_put_le_bytes:
  "\<lbrakk>off + n \<le> length buf; x < 256 ^ n\<rbrakk> \<Longrightarrow>
   le_nat (chunk off n (patch off (le_bytes n x) buf)) = x"
  by (simp add: le_nat_le_bytes)

interpretation f32: buf_field 4 "\<lambda>_. True" get32 put32
proof unfold_locales
  fix v :: c_int and off :: nat and buf :: "byte list"
  assume "off + 4 \<le> length buf"
  moreover have "unat v < 256 ^ 4"
    using unsigned_less [of v] by simp
  ultimately show "get32 off (put32 off v buf) = v"
    by (simp add: get32_def put32_def le_nat_le_bytes)
qed (auto simp: get32_def put32_def)

interpretation f64: buf_field 8 "\<lambda>_. True" get64 put64
proof unfold_locales
  fix v :: c_long and off :: nat and buf :: "byte list"
  assume "off + 8 \<le> length buf"
  moreover have "unat v < 256 ^ 8"
    using unsigned_less [of v] by simp
  ultimately show "get64 off (put64 off v buf) = v"
    by (simp add: get64_def put64_def le_nat_le_bytes)
qed (auto simp: get64_def put64_def)

interpretation fbool: buf_field 1 "\<lambda>_. True" get_bool put_bool
  by unfold_locales (auto simp: get_bool_def put_bool_def)

interpretation farr: buf_field n "\<lambda>bs. length bs = n" "get_arr n" "put_arr n" for n
  by unfold_locales (auto simp: get_arr_def put_arr_def)

interpretation p32_64: field_pair 4 "\<lambda>_. True" get32 put32 8 "\<lambda>_. True" get64 put64
  by unfold_locales

interpretation p32_bool: field_pair 4 "\<lambda>_. True" get32 put32 1 "\<lambda>_. True" get_bool put_bool
  by unfold_locales

interpretation p32_arr: field_pair 4 "\<lambda>_. True" get32 put32 n "\<lambda>bs. length bs = n" "get_arr n" "put_arr n" for n
  by unfold_locales

interpretation p64_32: field_pair 8 "\<lambda>_. True" get64 put64 4 "\<lambda>_. True" get32 put32
  by unfold_locales

interpretation p64_arr: field_pair 8 "\<lambda>_. True" get64 put64 n "\<lambda>bs. length bs = n" "get_arr n" "put_arr n" for n
  by unfold_locales

interpretation pbool_32: field_pair 1 "\<lambda>_. True" get_bool put_bool 4 "\<lambda>_. True" get32 put32
  by unfold_locales

interpretation parr_32: field_pair n "\<lambda>bs. length bs = n" "get_arr n" "put_arr n" 4 "\<lambda>_. True" get32 put32 for n
  by unfold_locales

interpretation parr_64: field_pair n "\<lambda>bs. length bs = n" "get_arr n" "put_arr n" 8 "\<lambda>_. True" get64 put64 for n
  by unfold_locales

lemmas field_simps_c [layout_simps] =
  f32.get_put f32.length_put f32.get_put_above f32.get_put_below
  f64.get_put f64.length_put f64.get_put_above f64.get_put_below
  fbool.get_put fbool.length_put
  farr.get_put farr.length_put farr.get_put_above farr.get_put_below
  p32_64.frame_above p32_64.frame_below p32_bool.frame_above p32_bool.frame_below
  p32_arr.frame_above p32_arr.frame_below p64_32.frame_above p64_32.frame_below
  p64_arr.frame_above p64_arr.frame_below pbool_32.frame_above pbool_32.frame_below
  parr_32.frame_above parr_32.frame_below parr_64.frame_above parr_64.frame_below

section \<open>C strings\<close>

text \<open>
  The contents of a C string are the bytes before its NUL. \<open>strncpy_bytes s n\<close> are the
  \<open>n\<close> bytes that \<open>strncpy(dst, s, n)\<close> stores: the first \<open>n\<close> bytes of \<open>s\<close>, padded with
  NUL bytes. \<open>strncpy_into\<close> stores them at an offset of an object and is \<open>None\<close> when the
  copy leaves the object (undefined behaviour). \<open>cstr_at\<close> reads a string that starts at
  an offset of an object, \<open>None\<close> when the read runs off its end.
\<close>

definition is_cstr :: "byte list \<Rightarrow> bool" where
  "is_cstr s = (0 \<notin> set s)"

definition strncpy_bytes :: "byte list \<Rightarrow> nat \<Rightarrow> byte list" where
  "strncpy_bytes s n = take n (s @ replicate n 0)"

definition strncpy_into :: "nat \<Rightarrow> byte list \<Rightarrow> nat \<Rightarrow> byte list \<Rightarrow> byte list option" where
  "strncpy_into off s n buf =
     (if off + n \<le> length buf then Some (patch off (strncpy_bytes s n) buf) else None)"

definition cstr_at :: "nat \<Rightarrow> byte list \<Rightarrow> byte list option" where
  "cstr_at off buf =
     (if 0 \<in> set (drop off buf) then Some (takeWhile (\<lambda>b. b \<noteq> 0) (drop off buf)) else None)"

lemma length_strncpy_bytes [simp]: "length (strncpy_bytes s n) = n"
  by (simp add: strncpy_bytes_def)

lemma strncpy_bytes_exact [simp]: "strncpy_bytes s (length s) = s"
  by (simp add: strncpy_bytes_def)

lemma strncpy_bytes_pad: "length s \<le> n \<Longrightarrow> strncpy_bytes s n = s @ replicate (n - length s) 0"
  by (simp add: strncpy_bytes_def)

lemma length_strncpy_into: "strncpy_into off s n buf = Some buf' \<Longrightarrow> length buf' = length buf"
  by (auto simp: strncpy_into_def split: if_splits)

lemma takeWhile_no_nul: "0 \<notin> set s \<Longrightarrow> takeWhile (\<lambda>b. b \<noteq> (0::byte)) (s @ 0 # rest) = s"
  by (induction s) auto

lemma cstr_at_NulI:
  "\<lbrakk>is_cstr s; drop off buf = s @ 0 # rest\<rbrakk> \<Longrightarrow> cstr_at off buf = Some s"
  by (simp add: cstr_at_def is_cstr_def takeWhile_no_nul)

lemma cstr_at_is_cstr: "cstr_at off buf = Some s \<Longrightarrow> is_cstr s"
  by (auto simp: cstr_at_def is_cstr_def split: if_splits dest: set_takeWhileD)

section \<open>Associative containers\<close>

text \<open>\<open>unordered_map::insert\<close> keeps the value of a key that is already present.\<close>

definition umap_insert :: "'k \<Rightarrow> 'v \<Rightarrow> ('k \<rightharpoonup> 'v) \<Rightarrow> ('k \<rightharpoonup> 'v)" where
  "umap_insert k v m = (case m k of None \<Rightarrow> m(k \<mapsto> v) | Some _ \<Rightarrow> m)"

lemma umap_insert_new [simp]: "m k = None \<Longrightarrow> umap_insert k v m = m(k \<mapsto> v)"
  by (simp add: umap_insert_def)

lemma umap_insert_old [simp]: "m k = Some w \<Longrightarrow> umap_insert k v m = m"
  by (simp add: umap_insert_def)

lemma umap_insert_apply:
  "umap_insert k v m j = (if j = k \<and> m k = None then Some v else m j)"
  by (simp add: umap_insert_def split: option.split)

end
