(* ===== verification/Wire.thy ===== *)
theory Wire
  imports FL_Prelude
begin

text \<open>
  The messages of \<open>inc/rpc_types.h\<close>, \<open>inc/func_code.h\<close> and \<open>inc/vcm_types.hpp\<close>: the
  structures as records, and their place in memory as the x86-64 ABI lays them out, since
  client and router exchange the raw bytes of \<open>struct rpc_req_msg\<close> (280 bytes: a 4-byte
  \<open>func_code\<close>, padding, a union of 272 bytes at offset 8) and \<open>struct rpc_rsp_msg\<close>
  (24 bytes: the 4-byte \<open>rval\<close>, padding, a union of 16 bytes at offset 8), and router and
  vcm those of \<open>struct vcm_msg\<close> (8 bytes). For every member of the request union there is
  a writer, a reader and the interpretation of the locale \<open>req_body\<close> that says the reader
  undoes the writer, wherever the remaining bytes of the object come from.
\<close>

section \<open>Function codes\<close>

definition FUNC_userspace_liteapi_get_node_id :: c_int where
  "FUNC_userspace_liteapi_get_node_id = 1"
definition FUNC_userspace_liteapi_join :: c_int where
  "FUNC_userspace_liteapi_join = 2"
definition FUNC_userspace_liteapi_alloc_remote_mem :: c_int where
  "FUNC_userspace_liteapi_alloc_remote_mem = 3"
definition FUNC_userspace_liteapi_rdma_write :: c_int where
  "FUNC_userspace_liteapi_rdma_write = 4"
definition FUNC_userspace_liteapi_rdma_read :: c_int where
  "FUNC_userspace_liteapi_rdma_read = 5"
definition FUNC_userspace_liteapi_send_reply_imm_fast :: c_int where
  "FUNC_userspace_liteapi_send_reply_imm_fast = 6"
definition FUNC_userspace_liteapi_receive_message_fast :: c_int where
  "FUNC_userspace_liteapi_receive_message_fast = 7"
definition FUNC_userspace_liteapi_reply_message :: c_int where
  "FUNC_userspace_liteapi_reply_message = 8"
definition FUNC_userspace_liteapi_register_application :: c_int where
  "FUNC_userspace_liteapi_register_application = 9"
definition FUNC_userspace_liteapi_dist_barrier :: c_int where
  "FUNC_userspace_liteapi_dist_barrier = 10"
definition FUNC_userspace_liteapi_query_port :: c_int where
  "FUNC_userspace_liteapi_query_port = 11"
definition FUNC_userspace_liteapi_alloc_local_mem :: c_int where
  "FUNC_userspace_liteapi_alloc_local_mem = 12"
definition FUNC_userspace_liteapi_free_local_mem :: c_int where
  "FUNC_userspace_liteapi_free_local_mem = 13"

definition VID_NID :: c_int where "VID_NID = 0"
definition NID_VID :: c_int where "NID_VID = 1"

lemmas func_codes =
  FUNC_userspace_liteapi_get_node_id_def FUNC_userspace_liteapi_join_def
  FUNC_userspace_liteapi_alloc_remote_mem_def FUNC_userspace_liteapi_rdma_write_def
  FUNC_userspace_liteapi_rdma_read_def FUNC_userspace_liteapi_send_reply_imm_fast_def
  FUNC_userspace_liteapi_receive_message_fast_def FUNC_userspace_liteapi_reply_message_def
  FUNC_userspace_liteapi_register_application_def FUNC_userspace_liteapi_dist_barrier_def
  FUNC_userspace_liteapi_query_port_def FUNC_userspace_liteapi_alloc_local_mem_def
  FUNC_userspace_liteapi_free_local_mem_def

section \<open>Request structures\<close>

record join_req_msg =
  jo_input_str :: "byte list"
  jo_eth_port :: c_int
  jo_ib_port :: c_int

record alloc_remote_mem_req_msg =
  ar_node_id :: c_int
  ar_size :: c_int
  ar_atomic_flag :: bool
  ar_password :: c_int

record rdma_write_req_msg =
  rw_lite_handler :: c_int
  rw_local_addr :: c_ptr
  rw_size :: c_int
  rw_offset :: c_int
  rw_password :: c_int

record send_reply_imm_fast_req_msg =
  sr_target_node :: c_int
  sr_port :: c_int
  sr_addr :: c_ptr
  sr_size :: c_int
  sr_ret_addr :: c_ptr
  sr_ret_length :: c_ptr
  sr_max_ret_size :: c_int

record receive_message_fast_req_msg =
  rm_port :: c_int
  rm_ret_addr :: c_ptr
  rm_receive_size :: c_int
  rm_block_call :: c_int

record reply_message_req_msg =
  rp_addr :: c_ptr
  rp_size :: c_int
  rp_descriptor :: c_long

record register_application_req_msg =
  ra_destined_port :: c_int
  ra_max_size_per_message :: c_int
  ra_max_user_per_node :: c_int
  ra_name :: "byte list"
  ra_name_len :: c_long

record dist_barrier_req_msg =
  db_num :: c_int

record query_port_req_msg =
  qp_target_node :: c_int
  qp_designed_port :: c_int

record alloc_local_mem_req_msg =
  al_name :: "byte list"
  al_size :: c_long

record free_local_mem_req_msg =
  fl_name :: "byte list"
  fl_size :: c_long
  fl_remote_addr :: c_ptr

section \<open>The request object\<close>

definition sizeof_rpc_req_msg :: nat where "sizeof_rpc_req_msg = 280"
definition sizeof_rpc_rsp_msg :: nat where "sizeof_rpc_rsp_msg = 24"
definition sizeof_vcm_msg :: nat where "sizeof_vcm_msg = 8"

lemmas sizeofs = sizeof_rpc_req_msg_def sizeof_rpc_rsp_msg_def sizeof_vcm_msg_def

definition get_func_code :: "byte list \<Rightarrow> c_int" where
  [codec_defs]: "get_func_code buf = get32 0 buf"

definition put_func_code :: "c_int \<Rightarrow> byte list \<Rightarrow> byte list" where
  [codec_defs]: "put_func_code c buf = put32 0 c buf"

definition put_join_req :: "join_req_msg \<Rightarrow> byte list \<Rightarrow> byte list" where
  [codec_defs]: "put_join_req r buf =
     put32 28 (jo_ib_port r) (put32 24 (jo_eth_port r) (put_arr 16 8 (jo_input_str r) buf))"

definition get_join_req :: "byte list \<Rightarrow> join_req_msg" where
  [codec_defs]: "get_join_req buf =
     \<lparr>jo_input_str = get_arr 16 8 buf, jo_eth_port = get32 24 buf, jo_ib_port = get32 28 buf\<rparr>"

definition put_alloc_remote_mem_req :: "alloc_remote_mem_req_msg \<Rightarrow> byte list \<Rightarrow> byte list" where
  [codec_defs]: "put_alloc_remote_mem_req r buf =
     put32 20 (ar_password r) (put_bool 16 (ar_atomic_flag r)
       (put32 12 (ar_size r) (put32 8 (ar_node_id r) buf)))"

definition get_alloc_remote_mem_req :: "byte list \<Rightarrow> alloc_remote_mem_req_msg" where
  [codec_defs]: "get_alloc_remote_mem_req buf =
     \<lparr>ar_node_id = get32 8 buf, ar_size = get32 12 buf,
      ar_atomic_flag = get_bool 16 buf, ar_password = get32 20 buf\<rparr>"

definition put_rdma_write_req :: "rdma_write_req_msg \<Rightarrow> byte list \<Rightarrow> byte list" where
  [codec_defs]: "put_rdma_write_req r buf =
     put32 32 (rw_password r) (put32 28 (rw_offset r) (put32 24 (rw_size r)
       (put64 16 (rw_local_addr r) (put32 8 (rw_lite_handler r) buf))))"

definition get_rdma_write_req :: "byte list \<Rightarrow> rdma_write_req_msg" where
  [codec_defs]: "get_rdma_write_req buf =
     \<lparr>rw_lite_handler = get32 8 buf, rw_local_addr = get64 16 buf, rw_size = get32 24 buf,
      rw_offset = get32 28 buf, rw_password = get32 32 buf\<rparr>"

definition put_send_reply_imm_fast_req ::
  "send_reply_imm_fast_req_msg \<Rightarrow> byte list \<Rightarrow> byte list" where
  [codec_defs]: "put_send_reply_imm_fast_req r buf =
     put32 48 (sr_max_ret_size r) (put64 40 (sr_ret_length r) (put64 32 (sr_ret_addr r)
       (put32 24 (sr_size r) (put64 16 (sr_addr r)
         (put32 12 (sr_port r) (put32 8 (sr_target_node r) buf))))))"

definition get_send_reply_imm_fast_req :: "byte list \<Rightarrow> send_reply_imm_fast_req_msg" where
  [codec_defs]: "get_send_reply_imm_fast_req buf =
     \<lparr>sr_target_node = get32 8 buf, sr_port = get32 12 buf, sr_addr = get64 16 buf,
      sr_size = get32 24 buf, sr_ret_addr = get64 32 buf, sr_ret_length = get64 40 buf,
      sr_max_ret_size = get32 48 buf\<rparr>"

definition put_receive_message_fast_req ::
  "receive_message_fast_req_msg \<Rightarrow> byte list \<Rightarrow> byte list" where
  [codec_defs]: "put_receive_message_fast_req r buf =
     put32 28 (rm_block_call r) (put32 24 (rm_receive_size r)
       (put64 16 (rm_ret_addr r) (put32 8 (rm_port r) buf)))"

definition get_receive_message_fast_req :: "byte list \<Rightarrow> receive_message_fast_req_msg" where
  [codec_defs]: "get_receive_message_fast_req buf =
     \<lparr>rm_port = get32 8 buf, rm_ret_addr = get64 16 buf,
      rm_receive_size = get32 24 buf, rm_block_call = get32 28 buf\<rparr>"

definition put_reply_message_req :: "reply_message_req_msg \<Rightarrow> byte list \<Rightarrow> byte list" where
  [codec_defs]: "put_reply_message_req r buf =
     put64 24 (rp_descriptor r) (put32 16 (rp_size r) (put64 8 (rp_addr r) buf))"

definition get_reply_message_req :: "byte list \<Rightarrow> reply_message_req_msg" where
  [codec_defs]: "get_reply_message_req buf =
     \<lparr>rp_addr = get64 8 buf, rp_size = get32 16 buf, rp_descriptor = get64 24 buf\<rparr>"

definition put_register_application_req ::
  "register_application_req_msg \<Rightarrow> byte list \<Rightarrow> byte list" where
  [codec_defs]: "put_register_application_req r buf =
     put64 56 (ra_name_len r) (put_arr 32 20 (ra_name r)
       (put32 16 (ra_max_user_per_node r) (put32 12 (ra_max_size_per_message r)
         (put32 8 (ra_destined_port r) buf))))"

definition get_register_application_req :: "byte list \<Rightarrow> register_application_req_msg" where
  [codec_defs]: "get_register_application_req buf =
     \<lparr>ra_destined_port = get32 8 buf, ra_max_size_per_message = get32 12 buf,
      ra_max_user_per_node = get32 16 buf, ra_name = get_arr 32 20 buf,
      ra_name_len = get64 56 buf\<rparr>"

definition put_dist_barrier_req :: "dist_barrier_req_msg \<Rightarrow> byte list \<Rightarrow> byte list" where
  [codec_defs]: "put_dist_barrier_req r buf = put32 8 (db_num r) buf"

definition get_dist_barrier_req :: "byte list \<Rightarrow> dist_barrier_req_msg" where
  [codec_defs]: "get_dist_barrier_req buf = \<lparr>db_num = get32 8 buf\<rparr>"

definition put_query_port_req :: "query_port_req_msg \<Rightarrow> byte list \<Rightarrow> byte list" where
  [codec_defs]: "put_query_port_req r buf =
     put32 12 (qp_designed_port r) (put32 8 (qp_target_node r) buf)"

definition get_query_port_req :: "byte list \<Rightarrow> query_port_req_msg" where
  [codec_defs]: "get_query_port_req buf =
     \<lparr>qp_target_node = get32 8 buf, qp_designed_port = get32 12 buf\<rparr>"

definition put_alloc_local_mem_req :: "alloc_local_mem_req_msg \<Rightarrow> byte list \<Rightarrow> byte list" where
  [codec_defs]: "put_alloc_local_mem_req r buf =
     put64 264 (al_size r) (put_arr 256 8 (al_name r) buf)"

definition get_alloc_local_mem_req :: "byte list \<Rightarrow> alloc_local_mem_req_msg" where
  [codec_defs]: "get_alloc_local_mem_req buf =
     \<lparr>al_name = get_arr 256 8 buf, al_size = get64 264 buf\<rparr>"

definition put_free_local_mem_req :: "free_local_mem_req_msg \<Rightarrow> byte list \<Rightarrow> byte list" where
  [codec_defs]: "put_free_local_mem_req r buf =
     put64 272 (fl_remote_addr r) (put64 264 (fl_size r) (put_arr 256 8 (fl_name r) buf))"

definition get_free_local_mem_req :: "byte list \<Rightarrow> free_local_mem_req_msg" where
  [codec_defs]: "get_free_local_mem_req buf =
     \<lparr>fl_name = get_arr 256 8 buf, fl_size = get64 264 buf, fl_remote_addr = get64 272 buf\<rparr>"

text \<open>A member of the request union: the shared interface of its writer and reader.\<close>

locale req_body =
  fixes wf :: "'r \<Rightarrow> bool"
    and put :: "'r \<Rightarrow> byte list \<Rightarrow> byte list"
    and get :: "byte list \<Rightarrow> 'r"
  assumes get_put: "\<lbrakk>length buf = 280; wf r\<rbrakk> \<Longrightarrow> get (put r buf) = r"
    and length_put: "\<lbrakk>length buf = 280; wf r\<rbrakk> \<Longrightarrow> length (put r buf) = 280"
    and code_put: "\<lbrakk>length buf = 280; wf r\<rbrakk> \<Longrightarrow> get_func_code (put r buf) = get_func_code buf"
begin

text \<open>A complete request decodes to its code and its body, whatever the object held before.\<close>

lemma decode_request:
  assumes "length stk = 280" and "wf r"
  shows "length (put r (put_func_code c stk)) = 280"
    and "get_func_code (put r (put_func_code c stk)) = c"
    and "get (put r (put_func_code c stk)) = r"
proof -
  have l: "length (put_func_code c stk) = 280"
    using assms(1) by (simp add: codec_defs layout_simps)
  have c: "get_func_code (put_func_code c stk) = c"
    using assms(1) by (simp add: codec_defs layout_simps)
  show "length (put r (put_func_code c stk)) = 280"
    using l assms(2) by (rule length_put)
  show "get_func_code (put r (put_func_code c stk)) = c"
    using code_put [OF l assms(2)] c by simp
  show "get (put r (put_func_code c stk)) = r"
    using l assms(2) by (rule get_put)
qed

end

interpretation join_body: req_body "\<lambda>r. length (jo_input_str r) = 16" put_join_req get_join_req
  by unfold_locales (simp_all add: codec_defs layout_simps)

interpretation alloc_remote_body: req_body "\<lambda>_. True" put_alloc_remote_mem_req get_alloc_remote_mem_req
  by unfold_locales (simp_all add: codec_defs layout_simps)

interpretation rdma_body: req_body "\<lambda>_. True" put_rdma_write_req get_rdma_write_req
  by unfold_locales (simp_all add: codec_defs layout_simps)

interpretation send_reply_body: req_body "\<lambda>_. True" put_send_reply_imm_fast_req get_send_reply_imm_fast_req
  by unfold_locales (simp_all add: codec_defs layout_simps)

interpretation receive_body: req_body "\<lambda>_. True" put_receive_message_fast_req get_receive_message_fast_req
  by unfold_locales (simp_all add: codec_defs layout_simps)

interpretation reply_body: req_body "\<lambda>_. True" put_reply_message_req get_reply_message_req
  by unfold_locales (simp_all add: codec_defs layout_simps)

interpretation register_body: req_body "\<lambda>r. length (ra_name r) = 32" put_register_application_req get_register_application_req
  by unfold_locales (simp_all add: codec_defs layout_simps)

interpretation barrier_body: req_body "\<lambda>_. True" put_dist_barrier_req get_dist_barrier_req
  by unfold_locales (simp_all add: codec_defs layout_simps)

interpretation query_body: req_body "\<lambda>_. True" put_query_port_req get_query_port_req
  by unfold_locales (simp_all add: codec_defs layout_simps)

interpretation alloc_local_body: req_body "\<lambda>r. length (al_name r) = 256" put_alloc_local_mem_req get_alloc_local_mem_req
  by unfold_locales (simp_all add: codec_defs layout_simps)

interpretation free_local_body: req_body "\<lambda>r. length (fl_name r) = 256" put_free_local_mem_req get_free_local_mem_req
  by unfold_locales (simp_all add: codec_defs layout_simps)

section \<open>The response object\<close>

definition get_int_rsp :: "byte list \<Rightarrow> c_int" where
  [codec_defs]: "get_int_rsp buf = get32 0 buf"

definition put_int_rsp :: "c_int \<Rightarrow> byte list \<Rightarrow> byte list" where
  [codec_defs]: "put_int_rsp v buf = put32 0 v buf"

text \<open>
  The union of the response: \<open>alloc_local_mem_rsp.remote_addr\<close> and
  \<open>receive_message_fast_rsp.descriptor\<close> share offset 8.
\<close>

definition get_remote_addr :: "byte list \<Rightarrow> c_ptr" where
  [codec_defs]: "get_remote_addr buf = get64 8 buf"

definition put_remote_addr :: "c_ptr \<Rightarrow> byte list \<Rightarrow> byte list" where
  [codec_defs]: "put_remote_addr v buf = put64 8 v buf"

definition get_descriptor :: "byte list \<Rightarrow> c_long" where
  [codec_defs]: "get_descriptor buf = get64 8 buf"

definition put_descriptor :: "c_long \<Rightarrow> byte list \<Rightarrow> byte list" where
  [codec_defs]: "put_descriptor v buf = put64 8 v buf"

definition get_ret_length :: "byte list \<Rightarrow> c_int" where
  [codec_defs]: "get_ret_length buf = get32 16 buf"

definition put_ret_length :: "c_int \<Rightarrow> byte list \<Rightarrow> byte list" where
  [codec_defs]: "put_ret_length v buf = put32 16 v buf"

lemma rsp_fields:
  assumes "length buf = 24"
  shows "length (put_int_rsp v buf) = 24" and "length (put_remote_addr a buf) = 24"
    and "length (put_descriptor d buf) = 24" and "length (put_ret_length l buf) = 24"
    and "get_int_rsp (put_int_rsp v buf) = v" and "get_remote_addr (put_int_rsp v buf) = get_remote_addr buf"
    and "get_descriptor (put_int_rsp v buf) = get_descriptor buf"
    and "get_ret_length (put_int_rsp v buf) = get_ret_length buf"
    and "get_remote_addr (put_remote_addr a buf) = a"
    and "get_int_rsp (put_remote_addr a buf) = get_int_rsp buf"
    and "get_descriptor (put_descriptor d buf) = d"
    and "get_int_rsp (put_descriptor d buf) = get_int_rsp buf"
    and "get_ret_length (put_descriptor d buf) = get_ret_length buf"
    and "get_ret_length (put_ret_length l buf) = l"
    and "get_descriptor (put_ret_length l buf) = get_descriptor buf"
    and "get_int_rsp (put_ret_length l buf) = get_int_rsp buf"
  using assms by (simp_all add: codec_defs layout_simps)

section \<open>The messages between router and vcm\<close>

record vcm_msg =
  vm_func_code :: c_int
  vm_id :: c_int

definition encode_vcm_msg :: "vcm_msg \<Rightarrow> byte list" where
  "encode_vcm_msg m = le_bytes 4 (unat (vm_func_code m)) @ le_bytes 4 (unat (vm_id m))"

definition decode_vcm_msg :: "byte list \<Rightarrow> vcm_msg" where
  "decode_vcm_msg buf = \<lparr>vm_func_code = get32 0 buf, vm_id = get32 4 buf\<rparr>"

lemma length_encode_vcm_msg [simp]: "length (encode_vcm_msg m) = 8"
  by (simp add: encode_vcm_msg_def)

lemma encode_vcm_msg_nonempty [simp]: "encode_vcm_msg m \<noteq> []"
  using length_encode_vcm_msg [of m] by (metis list.size(3) zero_neq_numeral)

lemma le_nat_le_bytes_word: "le_nat (le_bytes 4 (unat (v::c_int))) = unat v"
proof -
  have "unat v < 256 ^ 4"
    using unat_c_int_less [of v] by simp
  then show ?thesis
    by (simp add: le_nat_le_bytes)
qed

lemma decode_encode_vcm_msg [simp]: "decode_vcm_msg (encode_vcm_msg m) = m"
  by (cases m) (simp add: decode_vcm_msg_def encode_vcm_msg_def get32_def chunk_def le_nat_le_bytes_word)

lemma le_bytes_unat_le_nat:
  assumes "length bs = 4"
  shows "le_bytes 4 (unat (word_of_nat (le_nat bs) :: c_int)) = bs"
proof -
  have "unat (word_of_nat (le_nat bs) :: c_int) = le_nat bs"
    using le_nat_bound [of bs] assms by (simp add: unat_of_nat)
  then show ?thesis
    using le_bytes_le_nat [of bs] assms by simp
qed

lemma encode_decode_vcm_msg: "length buf = 8 \<Longrightarrow> encode_vcm_msg (decode_vcm_msg buf) = buf"
  by (simp add: decode_vcm_msg_def encode_vcm_msg_def get32_def le_bytes_unat_le_nat)
     (simp add: chunk_def)

section \<open>Round trips\<close>

text \<open>
  The messages of the vcm are their eight bytes: decoding undoes encoding, and encoding
  undoes decoding on every 8-byte object.
\<close>

lemma vcm_msg_roundtrip:
  "decode_vcm_msg (encode_vcm_msg m) = m \<and> length (encode_vcm_msg m) = sizeof_vcm_msg \<and>
   (length buf = sizeof_vcm_msg \<longrightarrow> encode_vcm_msg (decode_vcm_msg buf) = buf)"
  by (simp add: encode_decode_vcm_msg sizeofs)

end
