(* ===== verification/Server_Loop.thy ===== *)
theory Server_Loop
  imports FL_Prelude
begin

text \<open>
  The connection loop that \<open>server_accept_request\<close> runs in \<open>vcm/vcm.cpp\<close>, in
  \<open>router/test_router.cpp\<close> and in \<open>client/test_server.c\<close>: receive into an object, switch
  on its function code, send the answer, and close the socket and leave the thread on a
  receive error, a shutdown of the peer, an unknown code or a send error. The three
  servers differ in their objects and in the switch, which are arguments here. One event
  of a connection is the result of its \<open>recv\<close> together with whether the \<open>send\<close> of the
  answer succeeds. A switch that does not come back (a call that polls forever, or
  undefined behaviour of C) is \<open>Never_Returns\<close>: the thread is \<open>Stuck\<close> and nothing more is
  said about it. The locale \<open>session_server\<close> states what a server must provide (sizes
  of its objects) and proves what every such loop guarantees.
\<close>

datatype recv_result = Recv_Error | Recv_Data "byte list"

type_synonym session_event = "recv_result \<times> bool"

datatype ('l, 's) switch_result = Respond 'l 's | Unknown_Code | Never_Returns

datatype conn_status = Serving | Closed | Stuck

record ('l, 's) conn =
  locals :: 'l
  shared :: 's
  status :: conn_status
  outbox :: "byte list list"
  closes :: nat

definition open_conn :: "'l \<Rightarrow> 's \<Rightarrow> ('l, 's) conn" where
  "open_conn l s = \<lparr>locals = l, shared = s, status = Serving, outbox = [], closes = 0\<rparr>"

text \<open>\<open>close(client_sock); pthread_exit(NULL);\<close>\<close>

definition hangup :: "('l, 's) conn \<Rightarrow> ('l, 's) conn" where
  "hangup c = c\<lparr>status := Closed, closes := Suc (closes c)\<rparr>"

definition session_step ::
  "('l \<Rightarrow> byte list \<Rightarrow> 'l) \<Rightarrow> ('l \<Rightarrow> byte list) \<Rightarrow> ('l \<Rightarrow> 's \<Rightarrow> ('l, 's) switch_result) \<Rightarrow>
   session_event \<Rightarrow> ('l, 's) conn \<Rightarrow> ('l, 's) conn" where
  "session_step fill rsp dispatch ev c =
     (if status c \<noteq> Serving then c
      else case fst ev of
        Recv_Error \<Rightarrow> hangup c
      | Recv_Data data \<Rightarrow>
          (if data = [] then hangup c
           else case dispatch (fill (locals c) data) (shared c) of
             Unknown_Code \<Rightarrow> hangup (c\<lparr>locals := fill (locals c) data\<rparr>)
           | Never_Returns \<Rightarrow> c\<lparr>locals := fill (locals c) data, status := Stuck\<rparr>
           | Respond l s \<Rightarrow>
               (if snd ev
                then c\<lparr>locals := l, shared := s, outbox := outbox c @ [rsp l]\<rparr>
                else hangup (c\<lparr>locals := l, shared := s\<rparr>))))"

fun session_run ::
  "('l \<Rightarrow> byte list \<Rightarrow> 'l) \<Rightarrow> ('l \<Rightarrow> byte list) \<Rightarrow> ('l \<Rightarrow> 's \<Rightarrow> ('l, 's) switch_result) \<Rightarrow>
   session_event list \<Rightarrow> ('l, 's) conn \<Rightarrow> ('l, 's) conn" where
  "session_run fill rsp dispatch [] c = c"
| "session_run fill rsp dispatch (ev # evs) c =
     session_run fill rsp dispatch evs (session_step fill rsp dispatch ev c)"

text \<open>
  The thread before its loop: when \<open>getpeername\<close> fails it closes the socket and ends.
\<close>

definition start_conn :: "bool \<Rightarrow> 'l \<Rightarrow> 's \<Rightarrow> ('l, 's) conn" where
  "start_conn peer_ok l s = (if peer_ok then open_conn l s else hangup (open_conn l s))"

text \<open>\<open>recv(sock, obj, n, 0)\<close> never stores more than \<open>n\<close> bytes.\<close>

definition recv_fits :: "nat \<Rightarrow> session_event \<Rightarrow> bool" where
  "recv_fits n ev = (case fst ev of Recv_Error \<Rightarrow> True | Recv_Data data \<Rightarrow> length data \<le> n)"

text \<open>The socket is closed exactly once, when the loop is left through \<open>pthread_exit\<close>.\<close>

definition conn_closed_once :: "('l, 's) conn \<Rightarrow> bool" where
  "conn_closed_once c = (closes c = (if status c = Closed then 1 else 0))"

lemma session_step_not_serving [simp]:
  "status c \<noteq> Serving \<Longrightarrow> session_step fill rsp dispatch ev c = c"
  by (simp add: session_step_def)

lemma session_run_not_serving [simp]:
  "status c \<noteq> Serving \<Longrightarrow> session_run fill rsp dispatch evs c = c"
  by (induction evs) auto

lemma session_run_append:
  "session_run fill rsp dispatch (xs @ ys) c =
   session_run fill rsp dispatch ys (session_run fill rsp dispatch xs c)"
  by (induction xs arbitrary: c) auto

lemma session_step_closed_once:
  "conn_closed_once c \<Longrightarrow> conn_closed_once (session_step fill rsp dispatch ev c)"
  by (auto simp: conn_closed_once_def session_step_def hangup_def
      split: recv_result.splits switch_result.splits)

lemma session_run_closed_once:
  "conn_closed_once c \<Longrightarrow> conn_closed_once (session_run fill rsp dispatch evs c)"
  by (induction evs arbitrary: c) (auto intro: session_step_closed_once)

lemma session_step_outbox:
  "\<exists>out. outbox (session_step fill rsp dispatch ev c) = outbox c @ out \<and> length out \<le> 1"
  by (auto simp: session_step_def hangup_def split: recv_result.splits switch_result.splits)

lemma session_run_outbox:
  "\<exists>out. outbox (session_run fill rsp dispatch evs c) = outbox c @ out \<and> length out \<le> length evs"
proof (induction evs arbitrary: c)
  case (Cons ev evs)
  obtain o1 where 1: "outbox (session_step fill rsp dispatch ev c) = outbox c @ o1" "length o1 \<le> 1"
    using session_step_outbox by blast
  obtain o2 where "outbox (session_run fill rsp dispatch evs (session_step fill rsp dispatch ev c))
      = outbox (session_step fill rsp dispatch ev c) @ o2" "length o2 \<le> length evs"
    using Cons.IH by blast
  with 1 show ?case
    by (intro exI [of _ "o1 @ o2"]) simp
qed simp

text \<open>
  What a server provides: \<open>linv\<close> says its receive and answer objects have their sizes;
  receiving and switching keep it; an answer has the size of the answer object.
\<close>

locale session_server =
  fixes fill :: "'l \<Rightarrow> byte list \<Rightarrow> 'l"
    and rsp :: "'l \<Rightarrow> byte list"
    and dispatch :: "'l \<Rightarrow> 's \<Rightarrow> ('l, 's) switch_result"
    and linv :: "'l \<Rightarrow> bool"
    and rsize :: nat and wsize :: nat
  assumes fill_linv: "\<lbrakk>linv l; length data \<le> rsize\<rbrakk> \<Longrightarrow> linv (fill l data)"
    and dispatch_linv: "\<lbrakk>linv l; dispatch l s = Respond l' s'\<rbrakk> \<Longrightarrow> linv l'"
    and rsp_size: "linv l \<Longrightarrow> length (rsp l) = wsize"
begin

definition conn_ok :: "('l, 's) conn \<Rightarrow> bool" where
  "conn_ok c = (linv (locals c) \<and> (\<forall>m\<in>set (outbox c). length m = wsize) \<and> conn_closed_once c)"

lemma step_ok:
  "\<lbrakk>conn_ok c; recv_fits rsize ev\<rbrakk> \<Longrightarrow> conn_ok (session_step fill rsp dispatch ev c)"
  using session_step_closed_once [of c fill rsp dispatch ev]
  by (cases "fst ev")
     (auto simp: conn_ok_def recv_fits_def session_step_def hangup_def
       split: switch_result.splits intro: fill_linv dispatch_linv rsp_size)

lemma run_ok:
  "\<lbrakk>conn_ok c; list_all (recv_fits rsize) evs\<rbrakk> \<Longrightarrow> conn_ok (session_run fill rsp dispatch evs c)"
  by (induction evs arbitrary: c) (auto intro: step_ok)

lemma start_ok: "linv l \<Longrightarrow> conn_ok (start_conn peer_ok l s)"
  by (simp add: conn_ok_def start_conn_def open_conn_def hangup_def conn_closed_once_def)

lemma answers:
  fixes s :: 's and peer_ok :: bool
  assumes "linv l" and "list_all (recv_fits rsize) evs"
  defines "c \<equiv> session_run fill rsp dispatch evs (start_conn peer_ok l s)"
  shows "(\<forall>m\<in>set (outbox c). length m = wsize) \<and> length (outbox c) \<le> length evs
     \<and> closes c = (if status c = Closed then 1 else 0)"
proof -
  have "conn_ok c"
    unfolding c_def using assms(1,2) by (blast intro: run_ok start_ok)
  moreover have "length (outbox c) \<le> length evs"
    unfolding c_def using session_run_outbox [of fill rsp dispatch evs "start_conn peer_ok l s"]
    by (auto simp: start_conn_def open_conn_def hangup_def)
  ultimately show ?thesis
    by (simp add: conn_ok_def conn_closed_once_def)
qed

end

section \<open>Several connections of one server\<close>

text \<open>
  Every accepted connection has its own thread and its own objects; the threads share the
  server's state, whose every access is made under one mutex. A run of the server is
  therefore a sequence of events, each taken by one connection.
\<close>

record ('l, 's) net =
  net_shared :: 's
  net_conns :: "nat \<Rightarrow> ('l, 's) conn"

definition net_step ::
  "('l \<Rightarrow> byte list \<Rightarrow> 'l) \<Rightarrow> ('l \<Rightarrow> byte list) \<Rightarrow> ('l \<Rightarrow> 's \<Rightarrow> ('l, 's) switch_result) \<Rightarrow>
   nat \<times> session_event \<Rightarrow> ('l, 's) net \<Rightarrow> ('l, 's) net" where
  "net_step fill rsp dispatch ie n =
     (let c = session_step fill rsp dispatch (snd ie)
                ((net_conns n (fst ie))\<lparr>shared := net_shared n\<rparr>)
      in n\<lparr>net_shared := shared c, net_conns := (net_conns n)(fst ie := c)\<rparr>)"

fun net_run ::
  "('l \<Rightarrow> byte list \<Rightarrow> 'l) \<Rightarrow> ('l \<Rightarrow> byte list) \<Rightarrow> ('l \<Rightarrow> 's \<Rightarrow> ('l, 's) switch_result) \<Rightarrow>
   (nat \<times> session_event) list \<Rightarrow> ('l, 's) net \<Rightarrow> ('l, 's) net" where
  "net_run fill rsp dispatch [] n = n"
| "net_run fill rsp dispatch (ie # ies) n =
     net_run fill rsp dispatch ies (net_step fill rsp dispatch ie n)"

definition open_net :: "'l \<Rightarrow> 's \<Rightarrow> ('l, 's) net" where
  "open_net l s = \<lparr>net_shared = s, net_conns = (\<lambda>_. open_conn l s)\<rparr>"

end
