(* ===== verification/Routing.thy ===== *)
theory Routing
  imports Wire Server_Loop
begin

text \<open>
  The router's side of the virtual cluster manager, \<open>router/lib/routing.cpp\<close>: one reused
  socket, the cache of resolved virtual nodes and the map from containers to their virtual
  nodes. \<open>vcm_get_node_id\<close>, \<open>vcm_join\<close> and \<open>vcm_vid_nid\<close> run under \<open>map_mutex\<close> from their
  first to their last statement, the exchange with the vcm included, so each is one step.
  The socket calls are parameters (\<open>socket_api\<close>) on a world \<open>'w\<close>; a call result below
  zero is the error of the C interface.
\<close>

section \<open>The socket calls\<close>

record 'w socket_api =
  so_socket :: "'w \<Rightarrow> int \<times> 'w"
  so_unlink :: "string \<Rightarrow> 'w \<Rightarrow> 'w"
  so_bind :: "int \<Rightarrow> string \<Rightarrow> 'w \<Rightarrow> int \<times> 'w"
  so_connect :: "int \<Rightarrow> string \<Rightarrow> 'w \<Rightarrow> int \<times> 'w"
  so_inet_pton :: "string \<Rightarrow> int"
  so_send :: "int \<Rightarrow> byte list \<Rightarrow> 'w \<Rightarrow> int \<times> 'w"
  so_recv :: "int \<Rightarrow> nat \<Rightarrow> 'w \<Rightarrow> recv_result \<times> 'w"
  so_close :: "int \<Rightarrow> 'w \<Rightarrow> 'w"

section \<open>State and operations\<close>

record routing_state =
  vcm_sock :: int
  vid_nid_map_cache :: "c_int \<rightharpoonup> c_int"
  cid_vid_map :: "string \<rightharpoonup> c_int"

definition routing_init :: routing_state where
  "routing_init = \<lparr>vcm_sock = -1, vid_nid_map_cache = Map.empty, cid_vid_map = Map.empty\<rparr>"

definition vcm_disconn :: "'w socket_api \<Rightarrow> routing_state \<Rightarrow> 'w \<Rightarrow> routing_state \<times> 'w" where
  "vcm_disconn api st w = (st\<lparr>vcm_sock := -1\<rparr>, so_close api (vcm_sock st) w)"

definition vcm_conn ::
  "'w socket_api \<Rightarrow> string \<Rightarrow> routing_state \<Rightarrow> 'w \<Rightarrow> int \<times> routing_state \<times> 'w" where
  "vcm_conn api vcm_ip st w =
     (case so_socket api w of (s, w1) \<Rightarrow>
        let st1 = st\<lparr>vcm_sock := s\<rparr>
        in if s < 0 then (-1, st1, w1)
           else if so_inet_pton api vcm_ip \<le> 0 then (-1, st1, w1)
           else case so_connect api s vcm_ip w1 of (r, w2) \<Rightarrow>
             if r < 0 then (-1, vcm_disconn api st1 w2) else (s, st1, w2))"

text \<open>
  \<open>vcm_handler\<close> exchanges one message. A receive of fewer bytes than the message (none at
  all when the peer has shut down) leaves the rest of the object as it was sent.
\<close>

definition vcm_handler ::
  "'w socket_api \<Rightarrow> vcm_msg \<Rightarrow> routing_state \<Rightarrow> 'w \<Rightarrow> int \<times> vcm_msg \<times> routing_state \<times> 'w" where
  "vcm_handler api msg st w =
     (if vcm_sock st = -1 then (-1, msg, st, w)
      else case so_send api (vcm_sock st) (encode_vcm_msg msg) w of (sent, w1) \<Rightarrow>
        if sent < 0 then (-1, msg, vcm_disconn api st w1)
        else case so_recv api (vcm_sock st) sizeof_vcm_msg w1 of (got, w2) \<Rightarrow>
          (case got of
             Recv_Error \<Rightarrow> (-1, msg, vcm_disconn api st w2)
           | Recv_Data data \<Rightarrow>
               (0, decode_vcm_msg (recv_into data (encode_vcm_msg msg)), st, w2)))"

definition vcm_get_node_id :: "string \<Rightarrow> routing_state \<Rightarrow> c_int" where
  "vcm_get_node_id cid st = (case cid_vid_map st cid of None \<Rightarrow> -1 | Some v \<Rightarrow> v)"

definition vcm_join ::
  "'w socket_api \<Rightarrow> c_int \<Rightarrow> string \<Rightarrow> routing_state \<Rightarrow> 'w \<Rightarrow> c_int \<times> routing_state \<times> 'w" where
  "vcm_join api router_nid cid st w =
     (case cid_vid_map st cid of
        Some v \<Rightarrow> (v, st, w)
      | None \<Rightarrow>
          (case vcm_handler api \<lparr>vm_func_code = NID_VID, vm_id = router_nid\<rparr> st w of
             (r, msg, st1, w1) \<Rightarrow>
               if r < 0 then (-1, st1, w1)
               else (let v = vm_id msg
                     in (v, st1\<lparr>cid_vid_map := umap_insert cid v (cid_vid_map st1),
                               vid_nid_map_cache := umap_insert v router_nid (vid_nid_map_cache st1)\<rparr>,
                         w1))))"

definition vcm_vid_nid ::
  "'w socket_api \<Rightarrow> c_int \<Rightarrow> routing_state \<Rightarrow> 'w \<Rightarrow> c_int \<times> routing_state \<times> 'w" where
  "vcm_vid_nid api v st w =
     (case vid_nid_map_cache st v of
        Some nid \<Rightarrow> (nid, st, w)
      | None \<Rightarrow>
          (case vcm_handler api \<lparr>vm_func_code = VID_NID, vm_id = v\<rparr> st w of
             (r, msg, st1, w1) \<Rightarrow>
               if r < 0 then (-1, st1, w1)
               else (vm_id msg,
                     st1\<lparr>vid_nid_map_cache := umap_insert v (vm_id msg) (vid_nid_map_cache st1)\<rparr>,
                     w1)))"

section \<open>What an exchange leaves alone\<close>

lemma vcm_handler_maps:
  assumes "vcm_handler api msg st w = (r, msg', st', w')"
  shows "vid_nid_map_cache st' = vid_nid_map_cache st" and "cid_vid_map st' = cid_vid_map st"
    and "r = 0 \<or> r = -1" and "r = 0 \<Longrightarrow> st' = st" and "r = -1 \<Longrightarrow> vcm_sock st' = -1"
  using assms
  by (auto simp: vcm_handler_def vcm_disconn_def split: if_splits prod.splits recv_result.splits)

lemma vcm_handler_no_socket:
  "vcm_sock st = -1 \<Longrightarrow> vcm_handler api msg st w = (-1, msg, st, w)"
  by (simp add: vcm_handler_def)

lemma vcm_join_known: "cid_vid_map st cid = Some v \<Longrightarrow> vcm_join api n cid st w = (v, st, w)"
  by (simp add: vcm_join_def)

lemma vcm_vid_nid_known: "vid_nid_map_cache st v = Some n \<Longrightarrow> vcm_vid_nid api v st w = (n, st, w)"
  by (simp add: vcm_vid_nid_def)

text \<open>The two outcomes of an operation that has to ask the vcm.\<close>

lemma vcm_join_cases:
  assumes "vcm_join api n cid st w = (v, st', w')"
  obtains (known) "cid_vid_map st cid = Some v" "st' = st" "w' = w"
  | (failed) "cid_vid_map st cid = None" "v = -1" "vcm_sock st' = -1"
      "cid_vid_map st' = cid_vid_map st" "vid_nid_map_cache st' = vid_nid_map_cache st"
  | (joined) msg where "cid_vid_map st cid = None"
      "vcm_handler api \<lparr>vm_func_code = NID_VID, vm_id = n\<rparr> st w = (0, msg, st, w')" "v = vm_id msg"
      "st' = st\<lparr>cid_vid_map := (cid_vid_map st)(cid \<mapsto> v),
                vid_nid_map_cache := umap_insert v n (vid_nid_map_cache st)\<rparr>"
proof (cases "cid_vid_map st cid")
  case (Some u)
  with assms show thesis
    by (intro known) (auto simp: vcm_join_def)
next
  case None
  obtain r msg st1 w1 where h: "vcm_handler api \<lparr>vm_func_code = NID_VID, vm_id = n\<rparr> st w = (r, msg, st1, w1)"
    by (metis prod_cases4)
  note m = vcm_handler_maps [OF h]
  from m(3) show thesis
  proof
    assume "r = 0"
    then have "st1 = st"
      by (rule m(4))
    then show thesis
      using assms None h \<open>r = 0\<close> by (intro joined) (auto simp: vcm_join_def Let_def)
  next
    assume "r = -1"
    then show thesis
      using assms None h m by (intro failed) (auto simp: vcm_join_def)
  qed
qed

lemma vcm_vid_nid_cases:
  assumes "vcm_vid_nid api v st w = (n, st', w')"
  obtains (known) "vid_nid_map_cache st v = Some n" "st' = st" "w' = w"
  | (failed) "vid_nid_map_cache st v = None" "n = -1" "vcm_sock st' = -1"
      "cid_vid_map st' = cid_vid_map st" "vid_nid_map_cache st' = vid_nid_map_cache st"
  | (resolved) msg where "vid_nid_map_cache st v = None"
      "vcm_handler api \<lparr>vm_func_code = VID_NID, vm_id = v\<rparr> st w = (0, msg, st, w')" "n = vm_id msg"
      "st' = st\<lparr>vid_nid_map_cache := (vid_nid_map_cache st)(v \<mapsto> n)\<rparr>"
proof (cases "vid_nid_map_cache st v")
  case (Some u)
  with assms show thesis
    by (intro known) (auto simp: vcm_vid_nid_def)
next
  case None
  obtain r msg st1 w1 where h: "vcm_handler api \<lparr>vm_func_code = VID_NID, vm_id = v\<rparr> st w = (r, msg, st1, w1)"
    by (metis prod_cases4)
  note m = vcm_handler_maps [OF h]
  from m(3) show thesis
  proof
    assume "r = 0"
    then have "st1 = st"
      by (rule m(4))
    then show thesis
      using assms None h \<open>r = 0\<close> by (intro resolved) (auto simp: vcm_vid_nid_def)
  next
    assume "r = -1"
    then show thesis
      using assms None h m by (intro failed) (auto simp: vcm_vid_nid_def)
  qed
qed

end
