(* ===== verification/Lite_Lib.thy ===== *)
theory Lite_Lib
  imports FL_Prelude
begin

unbundle bit_operations_syntax

text \<open>
  The system call wrappers of the router, \<open>router/lib/lite-lib.c\<close>, with the constants of
  \<open>inc/lite-lib.h\<close>. The LITE kernel module is not part of the repository: it is the
  parameter \<open>os_syscall\<close> of the record \<open>lite_os\<close>, next to the loads and stores on the words
  the kernel fills in asynchronously, \<open>usleep\<close> and the calls of
  \<open>userspace_liteapi_alloc_memory\<close>. Arguments keep their C width (\<open>A32\<close>, \<open>A64\<close>; \<open>AStr\<close> is
  a pointer to a character buffer, given with the bytes it points to). A wrapper that polls a word
  until it changes is \<open>None\<close> when the word never changes.
\<close>

section \<open>Constants\<close>

definition NR_lite_remote_memset :: nat where "NR_lite_remote_memset = 400"
definition NR_lite_fetch_add :: nat where "NR_lite_fetch_add = 401"
definition NR_lite_rdma_synwrite :: nat where "NR_lite_rdma_synwrite = 402"
definition NR_lite_rdma_read :: nat where "NR_lite_rdma_read = 403"
definition NR_lite_ask_lmr :: nat where "NR_lite_ask_lmr = 404"
definition NR_lite_dist_barrier :: nat where "NR_lite_dist_barrier = 406"
definition NR_lite_add_ask_mr_table :: nat where "NR_lite_add_ask_mr_table = 407"
definition NR_lite_compare_swp :: nat where "NR_lite_compare_swp = 408"
definition NR_lite_alloc_remote :: nat where "NR_lite_alloc_remote = 409"
definition NR_lite_register_application :: nat where "NR_lite_register_application = 411"
definition NR_lite_receive_message :: nat where "NR_lite_receive_message = 413"
definition NR_lite_send_reply_imm :: nat where "NR_lite_send_reply_imm = 414"
definition NR_lite_reply_message :: nat where "NR_lite_reply_message = 415"
definition NR_lite_get_node_id :: nat where "NR_lite_get_node_id = 416"
definition NR_lite_query_port :: nat where "NR_lite_query_port = 417"
definition NR_lite_create_lock :: nat where "NR_lite_create_lock = 420"
definition NR_lite_ask_lock :: nat where "NR_lite_ask_lock = 421"
definition NR_lite_lock :: nat where "NR_lite_lock = 422"
definition NR_lite_unlock :: nat where "NR_lite_unlock = 423"
definition NR_lite_get_total_node :: nat where "NR_lite_get_total_node = 424"
definition NR_lite_reply_and_receive_message :: nat where "NR_lite_reply_and_receive_message = 425"
definition NR_lite_join :: nat where "NR_lite_join = 426"
definition NR_lite_rdma_read_async :: nat where "NR_lite_rdma_read_async = 427"

definition IMM_SEND_ONLY_FLAG :: c_long where "IMM_SEND_ONLY_FLAG = 0xffffffffffffffff"
definition LIMITATION :: int where "LIMITATION = 1024 * 1024 * 4"
definition PAGE_SHIFT :: nat where "PAGE_SHIFT = 12"
definition IMM_MAX_PORT :: c_int where "IMM_MAX_PORT = 64"
definition IMM_MAX_PORT_BIT :: nat where "IMM_MAX_PORT_BIT = 6"
definition IMM_MAX_PRIORITY_BIT :: nat where "IMM_MAX_PRIORITY_BIT = 6"
definition SEND_REPLY_WAIT :: c_int where "SEND_REPLY_WAIT = -101"
definition CHECK_LENGTH :: nat where "CHECK_LENGTH = 100000"
definition USERSPACE_HIGH_PRIORITY :: c_int where "USERSPACE_HIGH_PRIORITY = 16"
definition USERSPACE_LOW_PRIORITY :: c_int where "USERSPACE_LOW_PRIORITY = 17"
definition NULL_PRIORITY :: c_int where "NULL_PRIORITY = 0"

section \<open>The kernel interface\<close>

datatype sysarg = A32 c_int | A64 c_long | AStr "byte list"

record 'w lite_os =
  os_syscall :: "nat \<Rightarrow> sysarg list \<Rightarrow> 'w \<Rightarrow> c_long \<times> 'w"
  os_load64 :: "c_ptr \<Rightarrow> 'w \<Rightarrow> c_long \<times> 'w"
  os_store64 :: "c_ptr \<Rightarrow> c_long \<Rightarrow> 'w \<Rightarrow> 'w"
  os_store32 :: "c_ptr \<Rightarrow> c_int \<Rightarrow> 'w \<Rightarrow> 'w"
  os_load32 :: "c_ptr \<Rightarrow> 'w \<Rightarrow> c_int \<times> 'w"
  os_usleep :: "'w \<Rightarrow> 'w"
  os_open_lite_mmap :: "'w \<Rightarrow> int \<times> 'w"
  os_mmap_private :: "c_long \<Rightarrow> int \<Rightarrow> 'w \<Rightarrow> c_ptr \<times> 'w"

text \<open>\<open>return syscall(...)\<close> in a function of type \<open>int\<close>: the \<open>long\<close> result is truncated.\<close>

definition int_syscall :: "'w lite_os \<Rightarrow> nat \<Rightarrow> sysarg list \<Rightarrow> 'w \<Rightarrow> c_int \<times> 'w" where
  "int_syscall os nr args w = (case os_syscall os nr args w of (r, w') \<Rightarrow> (ucast r, w'))"

text \<open>\<open>(size << IMM_MAX_PORT_BIT) + port\<close> and \<open>(max_ret_size << IMM_MAX_PRIORITY_BIT) + prio\<close>.\<close>

definition pack_port :: "c_int \<Rightarrow> c_int \<Rightarrow> c_int" where
  "pack_port sz port = push_bit IMM_MAX_PORT_BIT sz + port"

definition pack_priority :: "c_int \<Rightarrow> c_int \<Rightarrow> c_int" where
  "pack_priority max_ret_size prio = push_bit IMM_MAX_PRIORITY_BIT max_ret_size + prio"

definition too_big :: "c_int \<Rightarrow> bool" where
  "too_big sz = (sint sz \<ge> LIMITATION)"

section \<open>Wrappers that only marshal\<close>

definition lite_dist_barrier :: "'w lite_os \<Rightarrow> c_int \<Rightarrow> 'w \<Rightarrow> c_int \<times> 'w" where
  "lite_dist_barrier os num = int_syscall os NR_lite_dist_barrier [A32 num]"

definition lite_alloc_remote_mem ::
  "'w lite_os \<Rightarrow> c_int \<Rightarrow> c_int \<Rightarrow> bool \<Rightarrow> c_int \<Rightarrow> 'w \<Rightarrow> c_int \<times> 'w" where
  "lite_alloc_remote_mem os node_id sz atomic_flag password =
     int_syscall os NR_lite_alloc_remote
       [A32 node_id, A32 sz, A32 (if atomic_flag then 1 else 0), A32 password]"

definition lite_register_application ::
  "'w lite_os \<Rightarrow> c_int \<Rightarrow> c_int \<Rightarrow> c_int \<Rightarrow> byte list \<Rightarrow> c_long \<Rightarrow> 'w \<Rightarrow> c_int \<times> 'w" where
  "lite_register_application os destined_port max_size_per_message max_user_per_node name name_len =
     int_syscall os NR_lite_register_application
       [A32 destined_port, A32 max_size_per_message, A32 max_user_per_node, AStr name, A64 name_len]"

definition lite_query_port :: "'w lite_os \<Rightarrow> c_int \<Rightarrow> c_int \<Rightarrow> 'w \<Rightarrow> c_int \<times> 'w" where
  "lite_query_port os target_node designed_port =
     int_syscall os NR_lite_query_port [A32 target_node, A32 designed_port, A32 0]"

definition lite_ask_lmr ::
  "'w lite_os \<Rightarrow> c_int \<Rightarrow> c_long \<Rightarrow> c_long \<Rightarrow> c_int \<Rightarrow> 'w \<Rightarrow> c_int \<times> 'w" where
  "lite_ask_lmr os memory_node identifier permission password =
     int_syscall os NR_lite_ask_lmr [A32 memory_node, A64 identifier, A64 permission, A32 password]"

definition lite_get_node_id :: "'w lite_os \<Rightarrow> 'w \<Rightarrow> c_int \<times> 'w" where
  "lite_get_node_id os = int_syscall os NR_lite_get_node_id []"

definition lite_get_total_node :: "'w lite_os \<Rightarrow> 'w \<Rightarrow> c_int \<times> 'w" where
  "lite_get_total_node os = int_syscall os NR_lite_get_total_node []"

text \<open>
  \<open>rdma_write\<close>, \<open>rdma_read\<close> and their \<open>_high\<close> and \<open>_low\<close> versions differ in the call
  number and the priority.
\<close>

definition rdma_args ::
  "c_int \<Rightarrow> c_ptr \<Rightarrow> c_int \<Rightarrow> c_int \<Rightarrow> c_int \<Rightarrow> c_int \<Rightarrow> sysarg list" where
  "rdma_args lite_handler local_addr sz prio offset password =
     [A32 lite_handler, A64 local_addr, A32 sz, A32 prio, A32 offset, A32 password]"

definition lite_rdma_write ::
  "'w lite_os \<Rightarrow> c_int \<Rightarrow> c_ptr \<Rightarrow> c_int \<Rightarrow> c_int \<Rightarrow> c_int \<Rightarrow> 'w \<Rightarrow> c_int \<times> 'w" where
  "lite_rdma_write os h addr sz offset password =
     int_syscall os NR_lite_rdma_synwrite (rdma_args h addr sz NULL_PRIORITY offset password)"

definition lite_rdma_write_high ::
  "'w lite_os \<Rightarrow> c_int \<Rightarrow> c_ptr \<Rightarrow> c_int \<Rightarrow> c_int \<Rightarrow> c_int \<Rightarrow> 'w \<Rightarrow> c_int \<times> 'w" where
  "lite_rdma_write_high os h addr sz offset password =
     int_syscall os NR_lite_rdma_synwrite (rdma_args h addr sz USERSPACE_HIGH_PRIORITY offset password)"

definition lite_rdma_write_low ::
  "'w lite_os \<Rightarrow> c_int \<Rightarrow> c_ptr \<Rightarrow> c_int \<Rightarrow> c_int \<Rightarrow> c_int \<Rightarrow> 'w \<Rightarrow> c_int \<times> 'w" where
  "lite_rdma_write_low os h addr sz offset password =
     int_syscall os NR_lite_rdma_synwrite (rdma_args h addr sz USERSPACE_LOW_PRIORITY offset password)"

definition lite_rdma_read ::
  "'w lite_os \<Rightarrow> c_int \<Rightarrow> c_ptr \<Rightarrow> c_int \<Rightarrow> c_int \<Rightarrow> c_int \<Rightarrow> 'w \<Rightarrow> c_int \<times> 'w" where
  "lite_rdma_read os h addr sz offset password =
     int_syscall os NR_lite_rdma_read (rdma_args h addr sz NULL_PRIORITY offset password)"

definition lite_rdma_read_high ::
  "'w lite_os \<Rightarrow> c_int \<Rightarrow> c_ptr \<Rightarrow> c_int \<Rightarrow> c_int \<Rightarrow> c_int \<Rightarrow> 'w \<Rightarrow> c_int \<times> 'w" where
  "lite_rdma_read_high os h addr sz offset password =
     int_syscall os NR_lite_rdma_read (rdma_args h addr sz USERSPACE_HIGH_PRIORITY offset password)"

definition lite_rdma_read_low ::
  "'w lite_os \<Rightarrow> c_int \<Rightarrow> c_ptr \<Rightarrow> c_int \<Rightarrow> c_int \<Rightarrow> c_int \<Rightarrow> 'w \<Rightarrow> c_int \<times> 'w" where
  "lite_rdma_read_low os h addr sz offset password =
     int_syscall os NR_lite_rdma_read (rdma_args h addr sz USERSPACE_LOW_PRIORITY offset password)"

definition async_rdma_read ::
  "'w lite_os \<Rightarrow> c_int \<Rightarrow> c_ptr \<Rightarrow> c_int \<Rightarrow> c_int \<Rightarrow> c_ptr \<Rightarrow> 'w \<Rightarrow> c_int \<times> 'w" where
  "async_rdma_read os h addr sz offset poll =
     int_syscall os NR_lite_rdma_read_async
       [A32 h, A64 addr, A32 sz, A32 NULL_PRIORITY, A32 offset, A64 poll]"

text \<open>The lock operations: a negative result of the first two is turned into 0.\<close>

definition lite_create_lock :: "'w lite_os \<Rightarrow> c_int \<Rightarrow> c_ptr \<Rightarrow> 'w \<Rightarrow> c_int \<times> 'w" where
  "lite_create_lock os target_node input w =
     (case int_syscall os NR_lite_create_lock [A32 target_node, A64 input] w of
        (ret, w') \<Rightarrow> (if sint ret \<ge> 0 then ret else 0, w'))"

definition lite_ask_lock :: "'w lite_os \<Rightarrow> c_int \<Rightarrow> c_int \<Rightarrow> c_ptr \<Rightarrow> 'w \<Rightarrow> c_int \<times> 'w" where
  "lite_ask_lock os target_node target_idx input w =
     (case int_syscall os NR_lite_ask_lock [A32 target_node, A32 target_idx, A64 input] w of
        (ret, w') \<Rightarrow> (if sint ret \<ge> 0 then ret else 0, w'))"

definition lite_lock :: "'w lite_os \<Rightarrow> c_ptr \<Rightarrow> 'w \<Rightarrow> c_int \<times> 'w" where
  "lite_lock os input = int_syscall os NR_lite_lock [A64 input]"

definition lite_unlock :: "'w lite_os \<Rightarrow> c_ptr \<Rightarrow> 'w \<Rightarrow> c_int \<times> 'w" where
  "lite_unlock os input = int_syscall os NR_lite_unlock [A64 input]"

definition lite_remote_memset :: "'w lite_os \<Rightarrow> c_int \<Rightarrow> c_int \<Rightarrow> c_int \<Rightarrow> 'w \<Rightarrow> c_int \<times> 'w" where
  "lite_remote_memset os h offset sz =
     int_syscall os NR_lite_remote_memset [A32 h, A32 offset, A32 sz]"

definition lite_add_ask_mr_table ::
  "'w lite_os \<Rightarrow> c_long \<Rightarrow> c_long \<Rightarrow> c_long \<Rightarrow> c_int \<Rightarrow> 'w \<Rightarrow> c_int \<times> 'w" where
  "lite_add_ask_mr_table os identifier lmr permission password =
     int_syscall os NR_lite_add_ask_mr_table [A64 identifier, A64 lmr, A64 permission, A32 password]"

definition lite_compare_swp ::
  "'w lite_os \<Rightarrow> c_long \<Rightarrow> c_ptr \<Rightarrow> c_long \<Rightarrow> c_long \<Rightarrow> 'w \<Rightarrow> c_int \<times> 'w" where
  "lite_compare_swp os h local_addr guess_value set_value =
     int_syscall os NR_lite_compare_swp [A64 h, A64 local_addr, A64 guess_value, A64 set_value, A32 0]"

definition lite_fetch_add :: "'w lite_os \<Rightarrow> c_long \<Rightarrow> c_ptr \<Rightarrow> c_long \<Rightarrow> 'w \<Rightarrow> c_int \<times> 'w" where
  "lite_fetch_add os h local_addr input_value =
     int_syscall os NR_lite_fetch_add [A64 h, A64 local_addr, A64 input_value, A32 0]"

definition lite_reply_and_receive_message ::
  "'w lite_os \<Rightarrow> c_ptr \<Rightarrow> c_int \<Rightarrow> c_long \<Rightarrow> c_int \<Rightarrow> c_ptr \<Rightarrow> c_int \<Rightarrow> c_ptr \<Rightarrow> 'w \<Rightarrow> c_int \<times> 'w" where
  "lite_reply_and_receive_message os addr sz descriptor port ret_addr receive_size receive_descriptor =
     int_syscall os NR_lite_reply_and_receive_message
       [A64 addr, A32 (sz * IMM_MAX_PORT + port), A64 descriptor, A64 ret_addr,
        A32 receive_size, A64 receive_descriptor]"

text \<open>
  \<open>userspace_liteapi_join\<close> copies the address into a local array of 32 bytes with
  \<open>strcpy\<close>; \<open>None\<close> when the copy (contents and NUL) does not fit.
\<close>

definition lite_join :: "'w lite_os \<Rightarrow> byte list \<Rightarrow> c_int \<Rightarrow> c_int \<Rightarrow> 'w \<Rightarrow> (c_int \<times> 'w) option" where
  "lite_join os input_str eth_port ib_port w =
     (if length input_str + 1 \<le> 32
      then Some (int_syscall os NR_lite_join [AStr input_str, A32 eth_port, A32 ib_port] w)
      else None)"

section \<open>Messages\<close>

definition lite_receive_message_prio ::
  "c_int \<Rightarrow> 'w lite_os \<Rightarrow> c_int \<Rightarrow> c_ptr \<Rightarrow> c_int \<Rightarrow> c_ptr \<Rightarrow> c_int \<Rightarrow> 'w \<Rightarrow> c_int \<times> 'w" where
  "lite_receive_message_prio prio os port ret_addr receive_size descriptor block_call =
     int_syscall os NR_lite_receive_message
       [A32 (pack_port receive_size port), A64 ret_addr, A64 descriptor, A32 0, A32 block_call, A32 prio]"

definition lite_receive_message ::
  "'w lite_os \<Rightarrow> c_int \<Rightarrow> c_ptr \<Rightarrow> c_int \<Rightarrow> c_ptr \<Rightarrow> c_int \<Rightarrow> 'w \<Rightarrow> c_int \<times> 'w" where
  "lite_receive_message = lite_receive_message_prio NULL_PRIORITY"

definition lite_receive_message_high ::
  "'w lite_os \<Rightarrow> c_int \<Rightarrow> c_ptr \<Rightarrow> c_int \<Rightarrow> c_ptr \<Rightarrow> c_int \<Rightarrow> 'w \<Rightarrow> c_int \<times> 'w" where
  "lite_receive_message_high = lite_receive_message_prio USERSPACE_HIGH_PRIORITY"

definition lite_receive_message_low ::
  "'w lite_os \<Rightarrow> c_int \<Rightarrow> c_ptr \<Rightarrow> c_int \<Rightarrow> c_ptr \<Rightarrow> c_int \<Rightarrow> 'w \<Rightarrow> c_int \<times> 'w" where
  "lite_receive_message_low = lite_receive_message_prio USERSPACE_LOW_PRIORITY"

text \<open>\<open>while (*(descriptor) == 0 && ++i < CHECK_LENGTH);\<close>, from the counter value \<open>i\<close>.\<close>

function spin_descriptor :: "'w lite_os \<Rightarrow> c_ptr \<Rightarrow> nat \<Rightarrow> 'w \<Rightarrow> 'w" where
  "spin_descriptor os d i w =
     (if fst (os_load64 os d w) = 0 \<and> i + 1 < CHECK_LENGTH
      then spin_descriptor os d (i + 1) (snd (os_load64 os d w))
      else snd (os_load64 os d w))"
  by pat_completeness auto
termination
  by (relation "measure (\<lambda>(os, d, i, w). CHECK_LENGTH - i)") auto

declare spin_descriptor.simps [simp del]

text \<open>\<open>while (*(descriptor) == 0) usleep(1);\<close>\<close>

partial_function (option) sleep_descriptor :: "'w lite_os \<Rightarrow> c_ptr \<Rightarrow> 'w \<Rightarrow> 'w option" where
  "sleep_descriptor os d w =
     (if fst (os_load64 os d w) = 0
      then sleep_descriptor os d (os_usleep os (snd (os_load64 os d w)))
      else Some (snd (os_load64 os d w)))"

text \<open>What follows the two loops: the send-only mark is cleared, the length is returned.\<close>

definition finish_receive :: "'w lite_os \<Rightarrow> c_int \<Rightarrow> c_ptr \<Rightarrow> c_ptr \<Rightarrow> 'w \<Rightarrow> c_int \<times> 'w" where
  "finish_receive os ret descriptor ret_length w =
     (case os_load64 os descriptor w of (v, w1) \<Rightarrow>
        let w2 = (if v = IMM_SEND_ONLY_FLAG then os_store64 os descriptor 0 w1 else w1)
        in if sint ret < 0 then os_load32 os ret_length w2 else (ret, w2))"

definition lite_receive_message_fast ::
  "'w lite_os \<Rightarrow> c_int \<Rightarrow> c_ptr \<Rightarrow> c_int \<Rightarrow> c_ptr \<Rightarrow> c_ptr \<Rightarrow> c_int \<Rightarrow> 'w \<Rightarrow> (c_int \<times> 'w) option" where
  "lite_receive_message_fast os port ret_addr receive_size descriptor ret_length block_call w =
     (let w0 = os_store64 os descriptor 0 w
      in case int_syscall os NR_lite_receive_message
           [A32 (pack_port receive_size port), A64 ret_addr, A64 descriptor, A64 ret_length,
            A32 block_call, A32 NULL_PRIORITY] w0 of (ret, w1) \<Rightarrow>
         (case sleep_descriptor os descriptor (spin_descriptor os descriptor 0 w1) of
            None \<Rightarrow> None
          | Some w2 \<Rightarrow> Some (finish_receive os ret descriptor ret_length w2)))"

text \<open>
  \<open>receive_message_fast_record\<close> drops the result of the receive and returns its own variable
  \<open>ret\<close>, which it never assigns: \<open>junk\<close> is what the variable holds. The function returns a
  \<open>double\<close>, here the integer that is converted (exactly, for 32 bits).
\<close>

definition lite_receive_message_fast_record ::
  "'w lite_os \<Rightarrow> c_int \<Rightarrow> c_ptr \<Rightarrow> c_int \<Rightarrow> c_ptr \<Rightarrow> c_ptr \<Rightarrow> c_int \<Rightarrow> c_int \<Rightarrow> 'w \<Rightarrow> (int \<times> 'w) option" where
  "lite_receive_message_fast_record os port ret_addr receive_size descriptor ret_length block_call junk w =
     (case lite_receive_message_fast os port ret_addr receive_size descriptor ret_length block_call w of
        None \<Rightarrow> None
      | Some (_, w1) \<Rightarrow> Some (sint junk, w1))"

definition lite_send :: "'w lite_os \<Rightarrow> c_int \<Rightarrow> c_int \<Rightarrow> c_ptr \<Rightarrow> c_int \<Rightarrow> 'w \<Rightarrow> c_int \<times> 'w" where
  "lite_send os target_node port addr sz w =
     (if too_big sz then (-1, w)
      else int_syscall os NR_lite_send_reply_imm
        [A32 target_node, A32 (pack_port sz port), A64 addr, A32 0, A32 0, A32 0] w)"

text \<open>\<open>send_reply_imm\<close>, \<open>_high\<close> and \<open>_low\<close> differ in the last argument of the call.\<close>

definition send_reply_call ::
  "(c_int \<Rightarrow> c_int) \<Rightarrow> 'w lite_os \<Rightarrow> c_int \<Rightarrow> c_int \<Rightarrow> c_ptr \<Rightarrow> c_int \<Rightarrow> c_ptr \<Rightarrow> c_int \<Rightarrow> 'w \<Rightarrow> c_int \<times> 'w" where
  "send_reply_call last_arg os target_node port addr sz ret_addr max_ret_size w =
     (if too_big sz \<or> too_big max_ret_size then (-1, w)
      else int_syscall os NR_lite_send_reply_imm
        [A32 target_node, A32 (pack_port sz port), A64 addr, A64 ret_addr, A32 0,
         A32 (last_arg max_ret_size)] w)"

definition lite_send_reply_imm ::
  "'w lite_os \<Rightarrow> c_int \<Rightarrow> c_int \<Rightarrow> c_ptr \<Rightarrow> c_int \<Rightarrow> c_ptr \<Rightarrow> c_int \<Rightarrow> 'w \<Rightarrow> c_int \<times> 'w" where
  "lite_send_reply_imm = send_reply_call (\<lambda>max_ret_size. max_ret_size)"

definition lite_send_reply_imm_high ::
  "'w lite_os \<Rightarrow> c_int \<Rightarrow> c_int \<Rightarrow> c_ptr \<Rightarrow> c_int \<Rightarrow> c_ptr \<Rightarrow> c_int \<Rightarrow> 'w \<Rightarrow> c_int \<times> 'w" where
  "lite_send_reply_imm_high =
     send_reply_call (\<lambda>max_ret_size. pack_priority max_ret_size USERSPACE_HIGH_PRIORITY)"

definition lite_send_reply_imm_low ::
  "'w lite_os \<Rightarrow> c_int \<Rightarrow> c_int \<Rightarrow> c_ptr \<Rightarrow> c_int \<Rightarrow> c_ptr \<Rightarrow> c_int \<Rightarrow> 'w \<Rightarrow> c_int \<times> 'w" where
  "lite_send_reply_imm_low =
     send_reply_call (\<lambda>max_ret_size. pack_priority max_ret_size USERSPACE_LOW_PRIORITY)"

text \<open>\<open>while (*ret_length == SEND_REPLY_WAIT);\<close>\<close>

partial_function (option) wait_reply :: "'w lite_os \<Rightarrow> c_ptr \<Rightarrow> 'w \<Rightarrow> 'w option" where
  "wait_reply os p w =
     (if fst (os_load32 os p w) = SEND_REPLY_WAIT
      then wait_reply os p (snd (os_load32 os p w))
      else Some (snd (os_load32 os p w)))"

text \<open>
  The fast version waits for the reply; \<open>*ret_length\<close> is read again for the test, when it is
  negative for the error message, and for the result.
\<close>

definition finish_send :: "'w lite_os \<Rightarrow> c_ptr \<Rightarrow> 'w \<Rightarrow> c_int \<times> 'w" where
  "finish_send os ret_length w =
     (case os_load32 os ret_length w of (v, w1) \<Rightarrow>
        os_load32 os ret_length (if sint v < 0 then snd (os_load32 os ret_length w1) else w1))"

definition lite_send_reply_imm_fast ::
  "'w lite_os \<Rightarrow> c_int \<Rightarrow> c_int \<Rightarrow> c_ptr \<Rightarrow> c_int \<Rightarrow> c_ptr \<Rightarrow> c_ptr \<Rightarrow> c_int \<Rightarrow> 'w \<Rightarrow> (c_int \<times> 'w) option" where
  "lite_send_reply_imm_fast os target_node port addr sz ret_addr ret_length max_ret_size w =
     (if too_big sz \<or> too_big max_ret_size then Some (-1, w)
      else case int_syscall os NR_lite_send_reply_imm
          [A32 target_node, A32 (pack_port sz port), A64 addr, A64 ret_addr, A64 ret_length,
           A32 (pack_priority max_ret_size NULL_PRIORITY)] w of (ret, w1) \<Rightarrow>
        (case wait_reply os ret_length w1 of
           None \<Rightarrow> None
         | Some w2 \<Rightarrow> Some (finish_send os ret_length w2)))"

definition reply_message_call ::
  "c_int \<Rightarrow> 'w lite_os \<Rightarrow> c_ptr \<Rightarrow> c_int \<Rightarrow> c_long \<Rightarrow> 'w \<Rightarrow> c_int \<times> 'w" where
  "reply_message_call prio os addr sz descriptor w =
     (if too_big sz then (-1, w)
      else int_syscall os NR_lite_reply_message [A64 addr, A32 sz, A64 descriptor, A32 prio] w)"

definition lite_reply_message :: "'w lite_os \<Rightarrow> c_ptr \<Rightarrow> c_int \<Rightarrow> c_long \<Rightarrow> 'w \<Rightarrow> c_int \<times> 'w" where
  "lite_reply_message = reply_message_call NULL_PRIORITY"

definition lite_reply_message_high :: "'w lite_os \<Rightarrow> c_ptr \<Rightarrow> c_int \<Rightarrow> c_long \<Rightarrow> 'w \<Rightarrow> c_int \<times> 'w" where
  "lite_reply_message_high = reply_message_call USERSPACE_HIGH_PRIORITY"

definition lite_reply_message_low :: "'w lite_os \<Rightarrow> c_ptr \<Rightarrow> c_int \<Rightarrow> c_long \<Rightarrow> 'w \<Rightarrow> c_int \<times> 'w" where
  "lite_reply_message_low = reply_message_call USERSPACE_LOW_PRIORITY"

section \<open>Memory\<close>

definition roundup_page :: "c_long \<Rightarrow> c_long" where
  "roundup_page sz = push_bit PAGE_SHIFT (drop_bit PAGE_SHIFT (push_bit PAGE_SHIFT 1 + sz - 1))"

definition MAP_FAILED :: c_ptr where "MAP_FAILED = -1"

definition lite_alloc_memory :: "'w lite_os \<Rightarrow> c_long \<Rightarrow> 'w \<Rightarrow> c_ptr \<times> 'w" where
  "lite_alloc_memory os sz w =
     (case os_open_lite_mmap os w of (fd, w1) \<Rightarrow>
        (case os_mmap_private os (roundup_page sz) fd w1 of (addr, w2) \<Rightarrow>
           (if addr = MAP_FAILED then 0 else addr, w2)))"

end
