(* ===== verification/Shm.thy ===== *)
theory Shm
  imports Lite_Lib
begin

text \<open>
  The shared memory of router and client, \<open>router/lib/shm.cpp\<close>. The POSIX calls are
  parameters (\<open>shm_api\<close>) on a world \<open>'w\<close>; the flag of \<open>sh_open\<close> is
  \<open>O_CREAT | O_EXCL\<close>. \<open>alloc_shm_mem\<close> returns its error code and what it stored through
  \<open>addr\<close>, \<open>None\<close> when it did not get that far.
\<close>

record 'w shm_api =
  sh_open :: "byte list \<Rightarrow> bool \<Rightarrow> 'w \<Rightarrow> int \<times> 'w"
  sh_ftruncate :: "int \<Rightarrow> c_long \<Rightarrow> 'w \<Rightarrow> int \<times> 'w"
  sh_mmap :: "c_long \<Rightarrow> int \<Rightarrow> 'w \<Rightarrow> c_ptr \<times> 'w"
  sh_munmap :: "c_ptr \<Rightarrow> c_long \<Rightarrow> 'w \<Rightarrow> int \<times> 'w"
  sh_unlink :: "byte list \<Rightarrow> 'w \<Rightarrow> int \<times> 'w"

text \<open>Create the object, or open it when it exists already.\<close>

definition open_or_create :: "'w shm_api \<Rightarrow> byte list \<Rightarrow> 'w \<Rightarrow> int \<times> 'w" where
  "open_or_create api nm w =
     (case sh_open api nm True w of (fd, w1) \<Rightarrow>
        if fd < 0 then sh_open api nm False w1 else (fd, w1))"

definition alloc_shm_mem ::
  "'w shm_api \<Rightarrow> byte list \<Rightarrow> c_long \<Rightarrow> 'w \<Rightarrow> c_int \<times> c_ptr option \<times> 'w" where
  "alloc_shm_mem api nm sz w =
     (case open_or_create api nm w of (fd, w1) \<Rightarrow>
        if fd < 0 then (-1, None, w1)
        else case sh_ftruncate api fd sz w1 of (r, w2) \<Rightarrow>
          if r < 0 then (-1, None, w2)
          else case sh_mmap api sz fd w2 of (addr, w3) \<Rightarrow>
            if addr = MAP_FAILED then (-1, Some addr, w3) else (0, Some addr, w3))"

definition free_shm_mem ::
  "'w shm_api \<Rightarrow> byte list \<Rightarrow> c_long \<Rightarrow> c_ptr \<Rightarrow> 'w \<Rightarrow> c_int \<times> 'w" where
  "free_shm_mem api nm sz addr w =
     (case sh_munmap api addr sz w of (r, w1) \<Rightarrow>
        if r < 0 then (-1, w1)
        else case sh_unlink api nm w1 of (r2, w2) \<Rightarrow>
          if r2 < 0 then (-1, w2) else (0, w2))"

lemma alloc_shm_mem_result:
  assumes "alloc_shm_mem api nm sz w = (r, a, w')"
  shows "r = 0 \<and> (\<exists>p. a = Some p \<and> p \<noteq> MAP_FAILED) \<or> r = -1 \<and> (a = None \<or> a = Some MAP_FAILED)"
  using assms by (auto simp: alloc_shm_mem_def split: prod.splits if_splits)

text \<open>
  The router's side of shared memory. \<open>alloc_shm_mem\<close> returns 0 exactly when all three
  calls succeeded, and then the stored address is that of the mapping; otherwise it returns
  -1. \<open>free_shm_mem\<close> unlinks the name only after a successful \<open>munmap\<close>.
\<close>

lemma shm_results:
  assumes "open_or_create api nm w = (fd, w1)" and "sh_ftruncate api fd sz w1 = (t, w2)"
    and "sh_mmap api sz fd w2 = (p, w3)" and "sh_munmap api q sz w = (u, w4)"
  shows "(fst (alloc_shm_mem api nm sz w) = 0 \<longleftrightarrow> 0 \<le> fd \<and> 0 \<le> t \<and> p \<noteq> MAP_FAILED) \<and>
    (fst (alloc_shm_mem api nm sz w) = 0 \<longrightarrow> alloc_shm_mem api nm sz w = (0, Some p, w3)) \<and>
    (fst (alloc_shm_mem api nm sz w) \<noteq> 0 \<longrightarrow> fst (alloc_shm_mem api nm sz w) = -1) \<and>
    (u < 0 \<longrightarrow> free_shm_mem api nm sz q w = (-1, w4)) \<and>
    (0 \<le> u \<longrightarrow> free_shm_mem api nm sz q w = (if fst (sh_unlink api nm w4) < 0 then -1 else 0, snd (sh_unlink api nm w4)))"
  using assms by (auto simp: alloc_shm_mem_def free_shm_mem_def split: prod.split)

end
