(* ===== verification/Client.thy ===== *)
theory Client
  imports Wire Routing Shm
begin

text \<open>
  The client library: the connection to the router of \<open>client/lib/rpc.c\<close> and the remote
  procedure stubs of \<open>client/lib/lite-lib.c\<close>. A stub fills in a \<open>struct rpc_req_msg\<close> on its
  stack, hands it to \<open>rpc_handler\<close> and returns fields of the response. What the two
  objects held on the stack before is an argument (\<open>stk\<close>): an initialiser writes the
  members it names (and the rest of the same structure with zeros), every other byte keeps
  its value. The result \<open>None\<close> of a stub is a \<open>strncpy\<close> that leaves the request object.
\<close>

section \<open>Environment and state\<close>

record 'w client_env =
  ce_sock :: "'w socket_api"
  ce_shm :: "'w shm_api"
  ce_cpuset :: "'w \<Rightarrow> string option \<times> 'w"
  ce_pid :: nat
  ce_no_container :: bool

record client_state =
  client_sock :: int
  client_cid :: string

definition client_init :: client_state where
  "client_init = \<lparr>client_sock = -1, client_cid = replicate 7 (CHR 0x00)\<rparr>"

definition SERVER_PATH :: string where "SERVER_PATH = ''/var/tmp/tpf_unix_sock.server''"
definition CLIENT_PATH :: string where "CLIENT_PATH = ''/var/tmp/''"

section \<open>The socket path of a client\<close>

text \<open>\<open>%05d\<close> of a process id.\<close>

definition digit :: "nat \<Rightarrow> char" where
  "digit d = char_of (48 + d mod 10)"

fun dec_digits :: "nat \<Rightarrow> string" where
  "dec_digits n = (if n < 10 then [digit n] else dec_digits (n div 10) @ [digit (n mod 10)])"

declare dec_digits.simps [simp del]

definition fmt_05d :: "nat \<Rightarrow> string" where
  "fmt_05d n = replicate (5 - length (dec_digits n)) (CHR ''0'') @ dec_digits n"

text \<open>\<open>%s\<close> of a character array: up to its NUL.\<close>

definition cstr_chars :: "string \<Rightarrow> string" where
  "cstr_chars s = takeWhile (\<lambda>c. c \<noteq> CHR 0x00) s"

definition client_path :: "bool \<Rightarrow> string \<Rightarrow> nat \<Rightarrow> string" where
  "client_path no_container cid pid =
     (if no_container then CLIENT_PATH @ fmt_05d pid
      else CLIENT_PATH @ cstr_chars cid @ fmt_05d pid)"

text \<open>
  The two \<open>getc\<close> loops on \<open>/proc/1/cpuset\<close>: eight characters are skipped, six are stored
  in \<open>cid\<close>, which is zeroed before; the flag is false when the file ends too early.
\<close>

definition read_cid :: "string \<Rightarrow> bool \<times> string" where
  "read_cid contents =
     (let got = take 6 (drop 8 contents)
      in (14 \<le> length contents, got @ replicate (7 - length got) (CHR 0x00)))"

section \<open>Connecting\<close>

type_synonym 'w client_shared = "client_state \<times> 'w"

definition rpc_disconn :: "'w client_env \<Rightarrow> 'w client_shared \<Rightarrow> 'w client_shared" where
  "rpc_disconn env s =
     ((fst s)\<lparr>client_sock := -1\<rparr>, so_close (ce_sock env) (client_sock (fst s)) (snd s))"

text \<open>The part of \<open>rpc_conn\<close> that finds the container id; the file is left open on its errors.\<close>

definition conn_cid :: "'w client_env \<Rightarrow> 'w client_shared \<Rightarrow> bool \<times> 'w client_shared" where
  "conn_cid env s =
     (if ce_no_container env then (True, s)
      else case ce_cpuset env (snd s) of (file, w) \<Rightarrow>
        (case file of
           None \<Rightarrow> (False, ((fst s)\<lparr>client_cid := replicate 7 (CHR 0x00)\<rparr>, w))
         | Some contents \<Rightarrow>
             (case read_cid contents of (ok, cid) \<Rightarrow> (ok, ((fst s)\<lparr>client_cid := cid\<rparr>, w)))))"

definition rpc_conn :: "'w client_env \<Rightarrow> string \<Rightarrow> 'w client_shared \<Rightarrow> int \<times> 'w client_shared" where
  "rpc_conn env nm s =
     (case so_socket (ce_sock env) (snd s) of (fd, w1) \<Rightarrow>
        let s1 = ((fst s)\<lparr>client_sock := fd\<rparr>, w1)
        in if fd < 0 then (-1, s1)
           else case conn_cid env s1 of (ok, s2) \<Rightarrow>
             if \<not> ok then (-1, s2)
             else
               (let path = client_path (ce_no_container env) (client_cid (fst s2)) (ce_pid env);
                    w2 = so_unlink (ce_sock env) path (snd s2)
                in case so_bind (ce_sock env) fd path w2 of (b, w3) \<Rightarrow>
                  if b < 0 then (-1, rpc_disconn env (fst s2, w3))
                  else case so_connect (ce_sock env) fd nm w3 of (c, w4) \<Rightarrow>
                    if c < 0 then (-1, rpc_disconn env (fst s2, w4))
                    else (fd, (fst s2, w4))))"

text \<open>Send the request, receive the response; with no socket yet, connect first.\<close>

definition rpc_exchange ::
  "'w client_env \<Rightarrow> byte list \<Rightarrow> byte list \<Rightarrow> 'w client_shared \<Rightarrow> int \<times> byte list \<times> 'w client_shared" where
  "rpc_exchange env req rsp s =
     (case so_send (ce_sock env) (client_sock (fst s)) req (snd s) of (sent, w1) \<Rightarrow>
        if sent < 0 then (-1, rsp, rpc_disconn env (fst s, w1))
        else case so_recv (ce_sock env) (client_sock (fst s)) sizeof_rpc_rsp_msg w1 of (got, w2) \<Rightarrow>
          (case got of
             Recv_Error \<Rightarrow> (-1, rsp, rpc_disconn env (fst s, w2))
           | Recv_Data data \<Rightarrow> (0, recv_into data rsp, (fst s, w2))))"

definition rpc_handler ::
  "'w client_env \<Rightarrow> byte list \<Rightarrow> byte list \<Rightarrow> 'w client_shared \<Rightarrow> int \<times> byte list \<times> 'w client_shared" where
  "rpc_handler env req rsp s =
     (if client_sock (fst s) = -1
      then case rpc_conn env SERVER_PATH s of (r, s1) \<Rightarrow>
        if r < 0 then (-1, rsp, s1) else rpc_exchange env req rsp s1
      else rpc_exchange env req rsp s)"

text \<open>\<open>rpc_handler\<close> up to the request that has been sent, and from there.\<close>

definition rpc_send :: "'w client_env \<Rightarrow> byte list \<Rightarrow> 'w client_shared \<Rightarrow> int \<times> 'w client_shared" where
  "rpc_send env req s =
     (case so_send (ce_sock env) (client_sock (fst s)) req (snd s) of (sent, w1) \<Rightarrow>
        if sent < 0 then (-1, rpc_disconn env (fst s, w1)) else (0, (fst s, w1)))"

definition rpc_request :: "'w client_env \<Rightarrow> byte list \<Rightarrow> 'w client_shared \<Rightarrow> int \<times> 'w client_shared" where
  "rpc_request env req s =
     (if client_sock (fst s) = -1
      then case rpc_conn env SERVER_PATH s of (r, s1) \<Rightarrow> if r < 0 then (-1, s1) else rpc_send env req s1
      else rpc_send env req s)"

definition rpc_response :: "'w client_env \<Rightarrow> byte list \<Rightarrow> 'w client_shared \<Rightarrow> int \<times> byte list \<times> 'w client_shared" where
  "rpc_response env rsp s =
     (case so_recv (ce_sock env) (client_sock (fst s)) sizeof_rpc_rsp_msg (snd s) of (got, w2) \<Rightarrow>
        (case got of
           Recv_Error \<Rightarrow> (-1, rsp, rpc_disconn env (fst s, w2))
         | Recv_Data data \<Rightarrow> (0, recv_into data rsp, (fst s, w2))))"

lemma rpc_exchange_halves:
  "rpc_exchange env req rsp s =
     (case rpc_send env req s of (r, s1) \<Rightarrow> if r < 0 then (-1, rsp, s1) else rpc_response env rsp s1)"
proof -
  obtain sent w1 where "so_send (ce_sock env) (client_sock (fst s)) req (snd s) = (sent, w1)"
    by (rule prod.exhaust)
  then show ?thesis
    by (cases "sent < 0") (simp_all add: rpc_exchange_def rpc_send_def rpc_response_def split: prod.split recv_result.split)
qed

lemma rpc_handler_halves:
  "rpc_handler env req rsp s =
     (case rpc_request env req s of (r, s1) \<Rightarrow> if r < 0 then (-1, rsp, s1) else rpc_response env rsp s1)"
  by (cases "rpc_conn env SERVER_PATH s")
    (simp add: rpc_handler_def rpc_exchange_halves rpc_request_def)

section \<open>Stubs\<close>

record stack =
  stk_req :: "byte list"
  stk_rsp :: "byte list"

definition stack_ok :: "stack \<Rightarrow> bool" where
  "stack_ok stk = (length (stk_req stk) = 280 \<and> length (stk_rsp stk) = 24)"

text \<open>\<open>rpc_handler(&req_msg, &rsp_msg); return rsp_msg.rval.int_rsp;\<close>\<close>

definition call_int ::
  "'w client_env \<Rightarrow> byte list \<Rightarrow> byte list \<Rightarrow> 'w client_shared \<Rightarrow> c_int \<times> 'w client_shared" where
  "call_int env req rsp s = (case rpc_handler env req rsp s of (_, rsp', s') \<Rightarrow> (get_int_rsp rsp', s'))"

text \<open>Only \<open>func_code\<close> is named, so the first member of the union is zeroed.\<close>

definition req_get_node_id :: "byte list \<Rightarrow> byte list" where
  "req_get_node_id stk =
     put_join_req \<lparr>jo_input_str = replicate 16 0, jo_eth_port = 0, jo_ib_port = 0\<rparr>
       (put_func_code FUNC_userspace_liteapi_get_node_id stk)"

definition c_get_node_id :: "'w client_env \<Rightarrow> stack \<Rightarrow> 'w client_shared \<Rightarrow> c_int \<times> 'w client_shared" where
  "c_get_node_id env stk = call_int env (req_get_node_id (stk_req stk)) (stk_rsp stk)"

definition req_join :: "byte list \<Rightarrow> c_int \<Rightarrow> c_int \<Rightarrow> byte list \<Rightarrow> byte list option" where
  "req_join input_str eth_port ib_port stk =
     strncpy_into 8 input_str (length input_str)
       (put_join_req \<lparr>jo_input_str = replicate 16 0, jo_eth_port = eth_port, jo_ib_port = ib_port\<rparr>
         (put_func_code FUNC_userspace_liteapi_join stk))"

definition c_join ::
  "'w client_env \<Rightarrow> byte list \<Rightarrow> c_int \<Rightarrow> c_int \<Rightarrow> stack \<Rightarrow> 'w client_shared \<Rightarrow> (c_int \<times> 'w client_shared) option" where
  "c_join env input_str eth_port ib_port stk s =
     map_option (\<lambda>req. call_int env req (stk_rsp stk) s) (req_join input_str eth_port ib_port (stk_req stk))"

definition c_alloc_remote_mem ::
  "'w client_env \<Rightarrow> c_int \<Rightarrow> c_int \<Rightarrow> bool \<Rightarrow> c_int \<Rightarrow> stack \<Rightarrow> 'w client_shared \<Rightarrow> c_int \<times> 'w client_shared" where
  "c_alloc_remote_mem env node_id sz atomic_flag password stk =
     call_int env
       (put_alloc_remote_mem_req
          \<lparr>ar_node_id = node_id, ar_size = sz, ar_atomic_flag = atomic_flag, ar_password = password\<rparr>
          (put_func_code FUNC_userspace_liteapi_alloc_remote_mem (stk_req stk)))
       (stk_rsp stk)"

definition c_rdma_write ::
  "'w client_env \<Rightarrow> c_int \<Rightarrow> c_ptr \<Rightarrow> c_int \<Rightarrow> c_int \<Rightarrow> c_int \<Rightarrow> stack \<Rightarrow> 'w client_shared \<Rightarrow> c_int \<times> 'w client_shared" where
  "c_rdma_write env lite_handler local_addr sz offset password stk =
     call_int env
       (put_rdma_write_req
          \<lparr>rw_lite_handler = lite_handler, rw_local_addr = local_addr, rw_size = sz,
           rw_offset = offset, rw_password = password\<rparr>
          (put_func_code FUNC_userspace_liteapi_rdma_write (stk_req stk)))
       (stk_rsp stk)"

definition c_rdma_read ::
  "'w client_env \<Rightarrow> c_int \<Rightarrow> c_ptr \<Rightarrow> c_int \<Rightarrow> c_int \<Rightarrow> c_int \<Rightarrow> stack \<Rightarrow> 'w client_shared \<Rightarrow> c_int \<times> 'w client_shared" where
  "c_rdma_read env lite_handler local_addr sz offset password stk =
     call_int env
       (put_rdma_write_req
          \<lparr>rw_lite_handler = lite_handler, rw_local_addr = local_addr, rw_size = sz,
           rw_offset = offset, rw_password = password\<rparr>
          (put_func_code FUNC_userspace_liteapi_rdma_read (stk_req stk)))
       (stk_rsp stk)"

definition c_send_reply_imm_fast ::
  "'w client_env \<Rightarrow> c_int \<Rightarrow> c_int \<Rightarrow> c_ptr \<Rightarrow> c_int \<Rightarrow> c_ptr \<Rightarrow> c_ptr \<Rightarrow> c_int \<Rightarrow> stack \<Rightarrow> 'w client_shared \<Rightarrow> c_int \<times> 'w client_shared" where
  "c_send_reply_imm_fast env target_node port addr sz ret_addr ret_length max_ret_size stk =
     call_int env
       (put_send_reply_imm_fast_req
          \<lparr>sr_target_node = target_node, sr_port = port, sr_addr = addr, sr_size = sz,
           sr_ret_addr = ret_addr, sr_ret_length = ret_length, sr_max_ret_size = max_ret_size\<rparr>
          (put_func_code FUNC_userspace_liteapi_send_reply_imm_fast (stk_req stk)))
       (stk_rsp stk)"

text \<open>The results: return value, \<open>*descriptor\<close>, \<open>*ret_length\<close>.\<close>

definition c_receive_message_fast ::
  "'w client_env \<Rightarrow> c_int \<Rightarrow> c_ptr \<Rightarrow> c_int \<Rightarrow> c_int \<Rightarrow> stack \<Rightarrow> 'w client_shared \<Rightarrow>
   c_int \<times> c_long \<times> c_int \<times> 'w client_shared" where
  "c_receive_message_fast env port ret_addr receive_size block_call stk s =
     (case rpc_handler env
        (put_receive_message_fast_req
           \<lparr>rm_port = port, rm_ret_addr = ret_addr, rm_receive_size = receive_size,
            rm_block_call = block_call\<rparr>
           (put_func_code FUNC_userspace_liteapi_receive_message_fast (stk_req stk)))
        (stk_rsp stk) s of
      (_, rsp, s') \<Rightarrow> (get_int_rsp rsp, get_descriptor rsp, get_ret_length rsp, s'))"

definition c_reply_message ::
  "'w client_env \<Rightarrow> c_ptr \<Rightarrow> c_int \<Rightarrow> c_long \<Rightarrow> stack \<Rightarrow> 'w client_shared \<Rightarrow> c_int \<times> 'w client_shared" where
  "c_reply_message env addr sz descriptor stk =
     call_int env
       (put_reply_message_req \<lparr>rp_addr = addr, rp_size = sz, rp_descriptor = descriptor\<rparr>
          (put_func_code FUNC_userspace_liteapi_reply_message (stk_req stk)))
       (stk_rsp stk)"

definition req_register_application ::
  "c_int \<Rightarrow> c_int \<Rightarrow> c_int \<Rightarrow> byte list \<Rightarrow> c_long \<Rightarrow> byte list \<Rightarrow> byte list option" where
  "req_register_application destined_port max_size_per_message max_user_per_node nm name_len stk =
     strncpy_into 20 nm (unat name_len)
       (put_register_application_req
          \<lparr>ra_destined_port = destined_port, ra_max_size_per_message = max_size_per_message,
           ra_max_user_per_node = max_user_per_node, ra_name = replicate 32 0, ra_name_len = name_len\<rparr>
          (put_func_code FUNC_userspace_liteapi_register_application stk))"

definition c_register_application ::
  "'w client_env \<Rightarrow> c_int \<Rightarrow> c_int \<Rightarrow> c_int \<Rightarrow> byte list \<Rightarrow> c_long \<Rightarrow> stack \<Rightarrow> 'w client_shared \<Rightarrow>
   (c_int \<times> 'w client_shared) option" where
  "c_register_application env destined_port max_size_per_message max_user_per_node nm name_len stk s =
     map_option (\<lambda>req. call_int env req (stk_rsp stk) s)
       (req_register_application destined_port max_size_per_message max_user_per_node nm name_len
          (stk_req stk))"

definition c_dist_barrier ::
  "'w client_env \<Rightarrow> c_int \<Rightarrow> stack \<Rightarrow> 'w client_shared \<Rightarrow> c_int \<times> 'w client_shared" where
  "c_dist_barrier env num stk =
     call_int env
       (put_dist_barrier_req \<lparr>db_num = num\<rparr>
          (put_func_code FUNC_userspace_liteapi_dist_barrier (stk_req stk)))
       (stk_rsp stk)"

definition c_query_port ::
  "'w client_env \<Rightarrow> c_int \<Rightarrow> c_int \<Rightarrow> stack \<Rightarrow> 'w client_shared \<Rightarrow> c_int \<times> 'w client_shared" where
  "c_query_port env target_node designed_port stk =
     call_int env
       (put_query_port_req \<lparr>qp_target_node = target_node, qp_designed_port = designed_port\<rparr>
          (put_func_code FUNC_userspace_liteapi_query_port (stk_req stk)))
       (stk_rsp stk)"

section \<open>Shared memory stubs\<close>

definition req_alloc_local_mem :: "byte list \<Rightarrow> c_long \<Rightarrow> byte list \<Rightarrow> byte list option" where
  "req_alloc_local_mem nm sz stk =
     strncpy_into 8 nm (length nm)
       (put_alloc_local_mem_req \<lparr>al_name = replicate 256 0, al_size = sz\<rparr>
          (put_func_code FUNC_userspace_liteapi_alloc_local_mem stk))"

text \<open>What the two allocation stubs store through their output parameters, if they do.\<close>

record alloc_out =
  ao_ret :: c_int
  ao_local :: "c_ptr option"
  ao_remote :: "c_ptr option"

definition c_alloc_local_mem_test ::
  "'w client_env \<Rightarrow> byte list \<Rightarrow> c_long \<Rightarrow> stack \<Rightarrow> 'w client_shared \<Rightarrow> (alloc_out \<times> 'w client_shared) option" where
  "c_alloc_local_mem_test env nm sz stk s =
     map_option (\<lambda>req. case rpc_handler env req (stk_rsp stk) s of (_, rsp, s') \<Rightarrow>
         (\<lparr>ao_ret = get_int_rsp rsp, ao_local = Some 0x900, ao_remote = Some (get_remote_addr rsp)\<rparr>, s'))
       (req_alloc_local_mem nm sz (stk_req stk))"

text \<open>
  The test after \<open>mmap\<close> compares the parameter \<open>local_addr\<close>, the address of the caller's
  variable, with \<open>MAP_FAILED\<close>, not what \<open>mmap\<close> returned.
\<close>

definition alloc_local_mem_tail ::
  "'w client_env \<Rightarrow> byte list \<Rightarrow> c_long \<Rightarrow> c_ptr \<Rightarrow> byte list \<Rightarrow> 'w client_shared \<Rightarrow> alloc_out \<times> 'w client_shared" where
  "alloc_local_mem_tail env nm sz local_addr rsp s =
     (if sint (get_int_rsp rsp) < 0 then (\<lparr>ao_ret = -1, ao_local = None, ao_remote = None\<rparr>, s)
      else case sh_open (ce_shm env) nm False (snd s) of (fd, w1) \<Rightarrow>
        if fd < 0 then (\<lparr>ao_ret = -1, ao_local = None, ao_remote = None\<rparr>, (fst s, w1))
        else case sh_mmap (ce_shm env) sz fd w1 of (p, w2) \<Rightarrow>
          if local_addr = MAP_FAILED
          then (\<lparr>ao_ret = -1, ao_local = Some p, ao_remote = None\<rparr>, (fst s, w2))
          else (\<lparr>ao_ret = get_int_rsp rsp, ao_local = Some p, ao_remote = Some (get_remote_addr rsp)\<rparr>,
                (fst s, w2)))"

definition c_alloc_local_mem ::
  "'w client_env \<Rightarrow> byte list \<Rightarrow> c_long \<Rightarrow> c_ptr \<Rightarrow> stack \<Rightarrow> 'w client_shared \<Rightarrow> (alloc_out \<times> 'w client_shared) option" where
  "c_alloc_local_mem env nm sz local_addr stk s =
     map_option (\<lambda>req. case rpc_handler env req (stk_rsp stk) s of (_, rsp, s') \<Rightarrow>
         alloc_local_mem_tail env nm sz local_addr rsp s')
       (req_alloc_local_mem nm sz (stk_req stk))"

definition req_free_local_mem :: "byte list \<Rightarrow> c_long \<Rightarrow> c_ptr \<Rightarrow> byte list \<Rightarrow> byte list option" where
  "req_free_local_mem nm sz remote_addr stk =
     strncpy_into 8 nm (length nm)
       (put_free_local_mem_req \<lparr>fl_name = replicate 256 0, fl_size = sz, fl_remote_addr = remote_addr\<rparr>
          (put_func_code FUNC_userspace_liteapi_free_local_mem stk))"

definition c_free_local_mem ::
  "'w client_env \<Rightarrow> byte list \<Rightarrow> c_long \<Rightarrow> c_ptr \<Rightarrow> stack \<Rightarrow> 'w client_shared \<Rightarrow> (c_int \<times> 'w client_shared) option" where
  "c_free_local_mem env nm sz remote_addr stk s =
     map_option (\<lambda>req. call_int env req (stk_rsp stk) s)
       (req_free_local_mem nm sz remote_addr (stk_req stk))"

end
