(* ===== verification/Router.thy ===== *)
theory Router
  imports Wire Server_Loop Routing Lite_Lib Shm
begin

text \<open>
  The router's connection thread, \<open>server_accept_request\<close> of \<open>router/test_router.cpp\<close>:
  the container id taken from the peer's socket path, the switch over the function codes
  and one turn of its loop. The thread's \<open>req_msg\<close> and \<open>rsp_msg\<close> are byte objects that
  live through all turns of the loop. The wrappers of \<open>Lite_Lib\<close>, the operations of
  \<open>Routing\<close> and those of \<open>Shm\<close> run on one world \<open>'w\<close>; the state shared by the threads is
  the routing state and this world.
\<close>

section \<open>Environment and state\<close>

record 'w router_env =
  re_sock :: "'w socket_api"
  re_lite :: "'w lite_os"
  re_shm :: "'w shm_api"
  re_no_container :: bool
  re_nid :: c_int
  re_rsp_addr :: c_ptr

record router_locals =
  rl_req :: "byte list"
  rl_rsp :: "byte list"
  rl_cid :: string

type_synonym 'w router_shared = "routing_state \<times> 'w"

text \<open>\<open>std::string::substr\<close>: \<open>None\<close> is the exception \<open>std::out_of_range\<close>.\<close>

definition substr :: "nat \<Rightarrow> nat \<Rightarrow> string \<Rightarrow> string option" where
  "substr pos n s = (if length s < pos then None else Some (take n (drop pos s)))"

definition router_cid :: "string \<Rightarrow> string option" where
  "router_cid client_path = substr 8 6 client_path"

definition router_open :: "'w router_env \<Rightarrow> string \<Rightarrow> router_locals option" where
  "router_open env client_path =
     (let l = (\<lambda>cid. \<lparr>rl_req = replicate sizeof_rpc_req_msg 0,
                      rl_rsp = replicate sizeof_rpc_rsp_msg 0, rl_cid = cid\<rparr>)
      in if re_no_container env then Some (l []) else map_option l (router_cid client_path))"

text \<open>
  The thread before its loop, given what \<open>getpeername\<close> found. An exception is not caught
  and ends the whole router: \<open>None\<close>.
\<close>

definition router_thread ::
  "'w router_env \<Rightarrow> string option \<Rightarrow> 'w router_shared \<Rightarrow> (router_locals, 'w router_shared) conn option" where
  "router_thread env peer s =
     (case peer of
        None \<Rightarrow> Some (start_conn False \<lparr>rl_req = replicate sizeof_rpc_req_msg 0,
          rl_rsp = replicate sizeof_rpc_rsp_msg 0, rl_cid = []\<rparr> s)
      | Some client_path \<Rightarrow> map_option (\<lambda>l. start_conn True l s) (router_open env client_path))"

section \<open>The cases of the switch\<close>

text \<open>\<open>rsp_msg.rval.int_rsp = v; break;\<close>\<close>

definition answer ::
  "router_locals \<Rightarrow> c_int \<Rightarrow> 's \<Rightarrow> (router_locals, 's) switch_result" where
  "answer l v s = Respond (l\<lparr>rl_rsp := put_int_rsp v (rl_rsp l)\<rparr>) s"

text \<open>A call that only touches the world, and one whose node id is translated first.\<close>

definition world_call ::
  "router_locals \<Rightarrow> 'w router_shared \<Rightarrow> ('w \<Rightarrow> c_int \<times> 'w) \<Rightarrow>
   (router_locals, 'w router_shared) switch_result" where
  "world_call l s f = (case f (snd s) of (r, w) \<Rightarrow> answer l r (fst s, w))"

definition resolve_node ::
  "'w router_env \<Rightarrow> c_int \<Rightarrow> 'w router_shared \<Rightarrow> c_int \<times> 'w router_shared" where
  "resolve_node env v s =
     (if re_no_container env then (v, s)
      else vcm_vid_nid (re_sock env) v (fst s) (snd s))"

definition do_get_node_id ::
  "'w router_env \<Rightarrow> router_locals \<Rightarrow> 'w router_shared \<Rightarrow> (router_locals, 'w router_shared) switch_result" where
  "do_get_node_id env l s =
     answer l (if re_no_container env then re_nid env else vcm_get_node_id (rl_cid l) (fst s)) s"

definition do_join ::
  "'w router_env \<Rightarrow> router_locals \<Rightarrow> 'w router_shared \<Rightarrow> (router_locals, 'w router_shared) switch_result" where
  "do_join env l s =
     (if re_no_container env then answer l (re_nid env) s
      else case vcm_join (re_sock env) (re_nid env) (rl_cid l) (fst s) (snd s) of
        (v, st, w) \<Rightarrow> answer l v (st, w))"

definition do_alloc_remote_mem ::
  "'w router_env \<Rightarrow> router_locals \<Rightarrow> 'w router_shared \<Rightarrow> (router_locals, 'w router_shared) switch_result" where
  "do_alloc_remote_mem env l s =
     (let r = get_alloc_remote_mem_req (rl_req l)
      in case resolve_node env (ar_node_id r) s of (nid, s1) \<Rightarrow>
        world_call l s1 (lite_alloc_remote_mem (re_lite env) nid (ar_size r) (ar_atomic_flag r) (ar_password r)))"

definition do_rdma_write ::
  "'w router_env \<Rightarrow> router_locals \<Rightarrow> 'w router_shared \<Rightarrow> (router_locals, 'w router_shared) switch_result" where
  "do_rdma_write env l s =
     (let r = get_rdma_write_req (rl_req l)
      in world_call l s (lite_rdma_write (re_lite env) (rw_lite_handler r) (rw_local_addr r)
           (rw_size r) (rw_offset r) (rw_password r)))"

definition do_rdma_read ::
  "'w router_env \<Rightarrow> router_locals \<Rightarrow> 'w router_shared \<Rightarrow> (router_locals, 'w router_shared) switch_result" where
  "do_rdma_read env l s =
     (let r = get_rdma_write_req (rl_req l)
      in world_call l s (lite_rdma_read (re_lite env) (rw_lite_handler r) (rw_local_addr r)
           (rw_size r) (rw_offset r) (rw_password r)))"

text \<open>The input address handed on is \<open>ret_addr\<close>, as the code has it; \<open>addr\<close> is not used.\<close>

definition do_send_reply_imm_fast ::
  "'w router_env \<Rightarrow> router_locals \<Rightarrow> 'w router_shared \<Rightarrow> (router_locals, 'w router_shared) switch_result" where
  "do_send_reply_imm_fast env l s =
     (let r = get_send_reply_imm_fast_req (rl_req l)
      in case resolve_node env (sr_target_node r) s of (nid, s1) \<Rightarrow>
        (case lite_send_reply_imm_fast (re_lite env) nid (sr_port r) (sr_ret_addr r) (sr_size r)
                (sr_ret_addr r) (sr_ret_length r) (sr_max_ret_size r) (snd s1) of
           None \<Rightarrow> Never_Returns
         | Some (v, w) \<Rightarrow> answer l v (fst s1, w)))"

text \<open>
  \<open>descriptor\<close> and \<open>ret_length\<close> of the response are filled in through their addresses:
  the two fields are in memory at \<open>re_rsp_addr\<close> plus their offsets, before the call with
  the values they have, after it with what the call and the kernel left there.
\<close>

definition do_receive_message_fast ::
  "'w router_env \<Rightarrow> router_locals \<Rightarrow> 'w router_shared \<Rightarrow> (router_locals, 'w router_shared) switch_result" where
  "do_receive_message_fast env l s =
     (let r = get_receive_message_fast_req (rl_req l);
          os = re_lite env; dp = re_rsp_addr env + 8; lp = re_rsp_addr env + 16;
          w0 = os_store32 os lp (get_ret_length (rl_rsp l))
                 (os_store64 os dp (get_descriptor (rl_rsp l)) (snd s))
      in case lite_receive_message_fast os (rm_port r) (rm_ret_addr r) (rm_receive_size r)
                dp lp (rm_block_call r) w0 of
           None \<Rightarrow> Never_Returns
         | Some (v, w1) \<Rightarrow>
             (case os_load64 os dp w1 of (d, w2) \<Rightarrow>
                case os_load32 os lp w2 of (len, w3) \<Rightarrow>
                  answer (l\<lparr>rl_rsp := put_ret_length len (put_descriptor d (rl_rsp l))\<rparr>) v (fst s, w3)))"

definition do_reply_message ::
  "'w router_env \<Rightarrow> router_locals \<Rightarrow> 'w router_shared \<Rightarrow> (router_locals, 'w router_shared) switch_result" where
  "do_reply_message env l s =
     (let r = get_reply_message_req (rl_req l)
      in world_call l s (lite_reply_message (re_lite env) (rp_addr r) (rp_size r) (rp_descriptor r)))"

text \<open>The kernel gets a pointer to \<open>name\<close>: the bytes from there to the end of the request.\<close>

definition do_register_application ::
  "'w router_env \<Rightarrow> router_locals \<Rightarrow> 'w router_shared \<Rightarrow> (router_locals, 'w router_shared) switch_result" where
  "do_register_application env l s =
     (let r = get_register_application_req (rl_req l)
      in world_call l s (lite_register_application (re_lite env) (ra_destined_port r)
           (ra_max_size_per_message r) (ra_max_user_per_node r) (drop 20 (rl_req l)) (ra_name_len r)))"

definition do_dist_barrier ::
  "'w router_env \<Rightarrow> router_locals \<Rightarrow> 'w router_shared \<Rightarrow> (router_locals, 'w router_shared) switch_result" where
  "do_dist_barrier env l s =
     world_call l s (lite_dist_barrier (re_lite env) (db_num (get_dist_barrier_req (rl_req l))))"

definition do_query_port ::
  "'w router_env \<Rightarrow> router_locals \<Rightarrow> 'w router_shared \<Rightarrow> (router_locals, 'w router_shared) switch_result" where
  "do_query_port env l s =
     (let r = get_query_port_req (rl_req l)
      in case resolve_node env (qp_target_node r) s of (nid, s1) \<Rightarrow>
        world_call l s1 (lite_query_port (re_lite env) nid (qp_designed_port r)))"

text \<open>
  The name of the shared memory object is read as a C string from its place in the
  request; a name without a NUL up to the end of the request is undefined behaviour.
\<close>

definition do_alloc_local_mem ::
  "'w router_env \<Rightarrow> router_locals \<Rightarrow> 'w router_shared \<Rightarrow> (router_locals, 'w router_shared) switch_result" where
  "do_alloc_local_mem env l s =
     (case cstr_at 8 (rl_req l) of
        None \<Rightarrow> Never_Returns
      | Some nm \<Rightarrow>
          (case alloc_shm_mem (re_shm env) nm (al_size (get_alloc_local_mem_req (rl_req l))) (snd s) of
             (r, addr, w) \<Rightarrow>
               answer (case addr of None \<Rightarrow> l | Some a \<Rightarrow> l\<lparr>rl_rsp := put_remote_addr a (rl_rsp l)\<rparr>)
                 r (fst s, w)))"

definition do_free_local_mem ::
  "'w router_env \<Rightarrow> router_locals \<Rightarrow> 'w router_shared \<Rightarrow> (router_locals, 'w router_shared) switch_result" where
  "do_free_local_mem env l s =
     (case cstr_at 8 (rl_req l) of
        None \<Rightarrow> Never_Returns
      | Some nm \<Rightarrow>
          (let r = get_free_local_mem_req (rl_req l)
           in world_call l s (free_shm_mem (re_shm env) nm (fl_size r) (fl_remote_addr r))))"

section \<open>The switch and the loop\<close>

definition router_dispatch ::
  "'w router_env \<Rightarrow> router_locals \<Rightarrow> 'w router_shared \<Rightarrow> (router_locals, 'w router_shared) switch_result" where
  "router_dispatch env l s =
     (let c = get_func_code (rl_req l)
      in if c = FUNC_userspace_liteapi_get_node_id then do_get_node_id env l s
         else if c = FUNC_userspace_liteapi_join then do_join env l s
         else if c = FUNC_userspace_liteapi_alloc_remote_mem then do_alloc_remote_mem env l s
         else if c = FUNC_userspace_liteapi_rdma_write then do_rdma_write env l s
         else if c = FUNC_userspace_liteapi_rdma_read then do_rdma_read env l s
         else if c = FUNC_userspace_liteapi_send_reply_imm_fast then do_send_reply_imm_fast env l s
         else if c = FUNC_userspace_liteapi_receive_message_fast then do_receive_message_fast env l s
         else if c = FUNC_userspace_liteapi_reply_message then do_reply_message env l s
         else if c = FUNC_userspace_liteapi_register_application then do_register_application env l s
         else if c = FUNC_userspace_liteapi_dist_barrier then do_dist_barrier env l s
         else if c = FUNC_userspace_liteapi_query_port then do_query_port env l s
         else if c = FUNC_userspace_liteapi_alloc_local_mem then do_alloc_local_mem env l s
         else if c = FUNC_userspace_liteapi_free_local_mem then do_free_local_mem env l s
         else Unknown_Code)"

definition router_fill :: "router_locals \<Rightarrow> byte list \<Rightarrow> router_locals" where
  "router_fill l data = l\<lparr>rl_req := recv_into data (rl_req l)\<rparr>"

definition router_session_step ::
  "'w router_env \<Rightarrow> session_event \<Rightarrow> (router_locals, 'w router_shared) conn \<Rightarrow>
   (router_locals, 'w router_shared) conn" where
  "router_session_step env = session_step router_fill rl_rsp (router_dispatch env)"

end
