(* ===== verification/Router_Facts.thy ===== *)
theory Router_Facts
  imports Router
begin

text \<open>
  What the router's thread keeps: its two objects keep their sizes through every case of
  the switch, an answer leaves the request and the container id alone, and the response
  carries the result of the case. With these the loop is a \<open>session_server\<close>.
\<close>

definition router_linv :: "router_locals \<Rightarrow> bool" where
  "router_linv l = (length (rl_req l) = 280 \<and> length (rl_rsp l) = 24)"

lemma answer_Respond:
  "answer l v s = Respond l' s' \<longleftrightarrow> l' = l\<lparr>rl_rsp := put_int_rsp v (rl_rsp l)\<rparr> \<and> s' = s"
  by (auto simp: answer_def)

text \<open>What every answered request leaves: sizes, request, container id.\<close>

definition router_kept :: "router_locals \<Rightarrow> router_locals \<Rightarrow> bool" where
  "router_kept l l' = (router_linv l' \<and> rl_req l' = rl_req l \<and> rl_cid l' = rl_cid l)"

lemma answer_kept: "router_linv l \<Longrightarrow> answer l v s = Respond l' s' \<Longrightarrow> router_kept l l'"
  by (auto simp: answer_Respond router_kept_def router_linv_def rsp_fields)

lemma world_call_kept: "router_linv l \<Longrightarrow> world_call l s f = Respond l' s' \<Longrightarrow> router_kept l l'"
  by (auto simp: world_call_def split: prod.splits dest: answer_kept)

lemma do_send_reply_kept:
  "router_linv l \<Longrightarrow> do_send_reply_imm_fast env l s = Respond l' s' \<Longrightarrow> router_kept l l'"
  by (auto simp: do_send_reply_imm_fast_def Let_def split: prod.splits option.splits dest: answer_kept)

lemma do_receive_kept:
  assumes "router_linv l" and "do_receive_message_fast env l s = Respond l' s'"
  shows "router_kept l l'"
proof -
  obtain len d v s1 where "answer (l\<lparr>rl_rsp := put_ret_length len (put_descriptor d (rl_rsp l))\<rparr>) v s1 = Respond l' s'"
    using assms(2) by (auto simp: do_receive_message_fast_def Let_def split: prod.splits option.splits)
  then have "router_kept (l\<lparr>rl_rsp := put_ret_length len (put_descriptor d (rl_rsp l))\<rparr>) l'"
    using assms(1) by (intro answer_kept) (auto simp: router_linv_def rsp_fields)
  then show ?thesis
    by (simp add: router_kept_def)
qed

lemma do_alloc_local_kept:
  assumes "router_linv l" and "do_alloc_local_mem env l s = Respond l' s'"
  shows "router_kept l l'"
proof -
  obtain a v s1 where
    "answer (case a of None \<Rightarrow> l | Some p \<Rightarrow> l\<lparr>rl_rsp := put_remote_addr p (rl_rsp l)\<rparr>) v s1 = Respond l' s'"
    (is "answer ?l1 v s1 = _")
    using assms(2) by (auto simp: do_alloc_local_mem_def split: prod.splits option.splits)
  moreover have "router_linv ?l1" "rl_req ?l1 = rl_req l" "rl_cid ?l1 = rl_cid l"
    using assms(1) by (auto simp: router_linv_def rsp_fields split: option.split)
  ultimately show ?thesis
    using answer_kept [of ?l1 v s1 l' s'] by (simp add: router_kept_def)
qed

lemma router_dispatch_kept:
  "router_linv l \<Longrightarrow> router_dispatch env l s = Respond l' s' \<Longrightarrow> router_kept l l'"
  by (auto simp: router_dispatch_def Let_def do_get_node_id_def do_join_def do_alloc_remote_mem_def
      do_rdma_write_def do_rdma_read_def do_reply_message_def do_register_application_def
      do_dist_barrier_def do_query_port_def do_free_local_mem_def
      split: if_splits prod.splits option.splits
      dest: answer_kept world_call_kept do_send_reply_kept do_receive_kept do_alloc_local_kept)

interpretation router_server: session_server router_fill rl_rsp "router_dispatch env" router_linv 280 24 for env
proof unfold_locales
  show "router_linv l'" if "router_linv l" and "router_dispatch env l s = Respond l' s'" for l s l' s'
    using router_dispatch_kept [OF that] by (simp add: router_kept_def)
qed (auto simp: router_fill_def router_linv_def)

lemma router_open_linv: "router_open env path = Some l \<Longrightarrow> router_linv l"
  by (auto simp: router_open_def router_linv_def Let_def sizeofs split: if_splits)

lemma router_thread_linv:
  assumes "router_thread env peer s = Some c"
  obtains l ok where "router_linv l" and "c = start_conn ok l s"
proof (cases peer)
  case None
  then show thesis
    using assms that [of "\<lparr>rl_req = replicate 280 0, rl_rsp = replicate 24 0, rl_cid = []\<rparr>" False]
    by (auto simp: router_thread_def router_linv_def sizeofs)
next
  case (Some path)
  then obtain l where "router_open env path = Some l" and "c = start_conn True l s"
    using assms by (auto simp: router_thread_def)
  then show thesis
    using that router_open_linv by blast
qed

text \<open>
  A client that has not bound its socket, or has bound it to a path of less than eight
  characters, ends a router with containers: \<open>substr\<close> throws.
\<close>

lemma router_aborts:
  "router_thread env (Some path) s = None \<longleftrightarrow> \<not> re_no_container env \<and> length path < 8"
  by (simp add: router_thread_def router_open_def router_cid_def substr_def Let_def)

text \<open>
  C20: a connection of the router. Whatever arrives (at most the size of a request at a
  time), every answer has the 24 bytes of the response object, there is at most one for
  each receive, and the socket is closed exactly once, when the thread leaves its loop.
\<close>

theorem router_thread_answers:
  assumes "router_thread env peer s = Some c0" and "list_all (recv_fits 280) evs"
  shows "let c = session_run router_fill rl_rsp (router_dispatch env) evs c0 in
    (\<forall>m\<in>set (outbox c). length m = 24) \<and> length (outbox c) \<le> length evs \<and>
    closes c = (if status c = Closed then 1 else 0)"
proof -
  obtain l ok where "router_linv l" and "c0 = start_conn ok l s"
    by (rule router_thread_linv [OF assms(1)])
  then show ?thesis
    using router_server.answers [OF _ assms(2), of l env ok s] unfolding Let_def by blast
qed

text \<open>A router on an operating system on which nothing happens.\<close>

definition idle_env :: "'w socket_api \<Rightarrow> 'w router_env" where
  "idle_env sock = \<lparr>re_sock = sock,
     re_lite = \<lparr>os_syscall = (\<lambda>_ _ w. (0, w)), os_load64 = (\<lambda>_ w. (0, w)), os_store64 = (\<lambda>_ _ w. w),
       os_store32 = (\<lambda>_ _ w. w), os_load32 = (\<lambda>_ w. (0, w)), os_usleep = (\<lambda>w. w),
       os_open_lite_mmap = (\<lambda>w. (3, w)), os_mmap_private = (\<lambda>_ _ w. (0, w))\<rparr>,
     re_shm = \<lparr>sh_open = (\<lambda>_ _ w. (-1, w)), sh_ftruncate = (\<lambda>_ _ w. (-1, w)), sh_mmap = (\<lambda>_ _ w. (MAP_FAILED, w)),
       sh_munmap = (\<lambda>_ _ w. (-1, w)), sh_unlink = (\<lambda>_ w. (-1, w))\<rparr>,
     re_no_container = False, re_nid = 4, re_rsp_addr = 0x800\<rparr>"

theorem router_thread_answers_witness:
  "\<forall>sock s. \<exists>c0. router_thread (idle_env sock) (Some ''/var/tmp/abcdef04242'') s = Some c0 \<and>
     (let c = session_run router_fill rl_rsp (router_dispatch (idle_env sock))
         [(Recv_Data [], True), (Recv_Data [1], True)] c0
      in outbox c = [] \<and> closes c = (if status c = Closed then 1 else 0) \<and> status c = Closed)"
proof (intro allI)
  fix sock :: "'a socket_api" and s :: "'a router_shared"
  let ?evs = "[(Recv_Data [], True), (Recv_Data [1], True)]"
  let ?c0 = "start_conn True \<lparr>rl_req = replicate 280 0, rl_rsp = replicate 24 0, rl_cid = ''/abcde''\<rparr> s"
  have o: "router_thread (idle_env sock) (Some ''/var/tmp/abcdef04242'') s = Some ?c0"
    by (simp add: router_thread_def router_open_def router_cid_def substr_def sizeofs Let_def idle_env_def)
  show "\<exists>c0. router_thread (idle_env sock) (Some ''/var/tmp/abcdef04242'') s = Some c0 \<and>
     (let c = session_run router_fill rl_rsp (router_dispatch (idle_env sock)) ?evs c0
      in outbox c = [] \<and> closes c = (if status c = Closed then 1 else 0) \<and> status c = Closed)"
    using router_thread_answers [OF o, of ?evs] o
    by (simp add: Let_def recv_fits_def session_step_def start_conn_def open_conn_def hangup_def)
qed

text \<open>A case of the switch never ends in the default case.\<close>

lemma cases_known:
  "answer l v s \<noteq> Unknown_Code" "world_call l s2 f \<noteq> Unknown_Code"
  "do_get_node_id env l s2 \<noteq> Unknown_Code" "do_join env l s2 \<noteq> Unknown_Code"
  "do_alloc_remote_mem env l s2 \<noteq> Unknown_Code" "do_rdma_write env l s2 \<noteq> Unknown_Code"
  "do_rdma_read env l s2 \<noteq> Unknown_Code" "do_send_reply_imm_fast env l s2 \<noteq> Unknown_Code"
  "do_receive_message_fast env l s2 \<noteq> Unknown_Code" "do_reply_message env l s2 \<noteq> Unknown_Code"
  "do_register_application env l s2 \<noteq> Unknown_Code" "do_dist_barrier env l s2 \<noteq> Unknown_Code"
  "do_query_port env l s2 \<noteq> Unknown_Code" "do_alloc_local_mem env l s2 \<noteq> Unknown_Code"
  "do_free_local_mem env l s2 \<noteq> Unknown_Code"
  by (simp_all add: answer_def world_call_def do_get_node_id_def do_join_def do_alloc_remote_mem_def
      do_rdma_write_def do_rdma_read_def do_send_reply_imm_fast_def do_receive_message_fast_def
      do_reply_message_def do_register_application_def do_dist_barrier_def do_query_port_def
      do_alloc_local_mem_def do_free_local_mem_def Let_def split: prod.split option.split)

lemma case_or_next: "x \<noteq> u \<Longrightarrow> (if b then x else y) = u \<longleftrightarrow> \<not> b \<and> y = u"
  by simp

lemma router_dispatch_unknown:
  "router_dispatch env l s = Unknown_Code \<longleftrightarrow>
   get_func_code (rl_req l) \<notin> {1, 2, 3, 4, 5, 6, 7, 8, 9, 10, 11, 12, 13}"
  by (simp only: router_dispatch_def Let_def case_or_next [OF cases_known(3)] case_or_next [OF cases_known(4)]
      case_or_next [OF cases_known(5)] case_or_next [OF cases_known(6)] case_or_next [OF cases_known(7)]
      case_or_next [OF cases_known(8)] case_or_next [OF cases_known(9)] case_or_next [OF cases_known(10)]
      case_or_next [OF cases_known(11)] case_or_next [OF cases_known(12)] case_or_next [OF cases_known(13)]
      case_or_next [OF cases_known(14)] case_or_next [OF cases_known(15)] func_codes insert_iff empty_iff
      de_Morgan_disj simp_thms)

text \<open>
  C21: a request runs one case of the switch and is kept. An answered request leaves the
  request object and the container id as they are, and both objects their sizes; the
  connection is given up exactly for the codes outside 1 to 13.
\<close>

theorem router_dispatch_total:
  assumes "router_linv l"
  shows "(\<forall>l' s'. router_dispatch env l s = Respond l' s' \<longrightarrow> rl_req l' = rl_req l \<and> rl_cid l' = rl_cid l \<and> router_linv l') \<and>
    (router_dispatch env l s = Unknown_Code \<longleftrightarrow>
       get_func_code (rl_req l) \<notin> {1, 2, 3, 4, 5, 6, 7, 8, 9, 10, 11, 12, 13})"
proof -
  have "router_kept l l'" if "router_dispatch env l s = Respond l' s'" for l' s'
    using assms that by (rule router_dispatch_kept)
  then show ?thesis
    using router_dispatch_unknown [of env l s] unfolding router_kept_def by blast
qed

theorem router_dispatch_total_witness:
  "\<forall>env s. router_dispatch env \<lparr>rl_req = replicate 280 0, rl_rsp = replicate 24 0, rl_cid = []\<rparr> s = Unknown_Code"
proof (intro allI)
  fix env s
  let ?l = "\<lparr>rl_req = replicate 280 0, rl_rsp = replicate 24 0, rl_cid = []\<rparr>"
  have "get_func_code (rl_req ?l) = 0"
    by (simp add: codec_defs get32_def chunk_def)
  moreover have "router_linv ?l"
    by (simp add: router_linv_def)
  ultimately show "router_dispatch env ?l s = Unknown_Code"
    using router_dispatch_total [of ?l env s] by simp
qed

end
