(* ===== verification/Rpc_Link.thy ===== *)
theory Rpc_Link
  imports Client Router_Facts
begin

text \<open>
  Clients connected to a server of \<open>struct rpc_req_msg\<close> requests. The locale \<open>rpc_service\<close>
  is what a stub relies on: while the connection is ready, \<open>rpc_handler\<close> returns the
  server's response object. It is provided by a link to a thread of the router
  (\<open>rlink_api\<close>: what the client sends is one event of the thread's loop, what it receives
  are the answers in order).
\<close>

section \<open>What a stub relies on\<close>

locale rpc_service =
  fixes env :: "'w client_env"
    and ready :: "'w client_shared \<Rightarrow> bool"
    and serve :: "byte list \<Rightarrow> 'w client_shared \<Rightarrow> (byte list \<times> 'w client_shared) option"
  assumes handled: "\<lbrakk>ready s; length req = 280; length rsp = 24; serve req s = Some (out, s')\<rbrakk> \<Longrightarrow>
      rpc_handler env req rsp s = (0, out, s')"
    and ready_after: "\<lbrakk>ready s; length req = 280; serve req s = Some (out, s')\<rbrakk> \<Longrightarrow> ready s'"
    and out_size: "\<lbrakk>ready s; length req = 280; serve req s = Some (out, s')\<rbrakk> \<Longrightarrow> length out = 24"
begin

lemma call_int_served:
  "\<lbrakk>ready s; length req = 280; length rsp = 24; serve req s = Some (out, s')\<rbrakk> \<Longrightarrow>
   call_int env req rsp s = (get_int_rsp out, s')"
  by (simp add: call_int_def handled)

end

section \<open>A client connected to a connection thread\<close>

text \<open>
  The link to a thread that runs \<open>session_step fill rsp dispatch\<close>. The socket calls of the
  client deliver its requests to the thread and its answers back.
\<close>

record ('l, 's) slink =
  sk_conn :: "('l, 's) conn"
  sk_read :: nat

type_synonym ('l, 's) session_fun = "session_event \<Rightarrow> ('l, 's) conn \<Rightarrow> ('l, 's) conn"

definition slink_send :: "('l, 's) session_fun \<Rightarrow> int \<Rightarrow> byte list \<Rightarrow> ('l, 's) slink \<Rightarrow> int \<times> ('l, 's) slink" where
  "slink_send step fd data l =
     (int (length data), l\<lparr>sk_conn := step (Recv_Data data, True) (sk_conn l)\<rparr>)"

definition slink_recv :: "int \<Rightarrow> nat \<Rightarrow> ('l, 's) slink \<Rightarrow> recv_result \<times> ('l, 's) slink" where
  "slink_recv fd n l =
     (if sk_read l < length (outbox (sk_conn l))
      then (Recv_Data (take n (outbox (sk_conn l) ! sk_read l)), l\<lparr>sk_read := Suc (sk_read l)\<rparr>)
      else (Recv_Data [], l))"

definition slink_api :: "('l, 's) session_fun \<Rightarrow> ('l, 's) slink socket_api" where
  "slink_api step = \<lparr>so_socket = (\<lambda>l. (3, l)), so_unlink = (\<lambda>_ l. l), so_bind = (\<lambda>_ _ l. (0, l)),
     so_connect = (\<lambda>_ _ l. (0, l)), so_inet_pton = (\<lambda>_. 1), so_send = slink_send step,
     so_recv = slink_recv,
     so_close = (\<lambda>_ l. l\<lparr>sk_conn := step (Recv_Data [], True) (sk_conn l)\<rparr>)\<rparr>"

definition linked :: "('l, 's) session_fun \<Rightarrow> ('l, 's) slink client_env \<Rightarrow> ('l, 's) slink client_env" where
  "linked step env = env\<lparr>ce_sock := slink_api step\<rparr>"

definition slink_ready :: "('l \<Rightarrow> bool) \<Rightarrow> ('l, 's) slink client_shared \<Rightarrow> bool" where
  "slink_ready linv s = (client_sock (fst s) \<noteq> -1 \<and> status (sk_conn (snd s)) = Serving \<and>
     linv (locals (sk_conn (snd s))) \<and> sk_read (snd s) = length (outbox (sk_conn (snd s))))"

text \<open>The link after the thread has answered and the client has read the answer.\<close>

definition slink_done :: "'l \<Rightarrow> 's \<Rightarrow> byte list \<Rightarrow> ('l, 's) slink \<Rightarrow> ('l, 's) slink" where
  "slink_done l' sh out l = l\<lparr>sk_conn := (sk_conn l)\<lparr>locals := l', shared := sh,
     outbox := outbox (sk_conn l) @ [out]\<rparr>, sk_read := Suc (sk_read l)\<rparr>"

definition slink_serve ::
  "('l \<Rightarrow> byte list \<Rightarrow> 'l) \<Rightarrow> ('l \<Rightarrow> byte list) \<Rightarrow> ('l \<Rightarrow> 's \<Rightarrow> ('l, 's) switch_result) \<Rightarrow>
   byte list \<Rightarrow> ('l, 's) slink client_shared \<Rightarrow> (byte list \<times> ('l, 's) slink client_shared) option" where
  "slink_serve fill rsp dispatch req s =
     (case dispatch (fill (locals (sk_conn (snd s))) req) (shared (sk_conn (snd s))) of
        Respond l' sh \<Rightarrow> Some (rsp l', (fst s, slink_done l' sh (rsp l') (snd s)))
      | Unknown_Code \<Rightarrow> None
      | Never_Returns \<Rightarrow> None)"

locale linked_server = session_server fill rsp dispatch linv 280 24
  for fill :: "'l \<Rightarrow> byte list \<Rightarrow> 'l" and rsp :: "'l \<Rightarrow> byte list"
    and dispatch :: "'l \<Rightarrow> 's \<Rightarrow> ('l, 's) switch_result" and linv :: "'l \<Rightarrow> bool"
begin

lemma serve_cases:
  assumes "slink_ready linv s" and "length req = 280"
    and "slink_serve fill rsp dispatch req s = Some (out, s')"
  obtains l' sh where "dispatch (fill (locals (sk_conn (snd s))) req) (shared (sk_conn (snd s))) = Respond l' sh"
    and "linv l'" and "out = rsp l'" and "length out = 24" and "s' = (fst s, slink_done l' sh out (snd s))"
proof -
  obtain l' sh where d: "dispatch (fill (locals (sk_conn (snd s))) req) (shared (sk_conn (snd s))) = Respond l' sh"
    and o: "out = rsp l'" "s' = (fst s, slink_done l' sh out (snd s))"
    using assms(3) by (auto simp: slink_serve_def split: switch_result.splits)
  have "linv (fill (locals (sk_conn (snd s))) req)"
    using assms(1,2) by (auto simp: slink_ready_def intro: fill_linv)
  then have "linv l'"
    using d by (rule dispatch_linv)
  with d o show thesis
    by (intro that) (simp_all add: rsp_size)
qed

lemma session_serves:
  assumes "status c = Serving" and "length req = 280"
    and "dispatch (fill (locals c) req) (shared c) = Respond l' sh"
  shows "session_step fill rsp dispatch (Recv_Data req, True) c =
    c\<lparr>locals := l', shared := sh, outbox := outbox c @ [rsp l']\<rparr>"
proof -
  have "req \<noteq> []"
    using assms(2) by auto
  then show ?thesis
    using assms by (simp add: session_step_def)
qed

lemma link_handled:
  assumes ready: "slink_ready linv s" and req: "length req = 280" and len: "length buf = 24"
    and serve: "slink_serve fill rsp dispatch req s = Some (out, s')"
  shows "rpc_handler (linked (session_step fill rsp dispatch) env) req buf s = (0, out, s')"
proof -
  obtain l' sh where d: "dispatch (fill (locals (sk_conn (snd s))) req) (shared (sk_conn (snd s))) = Respond l' sh"
    and l': "out = rsp l'" "length out = 24" and s': "s' = (fst s, slink_done l' sh out (snd s))"
    using serve_cases [OF ready req serve] by metis
  show ?thesis
    using ready session_serves [OF _ req d] l' s' len
    by (simp add: rpc_handler_def rpc_exchange_def linked_def slink_api_def slink_send_def
        slink_recv_def slink_ready_def slink_done_def sizeofs nth_append)
qed

end

sublocale linked_server \<subseteq> link: rpc_service "linked (session_step fill rsp dispatch) env" "slink_ready linv"
  "slink_serve fill rsp dispatch" for env
proof unfold_locales
  fix s req out s'
  assume r: "slink_ready linv s" "length req = 280" "slink_serve fill rsp dispatch req s = Some (out, s')"
  show "rpc_handler (linked (session_step fill rsp dispatch) env) req buf s = (0, out, s')"
    if "length buf = 24" for buf
    using r that by (intro link_handled)
  show "slink_ready linv s'"
    by (rule serve_cases [OF r]) (use r(1) in \<open>simp add: slink_ready_def slink_done_def\<close>)
  show "length out = 24"
    by (rule serve_cases [OF r])
qed

section \<open>The router behind the link\<close>

type_synonym 'w rlink = "(router_locals, 'w router_shared) slink"

definition on_router :: "'w router_env \<Rightarrow> 'w rlink client_env \<Rightarrow> 'w rlink client_env" where
  "on_router renv = linked (router_session_step renv)"

definition rlink_ready :: "'w rlink client_shared \<Rightarrow> bool" where
  "rlink_ready = slink_ready router_linv"

definition rlink_serve ::
  "'w router_env \<Rightarrow> byte list \<Rightarrow> 'w rlink client_shared \<Rightarrow> (byte list \<times> 'w rlink client_shared) option" where
  "rlink_serve renv = slink_serve router_fill rl_rsp (router_dispatch renv)"

interpretation router_link: linked_server router_fill rl_rsp "router_dispatch renv" router_linv for renv
  by unfold_locales

interpretation via_router: rpc_service "on_router renv env" rlink_ready "rlink_serve renv" for renv env
  unfolding on_router_def rlink_ready_def rlink_serve_def router_session_step_def
  by (rule router_link.link.rpc_service_axioms)

end
