(* ===== verification/Samples.thy ===== *)
theory Samples
  imports Rpc_Link
begin

text \<open>
  One concrete instance of the parameters, on which the witnesses of the properties apply
  them: a world with a memory and a log of the system calls, a kernel that completes
  receives and replies at once, a vcm that numbers the first container 7, and a client
  connected to a router whose connection thread has just started.
\<close>

record sample_world =
  sw_mem :: "c_ptr \<Rightarrow> c_long"
  sw_calls :: "nat list"

definition sample_kernel :: "nat \<Rightarrow> sysarg list \<Rightarrow> (c_ptr \<Rightarrow> c_long) \<Rightarrow> c_ptr \<Rightarrow> c_long" where
  "sample_kernel nr args mem =
     (if nr = NR_lite_receive_message
      then (case args of [_, _, A64 d, A64 len, _, _] \<Rightarrow> mem(d := 77, len := 5) | _ \<Rightarrow> mem)
      else if nr = NR_lite_send_reply_imm
      then (case args of [_, _, _, _, A64 len, _] \<Rightarrow> mem(len := 6) | _ \<Rightarrow> mem)
      else mem)"

definition sample_os :: "sample_world lite_os" where
  "sample_os =
     \<lparr>os_syscall = (\<lambda>nr args w. (0, w\<lparr>sw_mem := sample_kernel nr args (sw_mem w), sw_calls := sw_calls w @ [nr]\<rparr>)),
      os_load64 = (\<lambda>p w. (sw_mem w p, w)),
      os_store64 = (\<lambda>p v w. w\<lparr>sw_mem := (sw_mem w)(p := v)\<rparr>),
      os_store32 = (\<lambda>p v w. w\<lparr>sw_mem := (sw_mem w)(p := ucast v)\<rparr>),
      os_load32 = (\<lambda>p w. (ucast (sw_mem w p), w)),
      os_usleep = (\<lambda>w. w),
      os_open_lite_mmap = (\<lambda>w. (3, w)),
      os_mmap_private = (\<lambda>_ _ w. (0x1000, w))\<rparr>"

definition sample_sock :: "sample_world socket_api" where
  "sample_sock =
     \<lparr>so_socket = (\<lambda>w. (3, w)), so_unlink = (\<lambda>_ w. w), so_bind = (\<lambda>_ _ w. (0, w)),
      so_connect = (\<lambda>_ _ w. (0, w)), so_inet_pton = (\<lambda>_. 1), so_send = (\<lambda>_ data w. (int (length data), w)),
      so_recv = (\<lambda>_ _ w. (Recv_Data (encode_vcm_msg \<lparr>vm_func_code = NID_VID, vm_id = 7\<rparr>), w)),
      so_close = (\<lambda>_ w. w)\<rparr>"

definition sample_shm :: "sample_world shm_api" where
  "sample_shm =
     \<lparr>sh_open = (\<lambda>_ _ w. (4, w)), sh_ftruncate = (\<lambda>_ _ w. (0, w)), sh_mmap = (\<lambda>_ _ w. (0x2000, w)),
      sh_munmap = (\<lambda>_ _ w. (0, w)), sh_unlink = (\<lambda>_ w. (0, w))\<rparr>"

definition sample_renv :: "sample_world router_env" where
  "sample_renv = \<lparr>re_sock = sample_sock, re_lite = sample_os, re_shm = sample_shm,
     re_no_container = False, re_nid = 3, re_rsp_addr = 0x800\<rparr>"

definition sample_start :: sample_world where
  "sample_start = \<lparr>sw_mem = (\<lambda>_. 0), sw_calls = []\<rparr>"

definition sample_link :: "sample_world rlink" where
  "sample_link = \<lparr>sk_conn = open_conn \<lparr>rl_req = replicate 280 0, rl_rsp = replicate 24 0, rl_cid = ''/abcde''\<rparr>
       (routing_init\<lparr>vcm_sock := 3\<rparr>, sample_start), sk_read = 0\<rparr>"

definition sample_client :: client_state where
  "sample_client = \<lparr>client_sock = 3, client_cid = ''abcdef'' @ [CHR 0x00]\<rparr>"

definition sample_cenv :: "sample_world rlink client_env" where
  "sample_cenv = \<lparr>ce_sock = slink_api (\<lambda>_ c. c),
     ce_shm = \<lparr>sh_open = (\<lambda>_ _ w. (5, w)), sh_ftruncate = (\<lambda>_ _ w. (0, w)), sh_mmap = (\<lambda>_ _ w. (0x3000, w)),
               sh_munmap = (\<lambda>_ _ w. (0, w)), sh_unlink = (\<lambda>_ w. (0, w))\<rparr>,
     ce_cpuset = (\<lambda>w. (Some ''/docker/abcdef0123456789'', w)), ce_pid = 4242, ce_no_container = False\<rparr>"

definition sample_stack :: stack where
  "sample_stack = \<lparr>stk_req = replicate 280 0xAA, stk_rsp = replicate 24 0xBB\<rparr>"

lemma sample_ready [simp]: "rlink_ready (sample_client, sample_link)"
  by (simp add: rlink_ready_def slink_ready_def router_linv_def sample_client_def sample_link_def open_conn_def)

lemma sample_stack_ok [simp]: "stack_ok sample_stack"
  by (simp add: stack_ok_def sample_stack_def)

lemma sample_shared [simp]:
  "shared (sk_conn sample_link) = (routing_init\<lparr>vcm_sock := 3\<rparr>, sample_start)"
  by (simp add: sample_link_def open_conn_def)

lemma sample_renv_simps [simp]:
  "re_lite sample_renv = sample_os" "re_sock sample_renv = sample_sock" "re_shm sample_renv = sample_shm"
  "\<not> re_no_container sample_renv" "re_nid sample_renv = 3" "re_rsp_addr sample_renv = 0x800"
  by (simp_all add: sample_renv_def)

text \<open>The shared memory calls succeed, and the first lookup of node 2 asks the vcm.\<close>

lemma sample_shm_calls:
  "alloc_shm_mem sample_shm nm sz w = (0, Some 0x2000, w)" "free_shm_mem sample_shm nm sz a w = (0, w)"
  "sh_open sample_shm nm False w = (4, w)" "sh_mmap sample_shm sz 4 w = (0x2000, w)"
  by (simp_all add: alloc_shm_mem_def free_shm_mem_def open_or_create_def sample_shm_def MAP_FAILED_def)

lemma sample_lookup:
  "resolve_node sample_renv 2 (routing_init\<lparr>vcm_sock := 3\<rparr>, w) =
     (7, routing_init\<lparr>vcm_sock := 3, vid_nid_map_cache := [2 \<mapsto> 7]\<rparr>, w)"
  by (simp add: resolve_node_def vcm_vid_nid_def vcm_handler_def sample_sock_def routing_init_def
      recv_into_def sizeofs)

end
