(* ===== verification/Routing_Facts.thy ===== *)
theory Routing_Facts
  imports Samples
begin

text \<open>
  What \<open>Routing\<close> does when the exchange with the vcm goes wrong: a shutdown of the vcm, a
  lost connection, a failed connect; and that a join is made once.
\<close>

section \<open>Joining\<close>

text \<open>
  A container is registered once. After a join that has an entry in \<open>cid_vid_map\<close> to
  show for it, joining again returns the same virtual node with no exchange: neither the
  maps nor the world change; and \<open>vcm_get_node_id\<close> returns that node too.
\<close>

lemma join_idempotent:
  assumes "vcm_join api nid cid st w = (v, st', w')" and "cid_vid_map st' cid \<noteq> None"
  shows "vcm_join api nid cid st' w2 = (v, st', w2) \<and> vcm_get_node_id cid st' = v"
  using assms by (elim vcm_join_cases)
    (auto simp: vcm_join_known vcm_get_node_id_def umap_insert_apply)

text \<open>
  C25: a vcm that shuts the connection down is taken for an answer. When \<open>recv\<close> returns 0, the
  message still holds the router's own node id, and a join returns it as the container's
  virtual node, enters it in both maps and keeps the connection.
\<close>

theorem shutdown_taken_for_answer:
  assumes "vcm_sock st \<noteq> -1" and "cid_vid_map st cid = None"
    and "so_send api (vcm_sock st) (encode_vcm_msg \<lparr>vm_func_code = NID_VID, vm_id = nid\<rparr>) w = (sent, w1)"
    and "0 \<le> sent" and "so_recv api (vcm_sock st) sizeof_vcm_msg w1 = (Recv_Data [], w2)"
  shows "\<exists>st'. vcm_join api nid cid st w = (nid, st', w2) \<and> cid_vid_map st' cid = Some nid \<and>
    vid_nid_map_cache st' nid \<noteq> None \<and> vcm_sock st' = vcm_sock st"
  using assms by (auto simp: vcm_join_def vcm_handler_def recv_into_def umap_insert_apply Let_def)

theorem shutdown_taken_for_answer_witness:
  "let api = sample_sock\<lparr>so_recv := (\<lambda>_ _ w. (Recv_Data [], w))\<rparr>
   in fst (vcm_join api 3 ''/abcde'' (routing_init\<lparr>vcm_sock := 5\<rparr>) sample_start) = 3"
proof -
  let ?api = "sample_sock\<lparr>so_recv := (\<lambda>_ _ w. (Recv_Data [], w))\<rparr>"
  have s: "so_send ?api (vcm_sock (routing_init\<lparr>vcm_sock := 5\<rparr>)) (encode_vcm_msg \<lparr>vm_func_code = NID_VID, vm_id = 3\<rparr>)
      sample_start = (8, sample_start)"
    by (simp add: sample_sock_def)
  show ?thesis
    using shutdown_taken_for_answer [OF _ _ s, of "''/abcde''" sample_start] by (auto simp: routing_init_def Let_def)
qed

section \<open>Losing the connection\<close>

datatype routing_op = Op_join string | Op_resolve c_int | Op_lookup string

fun routing_op_step :: "'w socket_api \<Rightarrow> c_int \<Rightarrow> routing_op \<Rightarrow> routing_state \<times> 'w \<Rightarrow> c_int \<times> routing_state \<times> 'w" where
  "routing_op_step api nid (Op_join cid) s = vcm_join api nid cid (fst s) (snd s)"
| "routing_op_step api nid (Op_resolve v) s = vcm_vid_nid api v (fst s) (snd s)"
| "routing_op_step api nid (Op_lookup cid) s = (vcm_get_node_id cid (fst s), s)"

fun routing_run :: "'w socket_api \<Rightarrow> c_int \<Rightarrow> routing_op list \<Rightarrow> routing_state \<times> 'w \<Rightarrow> c_int list \<times> routing_state \<times> 'w" where
  "routing_run api nid [] s = ([], s)"
| "routing_run api nid (op # ops) s =
     (case routing_op_step api nid op s of (r, s1) \<Rightarrow>
        case routing_run api nid ops s1 of (rs, s2) \<Rightarrow> (r # rs, s2))"

text \<open>What a router without a connection answers: its maps, -1 elsewhere.\<close>

fun offline :: "routing_state \<Rightarrow> routing_op \<Rightarrow> c_int" where
  "offline st (Op_join cid) = vcm_get_node_id cid st"
| "offline st (Op_resolve v) = (case vid_nid_map_cache st v of None \<Rightarrow> -1 | Some n \<Rightarrow> n)"
| "offline st (Op_lookup cid) = vcm_get_node_id cid st"

lemma offline_step:
  "vcm_sock st = -1 \<Longrightarrow> routing_op_step api nid op (st, w) = (offline st op, (st, w))"
  by (cases op) (auto simp: vcm_join_def vcm_vid_nid_def vcm_handler_no_socket vcm_get_node_id_def split: option.split)

text \<open>
  C24: a router never reconnects. Once a send or a receive has failed (\<open>vcm_sock\<close> is -1),
  every later operation answers from the maps as they are, with -1 for anything new, and
  changes neither the maps nor the world.
\<close>

theorem no_reconnect:
  assumes "vcm_sock st = -1"
  shows "routing_run api nid ops (st, w) = (map (offline st) ops, (st, w))"
  using assms by (induction ops) (simp_all add: offline_step)

theorem no_reconnect_witness:
  "routing_run sample_sock 3 [Op_join ''/abcde'', Op_resolve 2, Op_join ''/abcde''] (routing_init, sample_start) =
     ([-1, -1, -1], (routing_init, sample_start))"
  using no_reconnect [of routing_init sample_sock 3 "[Op_join ''/abcde'', Op_resolve 2, Op_join ''/abcde'']" sample_start]
  by (simp add: routing_init_def vcm_get_node_id_def)

text \<open>
  The outcomes of \<open>vcm_conn\<close>. A result that is not negative is the connected socket,
  kept in the state. A failed \<open>connect\<close> closes the socket and resets the state. An address
  that \<open>inet_pton\<close> rejects leaves the open, unconnected socket in the state, so the test
  for a missing connection in \<open>vcm_handler\<close> does not notice it.
\<close>

lemma vcm_conn_outcomes:
  assumes "vcm_conn api ip st w = (r, st', w')" and "so_socket api w = (s, w1)" and "0 \<le> s"
  shows "(0 \<le> r \<longleftrightarrow> so_inet_pton api ip > 0 \<and> fst (so_connect api s ip w1) \<ge> 0) \<and>
    (0 \<le> r \<longrightarrow> r = s \<and> vcm_sock st' = s) \<and>
    (r < 0 \<and> so_inet_pton api ip > 0 \<longrightarrow> vcm_sock st' = -1 \<and> w' = so_close api s (snd (so_connect api s ip w1))) \<and>
    (so_inet_pton api ip \<le> 0 \<longrightarrow> r = -1 \<and> vcm_sock st' = s \<and> w' = w1)"
  using assms by (auto simp: vcm_conn_def vcm_disconn_def Let_def split: if_splits prod.splits)

end
