(* ===== verification/Lite_Facts.thy ===== *)
theory Lite_Facts
  imports Lite_Lib
begin

text \<open>
  What the wrappers of \<open>Lite_Lib\<close> guarantee: the packed words carry their two parts, the
  size limits keep oversized messages from the kernel, the polling loops return exactly
  when the kernel writes the word, page rounding.
\<close>

section \<open>Packed arguments\<close>

lemma unat_push6: "unat (sz :: c_int) < 2 ^ 26 \<Longrightarrow> unat (push_bit 6 sz) = 64 * unat sz"
  by (simp add: push_bit_eq_mult unat_word_ariths)

lemma unat_pack_port:
  assumes "unat sz < 2 ^ 26" and "unat port < 64"
  shows "unat (pack_port sz port) = 64 * unat sz + unat port"
  using assms by (simp add: pack_port_def IMM_MAX_PORT_BIT_def unat_word_ariths unat_push6)

lemma pack_priority_eq: "pack_priority sz prio = pack_port sz prio"
  by (simp add: pack_priority_def pack_port_def IMM_MAX_PORT_BIT_def IMM_MAX_PRIORITY_BIT_def)

text \<open>The six upper bits of a size are shifted out.\<close>

lemma pack_port_low_bits: "pack_port (take_bit 26 sz) port = pack_port sz port"
proof -
  have "push_bit 6 (take_bit 26 sz) = push_bit 6 sz"
    by (rule bit_word_eqI) (auto simp: bit_simps)
  then show ?thesis
    by (simp add: pack_port_def IMM_MAX_PORT_BIT_def)
qed

lemma sint_low_bits: "0 \<le> sint (take_bit 26 (x :: c_int))"
proof -
  have "\<not> bit (take_bit 26 x) 31"
    by (simp add: bit_simps)
  then show ?thesis
    by (simp add: sint_uint bit_simps signed_take_bit_nonnegative_iff)
qed

text \<open>A size the limit lets through and that is not negative is below \<open>2 ^ 22\<close>.\<close>

lemma sint_nonneg_unat: "0 \<le> sint (x :: c_int) \<Longrightarrow> sint x = int (unat x)"
proof -
  assume "0 \<le> sint x"
  moreover have "sint x < 2 ^ 31"
    using sint_lt [of x] by simp
  ultimately have "take_bit 32 (sint x) = sint x"
    by (simp add: take_bit_int_eq_self)
  then show ?thesis
    using uint_sint [of x] by simp
qed

lemma in_limit_unat: "\<lbrakk>0 \<le> sint sz; \<not> too_big sz\<rbrakk> \<Longrightarrow> unat sz < 4194304"
  using sint_nonneg_unat [of sz] unfolding too_big_def LIMITATION_def by linarith

section \<open>Polling\<close>

text \<open>The world after \<open>k\<close> loads of the descriptor.\<close>

fun loads :: "'w lite_os \<Rightarrow> c_ptr \<Rightarrow> nat \<Rightarrow> 'w \<Rightarrow> 'w" where
  "loads os d 0 w = w"
| "loads os d (Suc k) w = loads os d k (snd (os_load64 os d w))"

definition sees :: "'w lite_os \<Rightarrow> c_ptr \<Rightarrow> 'w \<Rightarrow> bool" where
  "sees os d w = (fst (os_load64 os d w) \<noteq> 0)"

lemma spin_stops: "sees os d w \<Longrightarrow> spin_descriptor os d i w = snd (os_load64 os d w)"
  by (subst spin_descriptor.simps) (simp add: sees_def)

lemma spin_goes_on:
  "\<lbrakk>\<not> sees os d w; i + 1 < CHECK_LENGTH\<rbrakk> \<Longrightarrow>
   spin_descriptor os d i w = spin_descriptor os d (i + 1) (snd (os_load64 os d w))"
  by (subst spin_descriptor.simps) (simp add: sees_def)

lemma spin_last: "i + 1 \<ge> CHECK_LENGTH \<Longrightarrow> spin_descriptor os d i w = snd (os_load64 os d w)"
  by (subst spin_descriptor.simps) simp

text \<open>A word written before the \<open>k\<close>-th load stops the spinning there, without a nap.\<close>

lemma spin_found:
  "\<lbrakk>\<forall>j<k. \<not> sees os d (loads os d j w); sees os d (loads os d k w); i + k < CHECK_LENGTH\<rbrakk> \<Longrightarrow>
   spin_descriptor os d i w = loads os d (Suc k) w"
proof (induction k arbitrary: i w)
  case 0
  then show ?case by (simp add: spin_stops)
next
  case (Suc k)
  have "\<not> sees os d w"
    using Suc.prems(1) by (metis loads.simps(1) zero_less_Suc)
  moreover have "\<forall>j<k. \<not> sees os d (loads os d j (snd (os_load64 os d w)))"
    using Suc.prems(1) by (metis Suc_mono loads.simps(2))
  ultimately show ?case
    using Suc.IH [of "snd (os_load64 os d w)" "i + 1"] Suc.prems(2,3) by (simp add: spin_goes_on)
qed

text \<open>The spinning never loads more than \<open>CHECK_LENGTH\<close> times.\<close>

lemma spin_bounded:
  "i < CHECK_LENGTH \<Longrightarrow> \<exists>k. 1 \<le> k \<and> k \<le> CHECK_LENGTH - i \<and> spin_descriptor os d i w = loads os d k w"
proof (induction "CHECK_LENGTH - i" arbitrary: i w)
  case (Suc m)
  show ?case
  proof (cases "sees os d w \<or> i + 1 \<ge> CHECK_LENGTH")
    case True
    then have "spin_descriptor os d i w = loads os d 1 w"
      by (auto simp: spin_stops spin_last)
    then show ?thesis
      using Suc.prems by (intro exI [of _ 1]) simp
  next
    case False
    then have "i + 1 < CHECK_LENGTH" and "m = CHECK_LENGTH - (i + 1)"
      using Suc.hyps(2) by simp_all
    then obtain k where "k \<le> m"
      "spin_descriptor os d (i + 1) (snd (os_load64 os d w)) = loads os d k (snd (os_load64 os d w))"
      using Suc.hyps(1) [of "i + 1"] by blast
    then show ?thesis
      using False Suc.hyps(2) by (intro exI [of _ "Suc k"]) (simp add: spin_goes_on)
  qed
qed simp

text \<open>
  The interface of an unbounded polling loop over the world: it stops in a \<open>ready\<close> world,
  goes on from the next one otherwise, and returns only if some world it visits is ready.
\<close>

locale poll_loop =
  fixes loop :: "'w \<Rightarrow> 'r option"
    and ready :: "'w \<Rightarrow> bool"
    and final :: "'w \<Rightarrow> 'r"
    and step :: "'w \<Rightarrow> 'w"
  assumes loop_ready: "ready w \<Longrightarrow> loop w = Some (final w)"
    and loop_step: "\<not> ready w \<Longrightarrow> loop w = loop (step w)"
    and loop_Some: "loop w = Some r \<Longrightarrow> \<exists>k. ready ((step ^^ k) w)"
begin

lemma found:
  "\<lbrakk>\<forall>j<k. \<not> ready ((step ^^ j) w); ready ((step ^^ k) w)\<rbrakk> \<Longrightarrow> loop w = Some (final ((step ^^ k) w))"
proof (induction k arbitrary: w)
  case (Suc k)
  have shift: "(step ^^ Suc j) w = (step ^^ j) (step w)" for j
    by (simp only: funpow_Suc_right o_apply)
  have "\<not> ready w"
    using Suc.prems(1) by (metis funpow_0 zero_less_Suc)
  then have "loop w = loop (step w)"
    by (rule loop_step)
  moreover have "\<forall>j<k. \<not> ready ((step ^^ j) (step w))"
    using Suc.prems(1) by (metis Suc_mono shift)
  ultimately show ?case
    using Suc.IH [of "step w"] Suc.prems(2) by (simp only: shift)
qed (simp add: loop_ready)

lemma returns_iff: "loop w \<noteq> None \<longleftrightarrow> (\<exists>k. ready ((step ^^ k) w))"
proof
  assume "\<exists>k. ready ((step ^^ k) w)"
  then obtain k where "ready ((step ^^ k) w)" "\<forall>j<k. \<not> ready ((step ^^ j) w)"
    using exists_least_iff [of "\<lambda>k. ready ((step ^^ k) w)"] by blast
  then show "loop w \<noteq> None"
    using found [of k w] by simp
qed (auto intro: loop_Some)

lemma result_ready:
  assumes "loop w = Some r"
  shows "\<exists>k. ready ((step ^^ k) w) \<and> r = final ((step ^^ k) w)"
proof -
  obtain k where "ready ((step ^^ k) w)" "\<forall>j<k. \<not> ready ((step ^^ j) w)"
    using loop_Some [OF assms] exists_least_iff [of "\<lambda>k. ready ((step ^^ k) w)"] by blast
  then show ?thesis
    using found [of k w] assms by auto
qed

end

text \<open>One turn of each of the two loops.\<close>

definition nap :: "'w lite_os \<Rightarrow> c_ptr \<Rightarrow> 'w \<Rightarrow> 'w" where
  "nap os d w = os_usleep os (snd (os_load64 os d w))"

definition replied :: "'w lite_os \<Rightarrow> c_ptr \<Rightarrow> 'w \<Rightarrow> bool" where
  "replied os p w = (fst (os_load32 os p w) \<noteq> SEND_REPLY_WAIT)"

definition reload :: "'w lite_os \<Rightarrow> c_ptr \<Rightarrow> 'w \<Rightarrow> 'w" where
  "reload os p w = snd (os_load32 os p w)"

lemma sleep_returns_sees:
  assumes "sleep_descriptor os d w = Some w'"
  shows "\<exists>k. sees os d ((nap os d ^^ k) w)"
proof (rule sleep_descriptor.raw_induct [where P = "\<lambda>os d w w'. \<exists>k. sees os d ((nap os d ^^ k) w)", OF _ assms])
  fix f os d w w'
  assume IH: "\<And>os d w w'. f os d w = Some w' \<Longrightarrow> \<exists>k. sees os d ((nap os d ^^ k) w)"
    and eq: "(if fst (os_load64 os d w) = 0 then f os d (os_usleep os (snd (os_load64 os d w)))
      else Some (snd (os_load64 os d w))) = Some w'"
  show "\<exists>k. sees os d ((nap os d ^^ k) w)"
  proof (cases "sees os d w")
    case True
    then show ?thesis by (intro exI [of _ 0]) simp
  next
    case False
    then have "f os d (nap os d w) = Some w'"
      using eq by (simp add: sees_def nap_def)
    from IH [OF this] show ?thesis
      by (metis funpow_Suc_right o_apply)
  qed
qed

lemma wait_returns_replied:
  assumes "wait_reply os p w = Some w'"
  shows "\<exists>k. replied os p ((reload os p ^^ k) w)"
proof (rule wait_reply.raw_induct [where P = "\<lambda>os p w w'. \<exists>k. replied os p ((reload os p ^^ k) w)", OF _ assms])
  fix f os p w w'
  assume IH: "\<And>os p w w'. f os p w = Some w' \<Longrightarrow> \<exists>k. replied os p ((reload os p ^^ k) w)"
    and eq: "(if fst (os_load32 os p w) = SEND_REPLY_WAIT then f os p (snd (os_load32 os p w))
      else Some (snd (os_load32 os p w))) = Some w'"
  show "\<exists>k. replied os p ((reload os p ^^ k) w)"
  proof (cases "replied os p w")
    case True
    then show ?thesis by (intro exI [of _ 0]) simp
  next
    case False
    then have "f os p (reload os p w) = Some w'"
      using eq by (simp add: replied_def reload_def)
    from IH [OF this] show ?thesis
      by (metis funpow_Suc_right o_apply)
  qed
qed

interpretation sleeping: poll_loop "sleep_descriptor os d" "sees os d" "\<lambda>w. snd (os_load64 os d w)" "nap os d" for os d
proof unfold_locales
  fix w
  show "sees os d w \<Longrightarrow> sleep_descriptor os d w = Some (snd (os_load64 os d w))"
    by (subst sleep_descriptor.simps) (simp add: sees_def)
  show "\<not> sees os d w \<Longrightarrow> sleep_descriptor os d w = sleep_descriptor os d (nap os d w)"
    by (subst sleep_descriptor.simps) (simp add: sees_def nap_def)
qed (rule sleep_returns_sees)

interpretation waiting: poll_loop "wait_reply os p" "replied os p" "reload os p" "reload os p" for os p
proof unfold_locales
  fix w
  show "replied os p w \<Longrightarrow> wait_reply os p w = Some (reload os p w)"
    by (subst wait_reply.simps) (simp add: replied_def reload_def)
  show "\<not> replied os p w \<Longrightarrow> wait_reply os p w = wait_reply os p (reload os p w)"
    by (subst wait_reply.simps) (simp add: replied_def reload_def)
qed (rule wait_returns_replied)

section \<open>Page rounding\<close>

lemma roundup_page_unat:
  assumes "unat sz + 4095 < 2 ^ 64"
  shows "unat (roundup_page sz) = (unat sz + 4095) div 4096 * 4096"
proof -
  have *: "push_bit PAGE_SHIFT 1 + sz - 1 = sz + 4095"
    by (simp add: PAGE_SHIFT_def)
  have "unat (sz + 4095) = unat sz + 4095"
    using assms by (simp add: unat_word_ariths)
  moreover have "(unat sz + 4095) div 4096 * 4096 < 2 ^ 64"
    using assms by (meson div_times_less_eq_dividend le_less_trans)
  ultimately show ?thesis
    unfolding roundup_page_def *
    by (simp add: PAGE_SHIFT_def drop_bit_eq_div push_bit_eq_mult unat_word_ariths unat_div mult.commute)
qed

end
