(* ===== verification/Messaging.thy ===== *)
theory Messaging
  imports Samples Lite_Facts
begin

text \<open>
  What the message calls of \<open>Lite_Lib\<close> promise: when they return, what they return, and which
  sizes reach the kernel.
\<close>

section \<open>Receiving\<close>

text \<open>The world in which the polling of a receive starts.\<close>

definition after_receive_call ::
  "'w lite_os \<Rightarrow> c_int \<Rightarrow> c_ptr \<Rightarrow> c_int \<Rightarrow> c_ptr \<Rightarrow> c_ptr \<Rightarrow> c_int \<Rightarrow> 'w \<Rightarrow> 'w" where
  "after_receive_call os port ret_addr sz d lp blk w =
     snd (int_syscall os NR_lite_receive_message
       [A32 (pack_port sz port), A64 ret_addr, A64 d, A64 lp, A32 blk, A32 NULL_PRIORITY] (os_store64 os d 0 w))"

text \<open>
  C15: a receive returns exactly when a message comes. Whatever the system call itself
  returned (an error, too), \<open>receive_message_fast\<close> returns if and only if the descriptor is
  seen to be nonzero after some number of naps following the busy polling.
\<close>

theorem receive_returns_iff:
  "lite_receive_message_fast os port ret_addr sz d lp blk w \<noteq> None \<longleftrightarrow>
   (\<exists>k. sees os d ((nap os d ^^ k)
      (spin_descriptor os d 0 (after_receive_call os port ret_addr sz d lp blk w))))"
  unfolding sleeping.returns_iff [symmetric] after_receive_call_def
  by (simp add: lite_receive_message_fast_def Let_def split: prod.split option.split)

text \<open>
  The busy polling is bounded. Before the first nap a receive loads the descriptor at
  least once and at most 100000 times, and it stops at the first load that is not zero.
\<close>

lemma spin_at_most_check_length:
  "\<exists>k. 1 \<le> k \<and> k \<le> 100000 \<and> spin_descriptor os d 0 w = loads os d k w \<and>
     (\<forall>n<100000. (\<forall>j<n. \<not> sees os d (loads os d j w)) \<and> sees os d (loads os d n w) \<longrightarrow>
        spin_descriptor os d 0 w = loads os d (Suc n) w)"
  using spin_bounded [of 0 os d w] spin_found [of _ os d w 0] by (auto simp: CHECK_LENGTH_def)

text \<open>A memory: loads have no effect and a load after a store of another word sees what was there.\<close>

definition plain_memory :: "'w lite_os \<Rightarrow> bool" where
  "plain_memory os = ((\<forall>p w. snd (os_load64 os p w) = w) \<and> (\<forall>p w. snd (os_load32 os p w) = w) \<and>
     (\<forall>p v w. fst (os_load64 os p (os_store64 os p v w)) = v))"

text \<open>
  C16: the result of a receive whose message has come by the first load. The result is that
  of the system call, or \<open>*ret_length\<close> when the call returned a negative number; the
  descriptor of a message that wants no reply (all ones) is replaced by 0 and any other one
  is kept.
\<close>

theorem receive_result:
  assumes "plain_memory os" and "w1 = after_receive_call os port ret_addr sz d lp blk w"
    and "fst (os_load64 os d w1) = desc" and "desc \<noteq> 0"
    and "ret = fst (int_syscall os NR_lite_receive_message
       [A32 (pack_port sz port), A64 ret_addr, A64 d, A64 lp, A32 blk, A32 NULL_PRIORITY] (os_store64 os d 0 w))"
  shows "\<exists>r w2. lite_receive_message_fast os port ret_addr sz d lp blk w = Some (r, w2) \<and>
    r = (if sint ret < 0 then fst (os_load32 os lp w2) else ret) \<and>
    fst (os_load64 os d w2) = (if desc = IMM_SEND_ONLY_FLAG then 0 else desc)"
proof -
  have keep: "snd (os_load64 os p v) = v" "snd (os_load32 os p v) = v" for p v
    using assms(1) by (simp_all add: plain_memory_def)
  have st: "fst (os_load64 os d (os_store64 os d 0 v)) = 0" for v
    using assms(1) by (simp add: plain_memory_def)
  have call: "int_syscall os NR_lite_receive_message
       [A32 (pack_port sz port), A64 ret_addr, A64 d, A64 lp, A32 blk, A32 NULL_PRIORITY] (os_store64 os d 0 w) = (ret, w1)"
    using assms(2,5) by (simp add: after_receive_call_def)
  have "sees os d w1"
    using assms(3,4) by (simp add: sees_def)
  then have poll: "sleep_descriptor os d (spin_descriptor os d 0 w1) = Some w1"
    by (simp add: spin_stops keep sleeping.loop_ready)
  have fin: "finish_receive os ret d lp w1 =
      (let w2 = if desc = IMM_SEND_ONLY_FLAG then os_store64 os d 0 w1 else w1
       in (if sint ret < 0 then fst (os_load32 os lp w2) else ret, w2))"
    using assms(3) keep by (auto simp: finish_receive_def Let_def case_prod_beta prod_eq_iff)
  show ?thesis
    using assms(3) st
    by (auto simp: lite_receive_message_fast_def call poll fin Let_def)
qed

lemma plain_sample [simp]: "plain_memory sample_os"
  by (simp add: plain_memory_def sample_os_def)

theorem receive_result_witness:
  "\<exists>r w2. lite_receive_message_fast sample_os 1 0x5000 64 0x808 0x810 1 sample_start = Some (r, w2) \<and>
     r = 0 \<and> fst (os_load64 sample_os 0x808 w2) = 77"
proof -
  let ?w1 = "after_receive_call sample_os 1 0x5000 64 0x808 0x810 1 sample_start"
  have d: "fst (os_load64 sample_os 0x808 ?w1) = 77"
    by (simp add: after_receive_call_def int_syscall_def sample_os_def sample_kernel_def sample_start_def)
  show ?thesis
    using receive_result [OF plain_sample refl d _ refl]
    by (simp add: int_syscall_def sample_os_def IMM_SEND_ONLY_FLAG_def)
qed

text \<open>
  The recording variant waits for the same message with the same effect, but what it returns
  does not depend on the message: two worlds in which the receive returns differently give
  the same number.
\<close>

lemma record_ignores_message:
  assumes "lite_receive_message_fast os port ra sz d lp blk w = Some (r, w1)"
    and "lite_receive_message_fast os port ra sz d lp blk v = Some (q, v1)"
  shows "lite_receive_message_fast_record os port ra sz d lp blk junk w = Some (n, w1) \<longleftrightarrow>
    lite_receive_message_fast_record os port ra sz d lp blk junk v = Some (n, v1)"
  using assms by (simp add: lite_receive_message_fast_record_def)

section \<open>Sending\<close>

text \<open>
  C27: size and port share a word without loss. For sizes from 0 to the limit and ports below 64 the
  packed word is 64 times the size plus the port, below 2^28, so that equal words come from equal
  sizes and ports; \<open>reply_and_receive_message\<close>, which multiplies where the others shift, hands
  the kernel the same word. A negative size, which passes the limit, is packed into the word
  of another size that is not negative.
\<close>

theorem packed_word_injective:
  assumes "0 \<le> sint sz" and "sint sz < 4194304" and "unat port < 64"
    and "0 \<le> sint sz'" and "sint sz' < 4194304" and "unat port' < 64" and "sint neg < 0"
  shows "unat (pack_port sz port) = 64 * unat sz + unat port \<and> unat (pack_port sz port) < 2 ^ 28 \<and>
    (pack_port sz port = pack_port sz' port' \<longleftrightarrow> sz = sz' \<and> port = port') \<and>
    lite_reply_and_receive_message os addr sz d port ra rsz rd w =
      int_syscall os NR_lite_reply_and_receive_message
        [A64 addr, A32 (pack_port sz port), A64 d, A64 ra, A32 rsz, A64 rd] w \<and>
    lite_send os n port addr neg w = int_syscall os NR_lite_send_reply_imm
      [A32 n, A32 (pack_port (take_bit 26 neg) port), A64 addr, A32 0, A32 0, A32 0] w \<and> 0 \<le> sint (take_bit 26 neg)"
proof -
  note lim = in_limit_unat [OF assms(1)] in_limit_unat [OF assms(4)]
  have small: "unat sz < 4194304" "unat sz' < 4194304"
    using lim assms(2,5) by (simp_all add: too_big_def LIMITATION_def)
  then have w: "unat (pack_port sz port) = 64 * unat sz + unat port" "unat (pack_port sz' port') = 64 * unat sz' + unat port'"
    using assms(3,6) by (intro unat_pack_port; simp)+
  have "pack_port sz port = pack_port sz' port' \<longleftrightarrow> 64 * unat sz + unat port = 64 * unat sz' + unat port'"
    using w by (simp add: word_unat_eq_iff)
  also have "\<dots> \<longleftrightarrow> unat sz = unat sz' \<and> unat port = unat port'"
    using assms(3,6) by presburger
  finally have inj: "pack_port sz port = pack_port sz' port' \<longleftrightarrow> sz = sz' \<and> port = port'"
    by (simp add: word_unat_eq_iff)
  have mul: "sz * IMM_MAX_PORT + port = pack_port sz port"
    by (simp add: pack_port_def IMM_MAX_PORT_def IMM_MAX_PORT_BIT_def push_bit_eq_mult)
  have send: "lite_send os n port addr neg w = int_syscall os NR_lite_send_reply_imm
      [A32 n, A32 (pack_port (take_bit 26 neg) port), A64 addr, A32 0, A32 0, A32 0] w"
    using assms(7) by (simp add: lite_send_def too_big_def LIMITATION_def pack_port_low_bits)
  show ?thesis
    using w(1) small(1) assms(3) inj mul send sint_low_bits [of neg]
    by (simp add: lite_reply_and_receive_message_def)
qed

theorem packed_word_injective_witness:
  "unat (pack_port 4096 9) = 262153 \<and> pack_port 4096 9 \<noteq> pack_port 4096 8 \<and>
   lite_send sample_os 1 9 0x2000 (-67104768) sample_start = int_syscall sample_os NR_lite_send_reply_imm
     [A32 1, A32 (pack_port 4096 9), A64 0x2000, A32 0, A32 0, A32 0] sample_start"
proof -
  have low: "take_bit 26 (-67104768 :: c_int) = 4096"
    by code_simp
  have "(-67104768 :: c_int) = word_of_int (-67104768)"
    by simp
  then have neg: "sint (-67104768 :: c_int) < 0"
    by code_simp
  show ?thesis
    using packed_word_injective [of 4096 9 4096 8 "-67104768" sample_os "0x2000" 0 "0x2000" 64 "0x900" sample_start 1] low neg
    by simp
qed

text \<open>The world after the system call of a send that waits for its reply.\<close>

definition after_send_call ::
  "'w lite_os \<Rightarrow> c_int \<Rightarrow> c_int \<Rightarrow> c_ptr \<Rightarrow> c_int \<Rightarrow> c_ptr \<Rightarrow> c_ptr \<Rightarrow> c_int \<Rightarrow> 'w \<Rightarrow> 'w" where
  "after_send_call os n port addr sz ra rl max_ret w =
     snd (int_syscall os NR_lite_send_reply_imm
       [A32 n, A32 (pack_port sz port), A64 addr, A64 ra, A64 rl, A32 (pack_priority max_ret NULL_PRIORITY)] w)"

text \<open>The first look, after \<open>k\<close> others, that shows a reply.\<close>

definition first_reply :: "'w lite_os \<Rightarrow> c_ptr \<Rightarrow> 'w \<Rightarrow> nat \<Rightarrow> bool" where
  "first_reply os rl w k = (replied os rl ((reload os rl ^^ k) w) \<and> (\<forall>j<k. \<not> replied os rl ((reload os rl ^^ j) w)))"

text \<open>A reply that a look has shown is still there at the next.\<close>

definition replies_stay :: "'w lite_os \<Rightarrow> c_ptr \<Rightarrow> bool" where
  "replies_stay os rl = (\<forall>w. replied os rl w \<longrightarrow> fst (os_load32 os rl (reload os rl w)) = fst (os_load32 os rl w))"

lemma finish_send_stays:
  assumes "replies_stay os rl" and "replied os rl w"
  shows "fst (finish_send os rl (reload os rl w)) = fst (os_load32 os rl w)"
proof -
  have next_look: "fst (os_load32 os rl (reload os rl v)) = fst (os_load32 os rl v) \<and> replied os rl (reload os rl v)"
    if "replied os rl v" for v
    using assms(1) that by (simp add: replies_stay_def replied_def)
  note look = next_look [OF assms(2)]
  note look2 = next_look [OF conjunct2 [OF look]]
  note look3 = next_look [OF conjunct2 [OF look2]]
  show ?thesis
    using look look2 look3 by (simp add: finish_send_def reload_def case_prod_beta)
qed

text \<open>
  C17: a send that waits returns exactly when a reply comes. With both sizes below 4 MB,
  \<open>send_reply_imm_fast\<close> returns if and only if some load of \<open>*ret_length\<close> after the system call differs
  from \<open>SEND_REPLY_WAIT\<close>. What it returns has been read again after the loop; when a reply that was
  seen stays in place, it is the value that ended the loop.
\<close>

theorem send_reply_returns_iff:
  assumes "sint sz < 4194304" and "sint max_ret < 4194304"
    and "w1 = after_send_call os n port addr sz ra rl max_ret w"
  shows "(lite_send_reply_imm_fast os n port addr sz ra rl max_ret w \<noteq> None \<longleftrightarrow>
      (\<exists>k. replied os rl ((reload os rl ^^ k) w1))) \<and>
    (\<forall>k. first_reply os rl w1 k \<longrightarrow> lite_send_reply_imm_fast os n port addr sz ra rl max_ret w =
      Some (finish_send os rl (reload os rl ((reload os rl ^^ k) w1)))) \<and>
    (\<forall>k r w2. first_reply os rl w1 k \<and> replies_stay os rl \<and>
      lite_send_reply_imm_fast os n port addr sz ra rl max_ret w = Some (r, w2) \<longrightarrow>
      r = fst (os_load32 os rl ((reload os rl ^^ k) w1)))"
proof -
  have fast: "lite_send_reply_imm_fast os n port addr sz ra rl max_ret w = map_option (finish_send os rl) (wait_reply os rl w1)"
    using assms by (simp add: lite_send_reply_imm_fast_def after_send_call_def too_big_def LIMITATION_def
        split: prod.split option.split)
  have first: "lite_send_reply_imm_fast os n port addr sz ra rl max_ret w =
      Some (finish_send os rl (reload os rl ((reload os rl ^^ k) w1)))" if "first_reply os rl w1 k" for k
    using waiting.found [of k os rl w1] that by (simp add: fast first_reply_def)
  have res: "r = fst (os_load32 os rl ((reload os rl ^^ k) w1))"
    if "first_reply os rl w1 k" "replies_stay os rl" "lite_send_reply_imm_fast os n port addr sz ra rl max_ret w = Some (r, w2)"
    for k r w2
  proof -
    have "finish_send os rl (reload os rl ((reload os rl ^^ k) w1)) = (r, w2)"
      using first [OF that(1)] that(3) by simp
    then show ?thesis
      using finish_send_stays [OF that(2), of "(reload os rl ^^ k) w1"] that(1) by (simp add: first_reply_def)
  qed
  have iff: "lite_send_reply_imm_fast os n port addr sz ra rl max_ret w \<noteq> None \<longleftrightarrow>
      (\<exists>k. replied os rl ((reload os rl ^^ k) w1))"
    using waiting.returns_iff [of os rl w1] by (simp add: fast)
  show ?thesis
    by (intro conjI allI impI, rule iff, erule first, rule res) simp_all
qed

theorem send_reply_returns_iff_witness:
  "map_option fst (lite_send_reply_imm_fast sample_os 1 1 0x2000 64 0x5000 0x900 64 sample_start) = Some 6"
proof -
  let ?w1 = "after_send_call sample_os 1 1 0x2000 64 0x5000 0x900 64 sample_start"
  have v: "fst (os_load32 sample_os 0x900 ?w1) = 6"
    by (simp add: after_send_call_def int_syscall_def sample_os_def sample_kernel_def
        NR_lite_send_reply_imm_def NR_lite_receive_message_def)
  then have f: "first_reply sample_os 0x900 ?w1 0"
    by (simp add: first_reply_def replied_def SEND_REPLY_WAIT_def)
  have "replies_stay sample_os 0x900"
    by (simp add: replies_stay_def reload_def sample_os_def)
  then show ?thesis
    using send_reply_returns_iff [of 64 64 ?w1 sample_os 1 1 "0x2000" "0x5000" "0x900" sample_start] f v
    by auto
qed

section \<open>Memory\<close>

text \<open>
  Sizes are rounded up to pages. As long as the addition does not wrap around, the
  rounded size is the smallest multiple of 4096 that is not below the size.
\<close>

lemma roundup_page_least:
  assumes "unat sz + 4095 < 2 ^ 64"
  shows "unat sz \<le> unat (roundup_page sz) \<and> unat (roundup_page sz) < unat sz + 4096 \<and>
    unat (roundup_page sz) mod 4096 = 0"
  using roundup_page_unat [OF assms] by (simp, linarith)

end
