(* ===== verification/Requests.thy ===== *)
theory Requests
  imports Client
begin

text \<open>
  The requests that the stubs of \<open>Client\<close> put together, as their receiver reads them: the
  function code, the members of the union, and the strings that \<open>strncpy\<close> copies in.
\<close>

lemmas decoded =
  join_body.decode_request alloc_remote_body.decode_request rdma_body.decode_request
  send_reply_body.decode_request receive_body.decode_request reply_body.decode_request
  register_body.decode_request barrier_body.decode_request query_body.decode_request
  alloc_local_body.decode_request free_local_body.decode_request

lemma strncpy_keeps_code:
  assumes "strncpy_into off src n buf = Some req" and "4 \<le> off"
  shows "get_func_code req = get_func_code buf"
  using assms by (auto simp: strncpy_into_def get_func_code_def get32_def split: if_splits)

lemma req_join_code:
  assumes "length stk = 280" and "req_join input_str eth ib stk = Some req"
  shows "length req = 280" and "get_func_code req = FUNC_userspace_liteapi_join"
  using assms strncpy_keeps_code [of 8 input_str "length input_str" _ req] length_strncpy_into [of 8 input_str _ _ req]
  by (auto simp: req_join_def decoded)

text \<open>What the router reads from the request of \<open>join\<close>.\<close>

lemma req_join_decodes:
  assumes "length stk = 280" and "length input_str \<le> 16" and "req_join input_str eth ib stk = Some req"
  shows "get_join_req req = \<lparr>jo_input_str = input_str @ replicate (16 - length input_str) 0,
    jo_eth_port = eth, jo_ib_port = ib\<rparr>"
proof -
  let ?buf = "put_join_req \<lparr>jo_input_str = replicate 16 0, jo_eth_port = eth, jo_ib_port = ib\<rparr>
      (put_func_code FUNC_userspace_liteapi_join stk)"
  have buf: "length ?buf = 280" "get_join_req ?buf = \<lparr>jo_input_str = replicate 16 0, jo_eth_port = eth, jo_ib_port = ib\<rparr>"
    using assms(1) by (simp_all add: decoded)
  have req: "req = patch 8 input_str ?buf"
    using assms(2,3) buf(1) by (simp add: req_join_def strncpy_into_def split: if_splits)
  show ?thesis
    using buf assms(2) by (simp add: req get_join_req_def get_arr_def get32_def chunk_patch_prefix)
qed

lemma req_join_overflow:
  assumes "length stk = 280" and "20 \<le> length input_str" and "length input_str \<le> 272"
  shows "\<exists>req. req_join input_str eth ib stk = Some req \<and>
    jo_eth_port (get_join_req req) = word_of_nat (le_nat (chunk 16 4 input_str))"
proof -
  let ?buf = "put_join_req \<lparr>jo_input_str = replicate 16 0, jo_eth_port = eth, jo_ib_port = ib\<rparr>
      (put_func_code FUNC_userspace_liteapi_join stk)"
  have buf: "length ?buf = 280"
    using assms(1) by (simp add: decoded)
  have "chunk (8 + 16) 4 (patch 8 input_str ?buf) = chunk 16 4 input_str"
    using assms(2,3) buf by (intro chunk_patch_inside) simp_all
  then show ?thesis
    using assms(3) buf by (simp add: req_join_def strncpy_into_def get_join_req_def get32_def)
qed

text \<open>A name copied over a zeroed array of the request, and what is read back at its offset.\<close>

lemma patched_name:
  assumes "length nm < n" and "off + n \<le> length buf" and "get_arr n off buf = replicate n 0"
  shows "drop off (patch off nm buf) = nm @ 0 # drop (off + length nm + 1) buf"
proof -
  have "get_arr n off buf ! length nm = buf ! (off + length nm)"
    using assms(1,2) by (simp add: get_arr_def chunk_def)
  then have z: "buf ! (off + length nm) = 0"
    using assms(1,3) by simp
  have "drop off (patch off nm buf) = nm @ drop (off + length nm) buf"
    using assms(1,2) by (simp add: patch_def)
  also have "drop (off + length nm) buf = 0 # drop (off + length nm + 1) buf"
    using assms(1,2) z by (subst Cons_nth_drop_Suc [symmetric]) auto
  finally show ?thesis .
qed

lemma name_in_request:
  assumes "strncpy_into 8 nm (length nm) buf = Some req" and "is_cstr nm" and "length nm < 256"
    and "length buf = 280" and "get_arr 256 8 buf = replicate 256 0"
  shows "length req = 280" and "cstr_at 8 req = Some nm" and "get_func_code req = get_func_code buf"
    and "get64 264 req = get64 264 buf" and "get64 272 req = get64 272 buf"
proof -
  have req: "req = patch 8 nm buf"
    using assms(1) by (simp add: strncpy_into_def split: if_splits)
  show "length req = 280"
    using length_strncpy_into [OF assms(1)] assms(4) by simp
  show "cstr_at 8 req = Some nm"
    using patched_name [OF assms(3) _ assms(5)] assms(2,4) unfolding req
    by (intro cstr_at_NulI) simp_all
  show "get_func_code req = get_func_code buf"
    using assms(1) by (rule strncpy_keeps_code) simp
  show "get64 264 req = get64 264 buf" "get64 272 req = get64 272 buf"
    using assms(3,4) by (simp_all add: req get64_def chunk_patch_after)
qed

lemma alloc_local_request:
  assumes "req_alloc_local_mem nm sz stk = Some req" and "is_cstr nm" and "length nm < 256" and "length stk = 280"
  shows "length req = 280" and "cstr_at 8 req = Some nm"
    and "get_func_code req = FUNC_userspace_liteapi_alloc_local_mem"
    and "al_size (get_alloc_local_mem_req req) = sz"
proof -
  let ?buf = "put_alloc_local_mem_req \<lparr>al_name = replicate 256 0, al_size = sz\<rparr>
      (put_func_code FUNC_userspace_liteapi_alloc_local_mem stk)"
  have buf: "length ?buf = 280" "get_func_code ?buf = FUNC_userspace_liteapi_alloc_local_mem"
    "get_alloc_local_mem_req ?buf = \<lparr>al_name = replicate 256 0, al_size = sz\<rparr>"
    using assms(4) by (simp_all add: decoded)
  then have arr: "get_arr 256 8 ?buf = replicate 256 0" and sz: "get64 264 ?buf = sz"
    by (simp_all add: get_alloc_local_mem_req_def)
  note n = name_in_request [OF assms(1) [unfolded req_alloc_local_mem_def] assms(2,3) buf(1) arr]
  show "length req = 280" and "cstr_at 8 req = Some nm"
    and "get_func_code req = FUNC_userspace_liteapi_alloc_local_mem"
    and "al_size (get_alloc_local_mem_req req) = sz"
    using n buf(2) sz by (simp_all add: get_alloc_local_mem_req_def)
qed

lemma free_local_request:
  assumes "req_free_local_mem nm sz addr stk = Some req" and "is_cstr nm" and "length nm < 256" and "length stk = 280"
  shows "length req = 280" and "cstr_at 8 req = Some nm"
    and "get_func_code req = FUNC_userspace_liteapi_free_local_mem"
    and "fl_size (get_free_local_mem_req req) = sz" and "fl_remote_addr (get_free_local_mem_req req) = addr"
proof -
  let ?buf = "put_free_local_mem_req \<lparr>fl_name = replicate 256 0, fl_size = sz, fl_remote_addr = addr\<rparr>
      (put_func_code FUNC_userspace_liteapi_free_local_mem stk)"
  have buf: "length ?buf = 280" "get_func_code ?buf = FUNC_userspace_liteapi_free_local_mem"
    "get_free_local_mem_req ?buf = \<lparr>fl_name = replicate 256 0, fl_size = sz, fl_remote_addr = addr\<rparr>"
    using assms(4) by (simp_all add: decoded)
  then have arr: "get_arr 256 8 ?buf = replicate 256 0" and sz: "get64 264 ?buf = sz" "get64 272 ?buf = addr"
    by (simp_all add: get_free_local_mem_req_def)
  note n = name_in_request [OF assms(1) [unfolded req_free_local_mem_def] assms(2,3) buf(1) arr]
  show "length req = 280" and "cstr_at 8 req = Some nm"
    and "get_func_code req = FUNC_userspace_liteapi_free_local_mem"
    and "fl_size (get_free_local_mem_req req) = sz" and "fl_remote_addr (get_free_local_mem_req req) = addr"
    using n buf(2) sz by (simp_all add: get_free_local_mem_req_def)
qed

text \<open>The request of \<open>register_application\<close>: the numbers, and the bytes from the name on.\<close>

lemma register_request:
  assumes "length stk = 280" and "length nm = unat name_len" and "unat name_len \<le> 32"
  obtains req rest where "req_register_application port maxsz maxuser nm name_len stk = Some req"
    and "length req = 280" and "get_func_code req = FUNC_userspace_liteapi_register_application"
    and "ra_destined_port (get_register_application_req req) = port"
    and "ra_max_size_per_message (get_register_application_req req) = maxsz"
    and "ra_max_user_per_node (get_register_application_req req) = maxuser"
    and "ra_name_len (get_register_application_req req) = name_len"
    and "drop 20 req = nm @ rest" and "take (32 - unat name_len) rest = replicate (32 - unat name_len) 0"
proof -
  let ?buf = "put_register_application_req
      \<lparr>ra_destined_port = port, ra_max_size_per_message = maxsz, ra_max_user_per_node = maxuser,
       ra_name = replicate 32 0, ra_name_len = name_len\<rparr>
      (put_func_code FUNC_userspace_liteapi_register_application stk)"
  let ?req = "patch 20 nm ?buf"
  have buf: "length ?buf = 280" "get_func_code ?buf = FUNC_userspace_liteapi_register_application"
    "get_register_application_req ?buf = \<lparr>ra_destined_port = port, ra_max_size_per_message = maxsz,
      ra_max_user_per_node = maxuser, ra_name = replicate 32 0, ra_name_len = name_len\<rparr>"
    using assms(1) by (simp_all add: decoded)
  show thesis
  proof (rule that)
    show "req_register_application port maxsz maxuser nm name_len stk = Some ?req"
      using assms(2,3) buf(1) strncpy_bytes_exact [of nm]
      by (simp add: req_register_application_def strncpy_into_def)
    show "length ?req = 280"
      using assms(2,3) buf(1) by simp
    show "get_func_code ?req = FUNC_userspace_liteapi_register_application"
      using buf(1,2) assms(2,3) by (simp add: get_func_code_def get32_def chunk_patch_before)
    show "ra_destined_port (get_register_application_req ?req) = port"
      "ra_max_size_per_message (get_register_application_req ?req) = maxsz"
      "ra_max_user_per_node (get_register_application_req ?req) = maxuser"
      "ra_name_len (get_register_application_req ?req) = name_len"
      using buf(1,3) assms(2,3)
      by (simp_all add: get_register_application_req_def get32_def get64_def chunk_patch_before chunk_patch_after)
    show "drop 20 ?req = nm @ drop (20 + length nm) ?buf"
      using buf(1) assms(2,3) by (simp add: patch_def)
    have "take 32 (drop 20 ?buf) = replicate 32 0"
      using buf(3) by (simp add: get_register_application_req_def get_arr_def chunk_def)
    then have "drop (length nm) (take 32 (drop 20 ?buf)) = replicate (32 - unat name_len) 0"
      using assms(2) by simp
    then show "take (32 - unat name_len) (drop (20 + length nm) ?buf) = replicate (32 - unat name_len) 0"
      using assms(2) by (simp add: drop_take add.commute)
  qed
qed

end
