(* ===== verification/Mock_Server.thy ===== *)
theory Mock_Server
  imports Rpc_Link Requests "HOL-Library.Monad_Syntax"
begin

text \<open>
  The mock router of \<open>client/test_server.c\<close>, which answers every request with a constant,
  and the client program \<open>client/test_client.c\<close> that is run against it. The mock runs the
  same connection loop as the router, so it is a second \<open>linked_server\<close>: the stubs of
  \<open>Client\<close> run on it unchanged.
\<close>

section \<open>The switch of the mock\<close>

record mock_locals =
  mk_req :: "byte list"
  mk_rsp :: "byte list"

definition mock_open :: mock_locals where
  "mock_open = \<lparr>mk_req = replicate sizeof_rpc_req_msg 0, mk_rsp = replicate sizeof_rpc_rsp_msg 0\<rparr>"

definition mock_answer :: "mock_locals \<Rightarrow> c_int \<Rightarrow> unit \<Rightarrow> (mock_locals, unit) switch_result" where
  "mock_answer l v s = Respond (l\<lparr>mk_rsp := put_int_rsp v (mk_rsp l)\<rparr>) s"

definition mock_dispatch :: "mock_locals \<Rightarrow> unit \<Rightarrow> (mock_locals, unit) switch_result" where
  "mock_dispatch l s =
     (let c = get_func_code (mk_req l)
      in if c = FUNC_userspace_liteapi_get_node_id then mock_answer l 12 s
         else if c = FUNC_userspace_liteapi_join then mock_answer l 12 s
         else if c = FUNC_userspace_liteapi_alloc_remote_mem then mock_answer l 13 s
         else if c = FUNC_userspace_liteapi_rdma_write then mock_answer l (-1) s
         else if c = FUNC_userspace_liteapi_rdma_read then mock_answer l (-2) s
         else if c = FUNC_userspace_liteapi_send_reply_imm_fast then mock_answer l 1024 s
         else if c = FUNC_userspace_liteapi_receive_message_fast
         then mock_answer (l\<lparr>mk_rsp := put_ret_length 1919 (put_descriptor 114514 (mk_rsp l))\<rparr>) 512 s
         else if c = FUNC_userspace_liteapi_reply_message then mock_answer l (-4) s
         else if c = FUNC_userspace_liteapi_register_application then mock_answer l (-10) s
         else if c = FUNC_userspace_liteapi_dist_barrier then mock_answer l (-7) s
         else if c = FUNC_userspace_liteapi_query_port then mock_answer l (-9) s
         else if c = FUNC_userspace_liteapi_alloc_local_mem
         then mock_answer (l\<lparr>mk_rsp := put_remote_addr 0x100 (mk_rsp l)\<rparr>) 0 s
         else if c = FUNC_userspace_liteapi_free_local_mem then mock_answer l (-1) s
         else Unknown_Code)"

definition mock_fill :: "mock_locals \<Rightarrow> byte list \<Rightarrow> mock_locals" where
  "mock_fill l data = l\<lparr>mk_req := recv_into data (mk_req l)\<rparr>"

definition mock_session_step ::
  "session_event \<Rightarrow> (mock_locals, unit) conn \<Rightarrow> (mock_locals, unit) conn" where
  "mock_session_step = session_step mock_fill mk_rsp mock_dispatch"

definition mock_linv :: "mock_locals \<Rightarrow> bool" where
  "mock_linv l = (length (mk_req l) = 280 \<and> length (mk_rsp l) = 24)"

lemma mock_answer_Respond:
  "mock_answer l v s = Respond l' s' \<longleftrightarrow> l' = l\<lparr>mk_rsp := put_int_rsp v (mk_rsp l)\<rparr>"
  by (auto simp: mock_answer_def)

interpretation mock_link: linked_server mock_fill mk_rsp mock_dispatch mock_linv
proof unfold_locales
  show "mock_linv l'" if "mock_linv l" and "mock_dispatch l s = Respond l' s'" for l s l' s'
    using that by (auto simp: mock_dispatch_def Let_def mock_answer_Respond mock_linv_def rsp_fields
        split: if_splits)
qed (auto simp: mock_fill_def mock_linv_def)

section \<open>A client of the mock\<close>

type_synonym mlink = "(mock_locals, unit) slink"

definition on_mock :: "mlink client_env \<Rightarrow> mlink client_env" where
  "on_mock = linked mock_session_step"

definition mlink_ready :: "mlink client_shared \<Rightarrow> bool" where
  "mlink_ready = slink_ready mock_linv"

interpretation via_mock: rpc_service "on_mock env" mlink_ready "slink_serve mock_fill mk_rsp mock_dispatch" for env
  unfolding on_mock_def mlink_ready_def mock_session_step_def
  by (rule mock_link.link.rpc_service_axioms)

lemma mock_fill_full: "length (mk_req l) = 280 \<Longrightarrow> length req = 280 \<Longrightarrow> mock_fill l req = l\<lparr>mk_req := req\<rparr>"
  by (simp add: mock_fill_def)

text \<open>The results in all answers so far.\<close>

definition results :: "mlink client_shared \<Rightarrow> c_int list" where
  "results s = map get_int_rsp (outbox (sk_conn (snd s)))"

text \<open>What a stub gets for a request, in terms of the switch.\<close>

lemma mock_handled:
  assumes "mlink_ready s" and "length req = 280" and "length buf = 24"
    and "mock_dispatch ((locals (sk_conn (snd s)))\<lparr>mk_req := req\<rparr>) () = mock_answer l v ()"
    and "length (mk_rsp l) = 24"
  shows "\<exists>s'. rpc_handler (on_mock env) req buf s = (0, put_int_rsp v (mk_rsp l), s') \<and> mlink_ready s' \<and>
    results s' = results s @ [v]"
proof -
  let ?s' = "(fst s, slink_done (l\<lparr>mk_rsp := put_int_rsp v (mk_rsp l)\<rparr>) () (put_int_rsp v (mk_rsp l)) (snd s))"
  have serve: "slink_serve mock_fill mk_rsp mock_dispatch req s = Some (put_int_rsp v (mk_rsp l), ?s')"
    using assms by (simp add: slink_serve_def mlink_ready_def slink_ready_def mock_linv_def mock_fill_full
        mock_answer_def)
  show ?thesis
    using via_mock.handled [OF assms(1-3) serve] via_mock.ready_after [OF assms(1,2) serve] assms(5)
    by (intro exI [of _ ?s']) (simp add: results_def slink_done_def rsp_fields)
qed

lemma mock_call_int:
  assumes "mlink_ready s" and "length req = 280" and "length buf = 24"
    and "\<And>l. mk_req l = req \<Longrightarrow> mock_dispatch l () = mock_answer l v ()"
  shows "\<exists>s'. call_int (on_mock env) req buf s = (v, s') \<and> mlink_ready s' \<and> results s' = results s @ [v]"
proof -
  let ?l = "(locals (sk_conn (snd s)))\<lparr>mk_req := req\<rparr>"
  have "length (mk_rsp ?l) = 24"
    using assms(1) by (simp add: mlink_ready_def slink_ready_def mock_linv_def)
  then show ?thesis
    using mock_handled [OF assms(1-3) assms(4) [of ?l], of env] by (auto simp: call_int_def rsp_fields)
qed

section \<open>The test client\<close>

text \<open>
  \<open>main\<close> of \<open>client/test_join.c\<close>, and of \<open>client/test_client.c\<close>: what they print, line by line. \<open>stk k\<close> is
  what the \<open>k\<close>-th stub of the text finds on its stack.
\<close>

datatype printed = P_int c_int | P_long c_long

definition bytes_of :: "string \<Rightarrow> byte list" where
  "bytes_of s = map of_char s"

definition test_join_main ::
  "'w client_env \<Rightarrow> (nat \<Rightarrow> stack) \<Rightarrow> 'w client_shared \<Rightarrow> (printed list list \<times> 'w client_shared) option" where
  "test_join_main env stk s = do {
     (v0, s) \<leftarrow> c_join env (bytes_of ''172.16.0.254'') 18500 1 (stk 0) s;
     (v1, s) \<leftarrow> Some (c_get_node_id env (stk 1) s);
     Some ([[P_int v0], [P_int v1]], s)
   }"

text \<open>
  \<open>LOG_INFO\<close> of \<open>inc/log.h\<close>. It prints when \<open>LOG_LEVEL\<close> is at least 2, and only then evaluates its
  arguments: a call in them is not made when the level is lower, or not defined (\<open>None\<close>).
\<close>

definition log_info ::
  "int option \<Rightarrow> ('s \<Rightarrow> ('p \<times> 's) option) \<Rightarrow> 's \<Rightarrow> ('p list \<times> 's) option" where
  "log_info level args s =
     (case level of
        None \<Rightarrow> Some ([], s)
      | Some n \<Rightarrow> if 2 \<le> n then do { (v, s) \<leftarrow> args s; Some ([v], s) } else Some ([], s))"

text \<open>A line with the result of one call.\<close>

definition log_call ::
  "int option \<Rightarrow> ('s \<Rightarrow> (c_int \<times> 's) option) \<Rightarrow> 's \<Rightarrow> (printed list list \<times> 's) option" where
  "log_call level call = log_info level (\<lambda>s. do { (v, s) \<leftarrow> call s; Some ([P_int v], s) })"

text \<open>
  Only the calls whose results are stored in \<open>val\<close> are made at every level; the others are
  arguments of \<open>LOG_INFO\<close>.
\<close>

definition test_client_main ::
  "int option \<Rightarrow> 'w client_env \<Rightarrow> (nat \<Rightarrow> stack) \<Rightarrow> 'w client_shared \<Rightarrow>
   (printed list list \<times> 'w client_shared) option" where
  "test_client_main level env stk s = do {
     (p0, s) \<leftarrow> log_call level (c_join env (bytes_of ''127.0.0.1'') 18500 1 (stk 0)) s;
     (p1, s) \<leftarrow> log_call level (\<lambda>s. Some (c_get_node_id env (stk 1) s)) s;
     (p2, s) \<leftarrow> log_call level (\<lambda>s. Some (c_alloc_remote_mem env 1 1024 True 12345 (stk 2) s)) s;
     (p3, s) \<leftarrow> log_call level (\<lambda>s. Some (c_rdma_write env 1122 0x77f 1024 256 12345 (stk 3) s)) s;
     (p4, s) \<leftarrow> log_call level (\<lambda>s. Some (c_rdma_read env 2233 0x1ff 2048 128 54321 (stk 4) s)) s;
     (p5, s) \<leftarrow> log_call level (\<lambda>s. Some (c_send_reply_imm_fast env 2 1 0x100 2048 0x200 0x300 4096 (stk 5) s)) s;
     (val, d, len, s) \<leftarrow> Some (c_receive_message_fast env 1 0x100 1024 1 (stk 6) s);
     (p6, s) \<leftarrow> log_info level (\<lambda>s. Some ([P_int val, P_long d, P_int len], s)) s;
     (p7, s) \<leftarrow> log_call level (\<lambda>s. Some (c_reply_message env 0xf88 128 321 (stk 7) s)) s;
     (p8, s) \<leftarrow> log_call level (c_register_application env 1 256 4 (bytes_of ''hello world'') 11 (stk 8)) s;
     (p9, s) \<leftarrow> log_call level (\<lambda>s. Some (c_dist_barrier env 16 (stk 9) s)) s;
     (p10, s) \<leftarrow> log_call level (\<lambda>s. Some (c_query_port env 2 1 (stk 10) s)) s;
     (a, s) \<leftarrow> c_alloc_local_mem_test env (bytes_of ''SHMALLOC'') 1024 (stk 11) s;
     (let local_addr = (case ao_local a of None \<Rightarrow> 0 | Some p \<Rightarrow> p);
          remote_addr = (case ao_remote a of None \<Rightarrow> 0 | Some p \<Rightarrow> p)
      in do {
        (p11, s) \<leftarrow> log_info level (\<lambda>s. Some ([P_int (ao_ret a), P_long local_addr, P_long remote_addr], s)) s;
        (p12, s) \<leftarrow> log_call level (c_free_local_mem env (bytes_of ''SHMFREE'') 2048 remote_addr (stk 12)) s;
        Some (p0 @ p1 @ p2 @ p3 @ p4 @ p5 @ p6 @ p7 @ p8 @ p9 @ p10 @ p11 @ p12, s)
      })
   }"

text \<open>The stubs on the mock: a stub returns \<open>v\<close> and leaves a ready connection with the answers \<open>rs\<close>.\<close>

definition gives :: "c_int list \<Rightarrow> ('a \<times> mlink client_shared) option \<Rightarrow> 'a \<Rightarrow> bool" where
  "gives rs m v = (\<exists>s'. m = Some (v, s') \<and> mlink_ready s' \<and> results s' = rs)"

lemma gives_bind:
  "\<lbrakk>gives rs m v; \<And>s'. \<lbrakk>mlink_ready s'; results s' = rs\<rbrakk> \<Longrightarrow> gives rs' (f v s') r\<rbrakk> \<Longrightarrow>
   gives rs' (Option.bind m (\<lambda>(x, s'). f x s')) r"
  by (auto simp: gives_def)

lemma gives_call_int:
  assumes "mlink_ready s" and "length req = 280" and "length buf = 24"
    and "\<And>l. mk_req l = req \<Longrightarrow> mock_dispatch l () = mock_answer l v ()"
  shows "gives (results s @ [v]) (Some (call_int (on_mock env) req buf s)) v"
  using mock_call_int [OF assms, of env] by (auto simp: gives_def)

lemma mock_cases:
  "get_func_code (mk_req l) = FUNC_userspace_liteapi_get_node_id \<Longrightarrow> mock_dispatch l s = mock_answer l 12 s"
  "get_func_code (mk_req l) = FUNC_userspace_liteapi_join \<Longrightarrow> mock_dispatch l s = mock_answer l 12 s"
  "get_func_code (mk_req l) = FUNC_userspace_liteapi_alloc_remote_mem \<Longrightarrow> mock_dispatch l s = mock_answer l 13 s"
  "get_func_code (mk_req l) = FUNC_userspace_liteapi_rdma_write \<Longrightarrow> mock_dispatch l s = mock_answer l (-1) s"
  "get_func_code (mk_req l) = FUNC_userspace_liteapi_rdma_read \<Longrightarrow> mock_dispatch l s = mock_answer l (-2) s"
  "get_func_code (mk_req l) = FUNC_userspace_liteapi_send_reply_imm_fast \<Longrightarrow> mock_dispatch l s = mock_answer l 1024 s"
  "get_func_code (mk_req l) = FUNC_userspace_liteapi_receive_message_fast \<Longrightarrow> mock_dispatch l s =
     mock_answer (l\<lparr>mk_rsp := put_ret_length 1919 (put_descriptor 114514 (mk_rsp l))\<rparr>) 512 s"
  "get_func_code (mk_req l) = FUNC_userspace_liteapi_reply_message \<Longrightarrow> mock_dispatch l s = mock_answer l (-4) s"
  "get_func_code (mk_req l) = FUNC_userspace_liteapi_register_application \<Longrightarrow> mock_dispatch l s = mock_answer l (-10) s"
  "get_func_code (mk_req l) = FUNC_userspace_liteapi_dist_barrier \<Longrightarrow> mock_dispatch l s = mock_answer l (-7) s"
  "get_func_code (mk_req l) = FUNC_userspace_liteapi_query_port \<Longrightarrow> mock_dispatch l s = mock_answer l (-9) s"
  "get_func_code (mk_req l) = FUNC_userspace_liteapi_alloc_local_mem \<Longrightarrow> mock_dispatch l s =
     mock_answer (l\<lparr>mk_rsp := put_remote_addr 0x100 (mk_rsp l)\<rparr>) 0 s"
  "get_func_code (mk_req l) = FUNC_userspace_liteapi_free_local_mem \<Longrightarrow> mock_dispatch l s = mock_answer l (-1) s"
  by (simp_all add: mock_dispatch_def func_codes)

lemma length_bytes_of [simp]: "length (bytes_of s) = length s"
  by (simp add: bytes_of_def)

lemma mock_stubs:
  assumes "mlink_ready s" and stk: "stack_ok stk"
  shows "gives (results s @ [12]) (Some (c_get_node_id (on_mock env) stk s)) 12"
    and "gives (results s @ [13]) (Some (c_alloc_remote_mem (on_mock env) n sz fl pw stk s)) 13"
    and "gives (results s @ [-1]) (Some (c_rdma_write (on_mock env) h p sz off pw stk s)) (-1)"
    and "gives (results s @ [-2]) (Some (c_rdma_read (on_mock env) h p sz off pw stk s)) (-2)"
    and "gives (results s @ [1024]) (Some (c_send_reply_imm_fast (on_mock env) n port p sz q len mx stk s)) 1024"
    and "gives (results s @ [-4]) (Some (c_reply_message (on_mock env) p sz d stk s)) (-4)"
    and "gives (results s @ [-7]) (Some (c_dist_barrier (on_mock env) n stk s)) (-7)"
    and "gives (results s @ [-9]) (Some (c_query_port (on_mock env) n port stk s)) (-9)"
  using assms
  unfolding c_get_node_id_def req_get_node_id_def c_alloc_remote_mem_def c_rdma_write_def c_rdma_read_def
    c_send_reply_imm_fast_def c_reply_message_def c_dist_barrier_def c_query_port_def
  by (intro gives_call_int; simp add: stack_ok_def decoded mock_cases)+

lemma mock_join:
  assumes "mlink_ready s" and "stack_ok stk" and "length input_str \<le> 272"
  shows "gives (results s @ [12]) (c_join (on_mock env) input_str eth ib stk s) 12"
proof -
  obtain req where req: "req_join input_str eth ib (stk_req stk) = Some req"
    using assms(2,3) by (auto simp: req_join_def strncpy_into_def stack_ok_def decoded)
  note r = req_join_code [OF _ req]
  have "gives (results s @ [12]) (Some (call_int (on_mock env) req (stk_rsp stk) s)) 12"
    using assms r by (intro gives_call_int) (simp_all add: stack_ok_def mock_cases)
  then show ?thesis
    using req by (simp add: c_join_def)
qed

lemma mock_register:
  assumes "mlink_ready s" and "stack_ok stk" and "length nm = unat len" and "unat len \<le> 32"
  shows "gives (results s @ [-10]) (c_register_application (on_mock env) port maxsz maxuser nm len stk s) (-10)"
proof -
  have s: "length (stk_req stk) = 280" "length (stk_rsp stk) = 24"
    using assms(2) by (simp_all add: stack_ok_def)
  obtain req rest where req: "req_register_application port maxsz maxuser nm len (stk_req stk) = Some req"
    and q: "length req = 280" "get_func_code req = FUNC_userspace_liteapi_register_application"
    by (rule register_request [OF s(1) assms(3,4)])
  have "gives (results s @ [-10]) (Some (call_int (on_mock env) req (stk_rsp stk) s)) (-10)"
    using assms(1) q s by (intro gives_call_int) (simp_all add: mock_cases)
  then show ?thesis
    using req by (simp add: c_register_application_def)
qed

lemma mock_free_local:
  assumes "mlink_ready s" and "stack_ok stk" and "is_cstr nm" and "length nm < 256"
  shows "gives (results s @ [-1]) (c_free_local_mem (on_mock env) nm sz p stk s) (-1)"
proof -
  have s: "length (stk_req stk) = 280" "length (stk_rsp stk) = 24"
    using assms(2) by (simp_all add: stack_ok_def)
  obtain req where req: "req_free_local_mem nm sz p (stk_req stk) = Some req"
    using s assms(4) by (auto simp: req_free_local_mem_def strncpy_into_def decoded)
  note q = free_local_request [OF req assms(3,4) s(1)]
  have "gives (results s @ [-1]) (Some (call_int (on_mock env) req (stk_rsp stk) s)) (-1)"
    using assms(1) q s by (intro gives_call_int) (simp_all add: mock_cases)
  then show ?thesis
    using req by (simp add: c_free_local_mem_def)
qed

lemma mock_receive:
  assumes "mlink_ready s" and "stack_ok stk"
  shows "\<exists>s'. c_receive_message_fast (on_mock env) port p sz blk stk s = (512, 114514, 1919, s') \<and> mlink_ready s' \<and>
    results s' = results s @ [512]"
proof -
  let ?req = "put_receive_message_fast_req
      \<lparr>rm_port = port, rm_ret_addr = p, rm_receive_size = sz, rm_block_call = blk\<rparr>
      (put_func_code FUNC_userspace_liteapi_receive_message_fast (stk_req stk))"
  let ?l = "(locals (sk_conn (snd s)))\<lparr>mk_req := ?req\<rparr>"
  let ?l1 = "?l\<lparr>mk_rsp := put_ret_length 1919 (put_descriptor 114514 (mk_rsp ?l))\<rparr>"
  have s: "length (stk_req stk) = 280" "length (stk_rsp stk) = 24" "length (mk_rsp (locals (sk_conn (snd s)))) = 24"
    using assms by (simp_all add: stack_ok_def mlink_ready_def slink_ready_def mock_linv_def)
  have disp: "mock_dispatch ?l () = mock_answer ?l1 512 ()"
    using s(1) by (simp add: decoded mock_cases)
  show ?thesis
    using mock_handled [OF assms(1) _ s(2) disp, of env] s
    by (auto simp: c_receive_message_fast_def decoded rsp_fields)
qed

lemma mock_alloc_local:
  assumes "mlink_ready s" and "stack_ok stk" and "is_cstr nm" and "length nm < 256"
  shows "gives (results s @ [0]) (c_alloc_local_mem_test (on_mock env) nm sz stk s)
    \<lparr>ao_ret = 0, ao_local = Some 0x900, ao_remote = Some 0x100\<rparr>"
proof -
  have s: "length (stk_req stk) = 280" "length (stk_rsp stk) = 24" "length (mk_rsp (locals (sk_conn (snd s)))) = 24"
    using assms by (simp_all add: stack_ok_def mlink_ready_def slink_ready_def mock_linv_def)
  obtain req where req: "req_alloc_local_mem nm sz (stk_req stk) = Some req"
    using s assms(4) by (auto simp: req_alloc_local_mem_def strncpy_into_def decoded)
  note q = alloc_local_request [OF req assms(3,4) s(1)]
  let ?l = "(locals (sk_conn (snd s)))\<lparr>mk_req := req\<rparr>"
  have disp: "mock_dispatch ?l () = mock_answer (?l\<lparr>mk_rsp := put_remote_addr 0x100 (mk_rsp ?l)\<rparr>) 0 ()"
    using q(3) by (simp add: mock_cases)
  show ?thesis
    using mock_handled [OF assms(1) q(1) s(2) disp, of env] s req
    by (auto simp: c_alloc_local_mem_test_def gives_def rsp_fields)
qed

lemma mock_names: "is_cstr (bytes_of ''SHMALLOC'')" "is_cstr (bytes_of ''SHMFREE'')"
  by (simp_all add: is_cstr_def bytes_of_def)

lemma mock_receive_bind:
  assumes "mlink_ready s" and "stack_ok stk"
    and "\<And>s'. \<lbrakk>mlink_ready s'; results s' = results s @ [512]\<rbrakk> \<Longrightarrow> gives rs (f 512 114514 1919 s') r"
  shows "gives rs (Option.bind (Some (c_receive_message_fast (on_mock env) port p sz blk stk s))
     (\<lambda>(v, d, len, s'). f v d len s')) r"
  using mock_receive [OF assms(1,2), of env port p sz blk] assms(3) by auto

text \<open>The two kinds of \<open>LOG_INFO\<close>.\<close>

lemma log_call_bind:
  "2 \<le> n \<Longrightarrow> Option.bind (log_call (Some n) call s) (\<lambda>(p, s). f p s) = Option.bind (call s) (\<lambda>(v, s). f [[P_int v]] s)"
  by (cases "call s") (auto simp: log_call_def log_info_def)

lemma log_info_bind:
  "2 \<le> n \<Longrightarrow> Option.bind (log_info (Some n) (\<lambda>s. Some (v, s)) s) (\<lambda>(p, s). f p s) = f [v] s"
  by (simp add: log_info_def)

definition log_off :: "int option \<Rightarrow> bool" where
  "log_off level = (case level of None \<Rightarrow> True | Some n \<Rightarrow> n < 2)"

lemma log_info_off: "log_off level \<Longrightarrow> log_info level args s = Some ([], s)"
  by (auto simp: log_info_def log_off_def split: option.splits)

lemma log_call_off: "log_off level \<Longrightarrow> log_call level call s = Some ([], s)"
  by (simp add: log_call_def log_info_off)

lemmas mock_steps =
  mock_stubs [THEN gives_bind] mock_join [THEN gives_bind] mock_register [THEN gives_bind]
  mock_free_local [THEN gives_bind] mock_alloc_local [THEN gives_bind] mock_receive_bind mock_names

text \<open>
  C34: the test client against the mock, at both kinds of log level. Whatever its stubs find on their
  stacks, with a \<open>LOG_LEVEL\<close> of 2 or more \<open>test_client\<close> makes its thirteen calls, all of them
  answered, and prints exactly the values that the mock has for them. At any lower level, which the level 1 of
  the repository's build is, or with none defined, it prints nothing and makes two calls only, the
  receive and \<open>alloc_local_mem_test\<close>: the others are arguments of \<open>LOG_INFO\<close>.
\<close>

theorem test_client_on_mock:
  assumes "mlink_ready s" and "\<And>k. stack_ok (stk k)"
  shows "(\<forall>n. 2 \<le> n \<longrightarrow> (\<exists>s'. test_client_main (Some n) (on_mock env) stk s = Some (
        [[P_int 12], [P_int 12], [P_int 13], [P_int (-1)], [P_int (-2)], [P_int 1024],
         [P_int 512, P_long 114514, P_int 1919], [P_int (-4)], [P_int (-10)], [P_int (-7)], [P_int (-9)],
         [P_int 0, P_long 0x900, P_long 0x100], [P_int (-1)]], s') \<and>
      mlink_ready s' \<and> results s' = results s @ [12, 12, 13, -1, -2, 1024, 512, -4, -10, -7, -9, 0, -1])) \<and>
    (\<forall>level. level = None \<or> (\<exists>n<2. level = Some n) \<longrightarrow>
      (\<exists>s'. test_client_main level (on_mock env) stk s = Some ([], s') \<and>
        mlink_ready s' \<and> results s' = results s @ [512, 0]))"
proof -
  have on: "gives (results s @ [12, 12, 13, -1, -2, 1024, 512, -4, -10, -7, -9, 0, -1])
      (test_client_main (Some n) (on_mock env) stk s)
      [[P_int 12], [P_int 12], [P_int 13], [P_int (-1)], [P_int (-2)], [P_int 1024],
       [P_int 512, P_long 114514, P_int 1919], [P_int (-4)], [P_int (-10)], [P_int (-7)], [P_int (-9)],
       [P_int 0, P_long 0x900, P_long 0x100], [P_int (-1)]]" if "2 \<le> n" for n
    using assms(1) unfolding test_client_main_def Let_def log_call_bind [OF that] log_info_bind [OF that]
    by (intro mock_steps assms(2)) (simp_all add: gives_def)
  obtain s1 where recv: "c_receive_message_fast (on_mock env) 1 0x100 1024 1 (stk 6) s = (512, 114514, 1919, s1)"
    and s1: "mlink_ready s1" "results s1 = results s @ [512]"
    using mock_receive [OF assms(1) assms(2) [of 6], of env] by blast
  have off: "gives (results s @ [512, 0]) (test_client_main level (on_mock env) stk s) []" if "log_off level" for level
    using mock_alloc_local [OF s1(1) assms(2) [of 11] mock_names(1), of env 1024] s1(2)
    unfolding test_client_main_def Let_def log_call_off [OF that] log_info_off [OF that]
    by (auto simp: recv gives_def bytes_of_def)
  have "log_off level" if "level = None \<or> (\<exists>n<2. level = Some n)" for level
    using that by (auto simp: log_off_def)
  then show ?thesis
    using on off unfolding gives_def by (intro conjI allI impI) simp_all
qed

definition mock_start :: "mlink client_shared" where
  "mock_start = (\<lparr>client_sock = 3, client_cid = []\<rparr>, \<lparr>sk_conn = open_conn mock_open (), sk_read = 0\<rparr>)"

theorem test_client_on_mock_witness:
  "\<forall>env. \<exists>out s1 s2. test_client_main (Some 2) (on_mock env) (\<lambda>_. \<lparr>stk_req = replicate 280 0xCC, stk_rsp = replicate 24 0xDD\<rparr>) mock_start
     = Some (out, s1) \<and> hd out = [P_int 12] \<and> length out = 13 \<and>
     test_client_main (Some 1) (on_mock env) (\<lambda>_. \<lparr>stk_req = replicate 280 0xCC, stk_rsp = replicate 24 0xDD\<rparr>) mock_start = Some ([], s2)"
proof -
  have ready: "mlink_ready mock_start"
    by (simp add: mlink_ready_def slink_ready_def mock_linv_def mock_start_def mock_open_def open_conn_def sizeofs)
  have stk: "stack_ok \<lparr>stk_req = replicate 280 0xCC, stk_rsp = replicate 24 0xDD\<rparr>"
    by (simp add: stack_ok_def)
  note p = test_client_on_mock [OF ready stk]
  show ?thesis
    using conjunct1 [OF p, THEN spec [of _ 2]] conjunct2 [OF p, THEN spec [of _ "Some 1"]] by fastforce
qed

end
