(* ===== verification/Accept.thy ===== *)
theory Accept
  imports Samples
begin

text \<open>
  The \<open>main\<close> functions of the three servers, \<open>vcm/vcm.cpp\<close>, \<open>router/test_router.cpp\<close> and
  \<open>client/test_server.c\<close>: bringing up the listening socket, the router's registration before
  it, and the loop of \<open>select\<close>, \<open>accept\<close> and \<open>pthread_create\<close>. The connection threads get
  the address of \<open>main\<close>'s variable \<open>client_sock\<close>; the step relation \<open>race_step\<close> is about the
  order in which it is written and read.
\<close>

section \<open>Bringing up the socket\<close>

record 'w listen_api =
  la_socket :: "'w \<Rightarrow> int \<times> 'w"
  la_unlink :: "string \<Rightarrow> 'w \<Rightarrow> 'w"
  la_bind :: "int \<Rightarrow> 'w \<Rightarrow> int \<times> 'w"
  la_listen :: "int \<Rightarrow> 'w \<Rightarrow> int \<times> 'w"
  la_close :: "int \<Rightarrow> 'w \<Rightarrow> 'w"

text \<open>\<open>None\<close> is \<open>exit(EXIT_FAILURE)\<close>. The vcm has no path to unlink.\<close>

definition bind_listen :: "'w listen_api \<Rightarrow> int \<Rightarrow> 'w \<Rightarrow> int option \<times> 'w" where
  "bind_listen api fd w =
     (case la_bind api fd w of (b, w1) \<Rightarrow>
        if b < 0 then (None, la_close api fd w1)
        else case la_listen api fd w1 of (l, w2) \<Rightarrow>
          if l < 0 then (None, la_close api fd w2) else (Some fd, w2))"


definition unix_listen :: "'w listen_api \<Rightarrow> 'w \<Rightarrow> int option \<times> 'w" where
  "unix_listen api w =
     (case la_socket api w of (fd, w1) \<Rightarrow>
        if fd < 0 then (None, w1) else bind_listen api fd (la_unlink api SERVER_PATH w1))"

text \<open>What the router does before: connect to the vcm, join the cluster. The node id must be 1 to 10.\<close>

definition VCM_ADDRESS :: string where "VCM_ADDRESS = ''172.16.0.254''"

definition router_register ::
  "'w socket_api \<Rightarrow> 'w lite_os \<Rightarrow> routing_state \<Rightarrow> 'w \<Rightarrow> (c_int \<times> routing_state \<times> 'w) option" where
  "router_register api os st w =
     (case vcm_conn api VCM_ADDRESS st w of (r, st1, w1) \<Rightarrow>
        if r < 0 then None
        else case lite_join os (map of_char VCM_ADDRESS) 18500 1 w1 of
            None \<Rightarrow> None
          | Some (nid, w2) \<Rightarrow> if sint nid \<le> 0 \<or> sint nid > 10 then None else Some (nid, st1, w2))"

section \<open>The accept loop\<close>

text \<open>
  One turn of the loop is what \<open>select\<close> returned and, when it returned 1, what \<open>accept\<close> and
  \<open>pthread_create\<close> returned. The latter is 0 or a positive error number. The handler of
  SIGINT clears \<open>keepRunning\<close>; it may run in a turn while \<open>main\<close> waits in \<open>select\<close>, which is then never
  restarted but fails with EINTR, or elsewhere, in another thread or between the calls. (An
  \<open>accept\<close> that it interrupts has failed, too.)
\<close>

datatype sigint = No_signal | In_select | Elsewhere

record poll_event =
  pe_active :: int
  pe_fd :: int
  pe_created :: int
  pe_sigint :: sigint

definition active_fds :: "poll_event \<Rightarrow> int" where
  "active_fds e = (if pe_sigint e = In_select then -1 else pe_active e)"

datatype main_status = Running | Failed | Finished

record listener =
  ls_server :: int
  ls_client :: "int option"
  ls_threads :: "int list"
  ls_accepted :: "int list"
  ls_closed :: "int list"
  ls_keep :: bool
  ls_status :: main_status

definition listener_start :: "bool \<Rightarrow> int \<Rightarrow> listener" where
  "listener_start keep fd = \<lparr>ls_server = fd, ls_client = None, ls_threads = [], ls_accepted = [],
     ls_closed = [], ls_keep = keep, ls_status = Running\<rparr>"

definition give_up :: "int list \<Rightarrow> listener \<Rightarrow> listener" where
  "give_up fds s = s\<lparr>ls_closed := ls_closed s @ fds, ls_status := Failed\<rparr>"

text \<open>
  \<open>ls_threads\<close> are the threads that exist, each with the descriptor that \<open>client_sock\<close>
  had when the thread was created; \<open>ls_keep\<close> is \<open>keepRunning\<close>.
\<close>

definition accept_turn :: "poll_event \<Rightarrow> listener \<Rightarrow> listener" where
  "accept_turn e s0 =
     (let s = s0\<lparr>ls_keep := (ls_keep s0 \<and> pe_sigint e = No_signal)\<rparr>
      in if active_fds e < 0 then give_up [ls_server s] s
      else if active_fds e = 0 then s
      else if active_fds e \<noteq> 1 then give_up [ls_server s] s
      else
        (let fd = pe_fd e; s1 = s\<lparr>ls_client := Some fd\<rparr>
         in if fd < 0 then give_up [ls_server s, fd] s1
            else let s2 = s1\<lparr>ls_accepted := ls_accepted s @ [fd]\<rparr>
            in if pe_created e < 0 then give_up [ls_server s, fd] s2
            else if pe_created e = 0 then s2\<lparr>ls_threads := ls_threads s @ [fd]\<rparr>
            else s2))"

text \<open>
  \<open>while (keepRunning)\<close>. After the loop the listening socket and the last \<open>client_sock\<close> are closed (before the
  first connection \<open>client_sock\<close> is not initialised, and its \<open>close\<close> is left out). The router
  closes its connection to the vcm (\<open>vcm_disconn\<close>) first. A loop that has used up its
  turns and has not been left is still running.
\<close>

definition loop_left :: "listener \<Rightarrow> listener" where
  "loop_left s = s\<lparr>ls_closed := ls_closed s @ [ls_server s] @ (case ls_client s of None \<Rightarrow> [] | Some fd \<Rightarrow> [fd]),
     ls_status := Finished\<rparr>"

fun accept_loop :: "poll_event list \<Rightarrow> listener \<Rightarrow> listener" where
  "accept_loop es s =
     (if \<not> ls_keep s then loop_left s
      else case es of
        [] \<Rightarrow> s
      | e # es' \<Rightarrow> (let s1 = accept_turn e s in if ls_status s1 = Running then accept_loop es' s1 else s1))"

declare accept_loop.simps [simp del]











lemma accept_turn_server [simp]: "ls_server (accept_turn e s) = ls_server s"
  by (simp add: accept_turn_def give_up_def Let_def)


lemma loop_left_simps [simp]:
  "ls_status (loop_left s) = Finished" "ls_server (loop_left s) = ls_server s"
  "ls_threads (loop_left s) = ls_threads s" "ls_accepted (loop_left s) = ls_accepted s"
  by (simp_all add: loop_left_def)









section \<open>The descriptor handed to a thread\<close>

text \<open>
  \<open>pthread_create(..., &client_sock)\<close> passes the address of the loop's variable; the thread
  starts with \<open>int client_sock = *((int *)fd)\<close>. A thread that has not read it yet is
  \<open>None\<close>. The kernel numbers a new connection differently from the accepted ones (none is closed
  meanwhile).
\<close>

record race =
  rc_sock :: int
  rc_pending :: bool
  rc_accepted :: "int list"
  rc_threads :: "int option list"

definition race_init :: race where
  "race_init = \<lparr>rc_sock = 0, rc_pending = False, rc_accepted = [], rc_threads = []\<rparr>"

definition race_accept :: "int \<Rightarrow> race \<Rightarrow> race" where
  "race_accept fd r = r\<lparr>rc_sock := fd, rc_pending := True, rc_accepted := rc_accepted r @ [fd]\<rparr>"

definition race_create :: "race \<Rightarrow> race" where
  "race_create r = r\<lparr>rc_pending := False, rc_threads := rc_threads r @ [None]\<rparr>"

definition race_read :: "nat \<Rightarrow> race \<Rightarrow> race" where
  "race_read k r = r\<lparr>rc_threads := (rc_threads r)[k := Some (rc_sock r)]\<rparr>"

inductive race_step :: "race \<Rightarrow> race \<Rightarrow> bool" where
  rs_accept: "\<lbrakk>\<not> rc_pending r; fd \<notin> set (rc_accepted r)\<rbrakk> \<Longrightarrow> race_step r (race_accept fd r)"
| rs_create: "rc_pending r \<Longrightarrow> race_step r (race_create r)"
| rs_read: "\<lbrakk>k < length (rc_threads r); rc_threads r ! k = None\<rbrakk> \<Longrightarrow> race_step r (race_read k r)"

inductive_cases race_stepE: "race_step r r'"

text \<open>A scheduler that lets a new thread read before the next connection is accepted.\<close>

definition all_read :: "race \<Rightarrow> bool" where
  "all_read r = list_all (\<lambda>t. t \<noteq> None) (rc_threads r)"

inductive prompt_step :: "race \<Rightarrow> race \<Rightarrow> bool" where
  ps_accept: "\<lbrakk>\<not> rc_pending r; all_read r; fd \<notin> set (rc_accepted r)\<rbrakk> \<Longrightarrow> prompt_step r (race_accept fd r)"
| ps_create: "rc_pending r \<Longrightarrow> prompt_step r (race_create r)"
| ps_read: "\<lbrakk>k < length (rc_threads r); rc_threads r ! k = None\<rbrakk> \<Longrightarrow> prompt_step r (race_read k r)"

inductive_cases prompt_stepE: "prompt_step r r'"

lemmas race_ops = race_accept_def race_create_def race_read_def

text \<open>In every order a thread ends up with some accepted connection.\<close>

definition race_inv :: "race \<Rightarrow> bool" where
  "race_inv r = (distinct (rc_accepted r) \<and>
     length (rc_accepted r) = length (rc_threads r) + (if rc_pending r then 1 else 0) \<and>
     (rc_accepted r \<noteq> [] \<longrightarrow> rc_sock r = last (rc_accepted r)) \<and>
     (\<forall>fd. Some fd \<in> set (rc_threads r) \<longrightarrow> fd \<in> set (rc_accepted r)))"

lemma race_inv_init: "race_inv race_init"
  by (simp add: race_inv_def race_init_def)

lemma race_step_inv: "race_inv r \<Longrightarrow> race_step r r' \<Longrightarrow> race_inv r'"
proof (erule race_stepE)
  fix k
  assume inv: "race_inv r" and r': "r' = race_read k r" and k: "k < length (rc_threads r)"
  then have "rc_accepted r \<noteq> []"
    by (auto simp: race_inv_def)
  then have "rc_sock r \<in> set (rc_accepted r)"
    using inv by (simp add: race_inv_def)
  then show "race_inv r'"
    using inv r' set_update_subset_insert [of "rc_threads r" k "Some (rc_sock r)"]
    by (auto simp: race_inv_def race_ops)
qed (auto simp: race_inv_def race_ops)


text \<open>With a prompt scheduler it is its own connection, and unread threads are the newest.\<close>

definition prompt_inv :: "race \<Rightarrow> bool" where
  "prompt_inv r = (race_inv r \<and>
     (\<forall>k<length (rc_threads r). rc_threads r ! k = Some (rc_accepted r ! k) \<or>
        rc_threads r ! k = None \<and> Suc k = length (rc_threads r) \<and> \<not> rc_pending r))"

lemma prompt_is_race: "prompt_step r r' \<Longrightarrow> race_step r r'"
  by (erule prompt_stepE) (auto intro: race_step.intros)

lemma prompt_step_inv: "prompt_inv r \<Longrightarrow> prompt_step r r' \<Longrightarrow> prompt_inv r'"
proof -
  assume inv: "prompt_inv r" and step: "prompt_step r r'"
  have base: "race_inv r'"
    using inv step race_step_inv prompt_is_race unfolding prompt_inv_def by blast
  from step show "prompt_inv r'"
  proof (cases rule: prompt_step.cases)
    case (ps_accept fd)
    have "rc_threads r ! k = Some (rc_accepted r ! k) \<and> k < length (rc_accepted r)" if "k < length (rc_threads r)" for k
      using inv ps_accept that by (force simp: prompt_inv_def all_read_def list_all_length race_inv_def)
    then show ?thesis
      using base ps_accept by (simp add: prompt_inv_def race_ops nth_append)
  next
    case ps_create
    then show ?thesis
      using inv base by (auto simp: prompt_inv_def race_ops nth_append less_Suc_eq)
  next
    case (ps_read k)
    have last: "Suc k = length (rc_threads r)" "\<not> rc_pending r"
      using inv ps_read by (auto simp: prompt_inv_def)
    then have "length (rc_accepted r) - 1 = k" and "rc_accepted r \<noteq> []"
      using inv by (auto simp: prompt_inv_def race_inv_def)
    then have "rc_sock r = rc_accepted r ! k"
      using inv by (simp add: prompt_inv_def race_inv_def last_conv_nth)
    with last show ?thesis
      using inv base ps_read by (auto simp: prompt_inv_def race_ops nth_list_update)
  qed
qed

lemma prompt_reach_inv: "prompt_step\<^sup>*\<^sup>* race_init r \<Longrightarrow> prompt_inv r"
proof (induction rule: rtranclp_induct)
  case base
  show ?case
    using race_inv_init by (simp add: prompt_inv_def race_init_def)
qed (rule prompt_step_inv)

section \<open>The main functions\<close>




text \<open>
  The router's state is its node id and the state of \<open>routing.cpp\<close>; when the loop has been
  left after an interrupt it gives up its connection to the vcm before it closes its own sockets.
\<close>

definition router_main ::
  "'w socket_api \<Rightarrow> 'w lite_os \<Rightarrow> 'w listen_api \<Rightarrow> bool \<Rightarrow> poll_event list \<Rightarrow> routing_state \<Rightarrow> 'w \<Rightarrow>
   (listener option \<times> c_int \<times> routing_state \<times> 'w) option" where
  "router_main sock os api keep es st w =
     (case router_register sock os st w of
        None \<Rightarrow> None
      | Some (nid, st1, w1) \<Rightarrow>
          (case unix_listen api w1 of
             (None, w2) \<Rightarrow> Some (None, nid, st1, w2)
           | (Some fd, w2) \<Rightarrow>
               (let s = accept_loop es (listener_start keep fd);
                    (st2, w3) = (if ls_status s = Finished then vcm_disconn sock st1 w2 else (st1, w2))
                in Some (Some s, nid, st2, fold (la_close api) (ls_closed s) w3))))"

text \<open>\<open>EXIT_SUCCESS\<close> or \<open>EXIT_FAILURE\<close>, nothing while the program runs.\<close>

definition exit_status :: "listener option \<Rightarrow> int option" where
  "exit_status r =
     (case r of
        None \<Rightarrow> Some 1
      | Some s \<Rightarrow> (case ls_status s of Running \<Rightarrow> None | Failed \<Rightarrow> Some 1 | Finished \<Rightarrow> Some 0))"





section \<open>What the servers promise\<close>

text \<open>
  A router serves as a registered node only. When the router gets past its
  registration, the socket to the vcm is open and kept, the address of the cluster manager
  fitted the buffer of \<open>userspace_liteapi_join\<close>, and the node id is between 1 and 10.
\<close>

lemma router_register_ok:
  assumes "router_register api os st w = Some (nid, st', w')"
  shows "1 \<le> sint nid \<and> sint nid \<le> 10 \<and> 0 \<le> vcm_sock st' \<and>
    vid_nid_map_cache st' = vid_nid_map_cache st \<and> cid_vid_map st' = cid_vid_map st \<and>
    (\<exists>w1. lite_join os (map of_char VCM_ADDRESS) 18500 1 w1 = Some (nid, w'))"
  using assms
  by (auto simp: router_register_def vcm_conn_def vcm_disconn_def Let_def split: prod.splits if_splits option.splits)





text \<open>
  The router's \<open>main\<close>: it serves only as a registered node; when it exits with 0 it has given
  up the vcm, on every other way out it has not; its maps are kept.
\<close>

lemma router_main_registered:
  assumes "router_main sock os api keep es st w = Some (r, nid, st', w')"
  shows "1 \<le> sint nid \<and> sint nid \<le> 10 \<and> cid_vid_map st' = cid_vid_map st \<and>
    vid_nid_map_cache st' = vid_nid_map_cache st \<and> (exit_status r = Some 0 \<longrightarrow> vcm_sock st' = -1) \<and>
    (exit_status r \<noteq> Some 0 \<longrightarrow> 0 \<le> vcm_sock st')"
proof -
  obtain st1 w1 where reg: "router_register sock os st w = Some (nid, st1, w1)"
    using assms by (auto simp: router_main_def Let_def split: option.splits prod.splits)
  show ?thesis
    using assms router_register_ok [OF reg]
    by (auto simp: router_main_def reg Let_def vcm_disconn_def exit_status_def
        split: option.splits prod.splits if_splits main_status.splits)
qed

text \<open>
  A thread that could not be created goes unnoticed. \<open>pthread_create\<close> reports an error by
  a positive number, the test is for a negative one: the accepted connection gets no thread,
  is not closed, and the loop goes on.
\<close>

lemma failed_thread_unnoticed:
  assumes "active_fds e = 1" and "0 \<le> pe_fd e" and "0 < pe_created e" and "pe_sigint e = No_signal"
  shows "accept_turn e s = s\<lparr>ls_client := Some (pe_fd e), ls_accepted := ls_accepted s @ [pe_fd e]\<rparr> \<and>
    ls_threads (accept_turn e s) = ls_threads s \<and> ls_closed (accept_turn e s) = ls_closed s \<and>
    ls_status (accept_turn e s) = ls_status s"
  using assms by (simp add: accept_turn_def Let_def)



text \<open>
  With a prompt scheduler there is no race. If every new thread reads the variable
  before the next \<open>accept\<close>, then in every reachable state thread \<open>k\<close> has read, if anything,
  the descriptor of the \<open>k\<close>-th connection, and no two threads the same one.
\<close>

lemma prompt_threads_own_connection:
  assumes "prompt_step\<^sup>*\<^sup>* race_init r" and "k < length (rc_threads r)" and "rc_threads r ! k = Some fd"
  shows "k < length (rc_accepted r) \<and> fd = rc_accepted r ! k \<and>
    (\<forall>j<length (rc_threads r). rc_threads r ! j = Some fd \<longrightarrow> j = k)"
proof -
  have inv: "prompt_inv r"
    by (rule prompt_reach_inv [OF assms(1)])
  then have own: "rc_threads r ! j = Some c \<Longrightarrow> c = rc_accepted r ! j \<and> j < length (rc_accepted r)"
    if "j < length (rc_threads r)" for j c
    using that by (force simp: prompt_inv_def race_inv_def)
  have "distinct (rc_accepted r)"
    using inv by (simp add: prompt_inv_def race_inv_def)
  then show ?thesis
    using own [OF assms(2,3)] own by (metis nth_eq_iff_index_eq)
qed

end
