(* ===== verification/Bench.thy ===== *)
theory Bench
  imports Samples Lite_Facts
begin

unbundle bit_operations_syntax

text \<open>
  The benchmark \<open>client/test_rpc.c\<close>: its options, the ports of its two sides, the checked
  call \<open>async_rpc\<close>, the poll slots of a batch of asynchronous calls and its clock
  arithmetic. The functions that repeat these calls are in \<open>Bench_Rpc\<close>.
\<close>

section \<open>Options\<close>

text \<open>What \<open>getopt_long\<close> returned, a numeric argument as the \<open>unsigned long\<close> of \<open>strtoul\<close>.\<close>

datatype bench_opt = Opt_server | Opt_client | Opt_async_latency
  | Opt_async_batch c_long | Opt_remote_nid c_long | Opt_thread c_long | Opt_unknown

record bench_config =
  bc_server :: bool
  bc_client :: bool
  bc_latency :: bool
  bc_batch :: c_int
  bc_remote_nid :: c_int
  bc_threads :: c_int

definition bench_defaults :: bench_config where
  "bench_defaults = \<lparr>bc_server = False, bc_client = False, bc_latency = False, bc_batch = 32,
     bc_remote_nid = -1, bc_threads = 1\<rparr>"

definition ASYNC_BATCH_LIMIT :: c_int where "ASYNC_BATCH_LIMIT = 1024"

text \<open>The loop over the options; \<open>None\<close> is \<open>return -1\<close>.\<close>

fun parse_opts :: "bench_opt list \<Rightarrow> bench_config \<Rightarrow> bench_config option" where
  "parse_opts [] c = Some c"
| "parse_opts (Opt_server # os) c = parse_opts os (c\<lparr>bc_server := True\<rparr>)"
| "parse_opts (Opt_client # os) c = parse_opts os (c\<lparr>bc_client := True\<rparr>)"
| "parse_opts (Opt_async_latency # os) c = parse_opts os (c\<lparr>bc_latency := True\<rparr>)"
| "parse_opts (Opt_async_batch n # os) c =
     (if (ucast n :: c_int) > ASYNC_BATCH_LIMIT then None else parse_opts os (c\<lparr>bc_batch := ucast n\<rparr>))"
| "parse_opts (Opt_remote_nid n # os) c =
     (if (ucast n :: c_int) > 16 then None else parse_opts os (c\<lparr>bc_remote_nid := ucast n\<rparr>))"
| "parse_opts (Opt_thread n # os) c =
     (if (ucast n :: c_int) > 56 then None else parse_opts os (c\<lparr>bc_threads := ucast n\<rparr>))"
| "parse_opts (Opt_unknown # os) c = None"

definition bench_main :: "bench_opt list \<Rightarrow> bench_config option" where
  "bench_main os =
     (case parse_opts os bench_defaults of
        None \<Rightarrow> None
      | Some c \<Rightarrow>
          if \<not> bc_server c \<and> \<not> bc_client c then None
          else if bc_client c \<and> bc_remote_nid c = -1 then None
          else if bc_server c \<and> bc_remote_nid c = -1 then None
          else Some c)"

definition bench_ok :: "bench_config \<Rightarrow> bool" where
  "bench_ok c = (bc_batch c \<le> ASYNC_BATCH_LIMIT \<and> (bc_remote_nid c = -1 \<or> bc_remote_nid c \<le> 16) \<and> bc_threads c \<le> 56)"

lemma parse_opts_ok: "\<lbrakk>parse_opts os c = Some c'; bench_ok c\<rbrakk> \<Longrightarrow> bench_ok c'"
  by (induction os c rule: parse_opts.induct) (auto simp: bench_ok_def not_less split: if_splits)

section \<open>Ports\<close>

record thread_info =
  ti_inbound_port :: c_int
  ti_outbound_port :: c_int
  ti_tid :: c_int
  ti_remote_nid :: c_int

definition base_port :: c_int where "base_port = 1"

definition bench_threads :: "bool \<Rightarrow> c_int \<Rightarrow> nat \<Rightarrow> thread_info list" where
  "bench_threads server_mode remote_node nr_threads =
     map (\<lambda>i. if server_mode
           then \<lparr>ti_inbound_port = base_port, ti_outbound_port = base_port + 1,
                 ti_tid = word_of_nat i, ti_remote_nid = remote_node\<rparr>
           else \<lparr>ti_inbound_port = base_port + 1, ti_outbound_port = base_port,
                 ti_tid = word_of_nat i, ti_remote_nid = remote_node\<rparr>) [0..<nr_threads]"

section \<open>Asynchronous calls\<close>

definition EINVAL :: c_int where "EINVAL = 22"
definition MAX_BUF_SIZE :: int where "MAX_BUF_SIZE = 1024 * 1024 * 4"

definition async_rpc ::
  "'w client_env \<Rightarrow> c_int \<Rightarrow> c_int \<Rightarrow> c_ptr \<Rightarrow> c_int \<Rightarrow> c_ptr \<Rightarrow> c_ptr \<Rightarrow> c_int \<Rightarrow> stack \<Rightarrow>
   'w client_shared \<Rightarrow> c_int \<times> 'w client_shared" where
  "async_rpc env dst_nid dst_port buf buf_size ret_buf ret_size_ptr max_ret_size stk s =
     (if sint buf_size \<ge> MAX_BUF_SIZE \<or> sint max_ret_size \<ge> MAX_BUF_SIZE then (- EINVAL, s)
      else case c_send_reply_imm_fast env dst_nid dst_port buf buf_size ret_buf ret_size_ptr
             max_ret_size stk s of (_, s') \<Rightarrow> (0, s'))"

definition async_rpc_completed :: "c_int \<Rightarrow> bool" where
  "async_rpc_completed poll = (if poll = SEND_REPLY_WAIT then False else True)"

text \<open>
  \<open>wait_for_completion\<close>: spins on \<open>*poll\<close>; after five seconds every turn prints a line.
  The result counts the lines; \<open>start\<close> is \<open>None\<close> while \<open>saved_ts\<close> is false.
\<close>

definition WAIT_COMPLETION_TIMEOUT_S :: int where "WAIT_COMPLETION_TIMEOUT_S = 5"

definition wait_turn :: "('w \<Rightarrow> int \<times> 'w) \<Rightarrow> int option \<times> nat \<times> 'w \<Rightarrow> int option \<times> nat \<times> 'w" where
  "wait_turn clock s =
     (case s of (start, printed, w) \<Rightarrow>
        (case (case start of None \<Rightarrow> clock w | Some t \<Rightarrow> (t, w)) of (t, w1) \<Rightarrow>
          case clock w1 of (now, w2) \<Rightarrow>
            (Some t, (if now - t > WAIT_COMPLETION_TIMEOUT_S then Suc printed else printed), w2)))"

partial_function (option) wait_for_completion ::
  "'w lite_os \<Rightarrow> ('w \<Rightarrow> int \<times> 'w) \<Rightarrow> c_ptr \<Rightarrow> int option \<times> nat \<times> 'w \<Rightarrow> (nat \<times> 'w) option" where
  "wait_for_completion os clock poll s =
     (case os_load32 os poll (snd (snd s)) of (v, w) \<Rightarrow>
        if async_rpc_completed v then Some (fst (snd s), w)
        else wait_for_completion os clock poll (wait_turn clock (fst s, fst (snd s), w)))"

definition wait_start :: "'w \<Rightarrow> int option \<times> nat \<times> 'w" where
  "wait_start w = (None, 0, w)"

text \<open>The loop as a \<open>poll_loop\<close>: a turn loads the word and, when it is still waiting, the clock.\<close>

definition completed :: "'w lite_os \<Rightarrow> c_ptr \<Rightarrow> int option \<times> nat \<times> 'w \<Rightarrow> bool" where
  "completed os p s = async_rpc_completed (fst (os_load32 os p (snd (snd s))))"

definition spin_turn ::
  "'w lite_os \<Rightarrow> ('w \<Rightarrow> int \<times> 'w) \<Rightarrow> c_ptr \<Rightarrow> int option \<times> nat \<times> 'w \<Rightarrow> int option \<times> nat \<times> 'w" where
  "spin_turn os clock p s = wait_turn clock (fst s, fst (snd s), snd (os_load32 os p (snd (snd s))))"

lemma completion_returns:
  assumes "wait_for_completion os clock p s = Some r"
  shows "\<exists>k. completed os p ((spin_turn os clock p ^^ k) s)"
proof (rule wait_for_completion.raw_induct
    [where P = "\<lambda>os clock p s r. \<exists>k. completed os p ((spin_turn os clock p ^^ k) s)", OF _ assms])
  fix f os clock p s r
  assume IH: "\<And>os clock p s r. f os clock p s = Some r \<Longrightarrow> \<exists>k. completed os p ((spin_turn os clock p ^^ k) s)"
    and eq: "(case os_load32 os p (snd (snd s)) of (v, w) \<Rightarrow>
        if async_rpc_completed v then Some (fst (snd s), w)
        else f os clock p (wait_turn clock (fst s, fst (snd s), w))) = Some r"
  show "\<exists>k. completed os p ((spin_turn os clock p ^^ k) s)"
  proof (cases "completed os p s")
    case True
    then show ?thesis by (intro exI [of _ 0]) simp
  next
    case False
    then have "f os clock p (spin_turn os clock p s) = Some r"
      using eq by (simp add: completed_def spin_turn_def case_prod_beta)
    from IH [OF this] show ?thesis
      by (metis funpow_Suc_right o_apply)
  qed
qed

text \<open>The result pairs the printed lines with the world, as a state without its start time.\<close>

definition completion_result :: "'w lite_os \<Rightarrow> c_ptr \<Rightarrow> int option \<times> nat \<times> 'w \<Rightarrow> nat \<times> 'w" where
  "completion_result os p s = (fst (snd s), snd (os_load32 os p (snd (snd s))))"

interpretation completion: poll_loop "wait_for_completion os clock p" "completed os p" "completion_result os p"
  "spin_turn os clock p" for os clock p
proof unfold_locales
  fix s
  show "completed os p s \<Longrightarrow> wait_for_completion os clock p s = Some (completion_result os p s)"
    by (subst wait_for_completion.simps) (simp add: completed_def completion_result_def case_prod_beta)
  show "\<not> completed os p s \<Longrightarrow> wait_for_completion os clock p s = wait_for_completion os clock p (spin_turn os clock p s)"
    by (subst wait_for_completion.simps) (simp add: completed_def spin_turn_def case_prod_beta)
qed (rule completion_returns)

text \<open>The poll slot of call \<open>i\<close>, when a batch is checked, and the slots that are polled then.\<close>

definition rpc_slot :: "c_int \<Rightarrow> c_int \<Rightarrow> c_int" where
  "rpc_slot i batch = i mod batch"

definition batch_due :: "c_int \<Rightarrow> c_int \<Rightarrow> bool" where
  "batch_due i batch = (i mod batch = 0 \<and> i \<noteq> 0)"

definition polled_slots :: "c_int \<Rightarrow> c_int \<Rightarrow> c_int list" where
  "polled_slots i batch =
     (let base = i - batch in map (\<lambda>k. (base + word_of_nat k) AND batch) [0..<unat batch])"

lemma and_two_power: "(x :: c_int) AND 2 ^ m = (if bit x m then 2 ^ m else 0)"
  by (rule bit_word_eqI) (auto simp: bit_simps)

lemma unat_two_power: "m \<le> 10 \<Longrightarrow> unat ((2 :: c_int) ^ m) = 2 ^ m"
proof -
  assume "m \<le> 10"
  then have "(2 :: nat) ^ m < 2 ^ 32"
    by (intro power_strict_increasing) simp_all
  then have "unat (word_of_nat (2 ^ m) :: c_int) = 2 ^ m"
    by (simp add: unat_of_nat del: of_nat_power)
  then show ?thesis
    by simp
qed

lemma polled_power_of_two:
  assumes "m \<le> 10" and "unat i = q * 2 ^ m" and "0 < q"
  shows "polled_slots i (2 ^ m) = replicate (2 ^ m) (if odd (q - 1) then 2 ^ m else 0)"
proof -
  have b: "unat ((2 :: c_int) ^ m) = 2 ^ m"
    using assms(1) by (rule unat_two_power)
  have slot: "(i - 2 ^ m + word_of_nat k) AND 2 ^ m = (if odd (q - 1) then 2 ^ m else 0)" if "k < 2 ^ m" for k
  proof -
    obtain p where p: "q = Suc p"
      using assms(3) by (cases q) auto
    have le: "(2 ^ m :: c_int) \<le> i"
      using b assms(2) p by (simp add: word_le_nat_alt)
    have base: "unat (i - 2 ^ m) = p * 2 ^ m"
      using le b assms(2) p by (simp add: unat_sub)
    have "unat (i - 2 ^ m + word_of_nat k) = p * 2 ^ m + k"
    proof -
      have lt: "p * 2 ^ m + k < 2 ^ 32"
        using unat_c_int_less [of i] assms(2) p that by simp
      moreover have "unat (word_of_nat k :: c_int) = k"
        using lt by (simp add: unat_of_nat)
      ultimately show ?thesis
        using base by (simp add: unat_word_ariths)
    qed
    then have "bit (unat (i - 2 ^ m + word_of_nat k)) m = odd p"
      using that by (simp add: bit_iff_odd)
    then have "bit (i - 2 ^ m + word_of_nat k) m = odd p"
      by (simp add: bit_unsigned_iff)
    then show ?thesis
      by (simp add: and_two_power p)
  qed
  have "map (\<lambda>k. (i - 2 ^ m + word_of_nat k) AND 2 ^ m) [0..<2 ^ m] =
      map (\<lambda>_. if odd (q - 1) then 2 ^ m else 0) [0..<2 ^ m]"
    using slot by (intro map_cong) simp_all
  then show ?thesis
    by (simp only: polled_slots_def Let_def b map_replicate_const length_upt diff_zero)
qed

section \<open>Clock arithmetic\<close>

definition NSEC_PER_SEC :: c_long where "NSEC_PER_SEC = 1000 * 1000 * 1000"

record timespec =
  tv_sec :: c_long
  tv_nsec :: c_long

definition timespec_diff_ns :: "timespec \<Rightarrow> timespec \<Rightarrow> c_long" where
  "timespec_diff_ns end_time start =
     (let e = tv_sec end_time * NSEC_PER_SEC + tv_nsec end_time;
          s = tv_sec start * NSEC_PER_SEC + tv_nsec start
      in e - s)"

text \<open>A time stamp within 292 years of the clock's start, in nanoseconds.\<close>

definition timespec_ns :: "timespec \<Rightarrow> int" where
  "timespec_ns t = sint (tv_sec t) * 1000000000 + sint (tv_nsec t)"

definition timespec_ok :: "timespec \<Rightarrow> bool" where
  "timespec_ok t = (0 \<le> sint (tv_sec t) \<and> sint (tv_sec t) < 9000000000 \<and>
     0 \<le> sint (tv_nsec t) \<and> sint (tv_nsec t) < 1000000000)"

lemma timespec_diff_ns_int:
  assumes "timespec_ok a" and "timespec_ok b"
  shows "sint (timespec_diff_ns a b) = timespec_ns a - timespec_ns b"
proof -
  have w: "timespec_diff_ns a b = word_of_int (timespec_ns a - timespec_ns b)"
    by (simp add: timespec_diff_ns_def timespec_ns_def NSEC_PER_SEC_def Let_def)
  have "(2 :: int) ^ 63 = 9223372036854775808"
    by simp
  then have "\<bar>timespec_ns a - timespec_ns b\<bar> < 2 ^ 63"
    using assms unfolding timespec_ok_def timespec_ns_def by linarith
  then have "signed_take_bit 63 (timespec_ns a - timespec_ns b) = timespec_ns a - timespec_ns b"
    by (intro signed_take_bit_int_eq_self) auto
  then show ?thesis
    by (simp add: w signed_of_int del: of_int_diff)
qed

section \<open>What the benchmark promises\<close>

text \<open>
  The options that get through. When the program goes on to \<open>run\<close>, a mode has been
  chosen, the batch size is at most 1024, the remote node at most 16 and given, and there
  are at most 56 threads.
\<close>

lemma bench_options_checked:
  assumes "bench_main os = Some c"
  shows "(bc_server c \<or> bc_client c) \<and> bc_batch c \<le> 1024 \<and> bc_remote_nid c \<le> 16 \<and> bc_threads c \<le> 56"
proof -
  obtain c0 where p: "parse_opts os bench_defaults = Some c0"
    using assms by (cases "parse_opts os bench_defaults") (simp_all add: bench_main_def)
  then have c: "c = c0" "bc_server c \<or> bc_client c" "bc_remote_nid c \<noteq> -1"
    using assms by (auto simp: bench_main_def split: if_split_asm)
  have "bench_ok bench_defaults"
    by (simp add: bench_ok_def bench_defaults_def ASYNC_BATCH_LIMIT_def)
  then have "bench_ok c"
    using parse_opts_ok [OF p] c(1) by simp
  then show ?thesis
    using c(2,3) unfolding bench_ok_def ASYNC_BATCH_LIMIT_def by blast
qed

text \<open>
  The two sides talk to each other. Whatever their numbers of threads, every thread of
  the server sends to the port on which every thread of the client receives and the other
  way round, and all ports are below the 64 that the library can pack.
\<close>

lemma bench_ports_match:
  assumes "s \<in> set (bench_threads True n1 k1)" and "c \<in> set (bench_threads False n2 k2)"
  shows "ti_outbound_port s = ti_inbound_port c \<and> ti_outbound_port c = ti_inbound_port s \<and>
    ti_inbound_port s \<noteq> ti_inbound_port c \<and> unat (ti_inbound_port s) < 64 \<and> unat (ti_inbound_port c) < 64"
  using assms by (auto simp: bench_threads_def base_port_def)

text \<open>
  \<open>async_rpc\<close> refuses what the library would refuse, with its own error code and before
  any request is sent, and otherwise makes one call and returns 0, whatever the call returns.
\<close>

lemma async_rpc_guard:
  "async_rpc env nid port buf sz ret_buf ret_ptr max_ret stk s =
    (if too_big sz \<or> too_big max_ret then (-22, s)
     else (0, snd (c_send_reply_imm_fast env nid port buf sz ret_buf ret_ptr max_ret stk s)))"
  by (simp add: async_rpc_def too_big_def MAX_BUF_SIZE_def LIMITATION_def EINVAL_def split: prod.split)

text \<open>
  The batch check does not look at the batch. With the default batch size or any other
  power of two (up to 1024), when call \<open>i\<close> completes the \<open>q\<close>-th batch, all polled slots are
  one and the same: slot 0 for odd \<open>q\<close>, and for even \<open>q\<close> the slot just behind the array, which has the
  slots 0 to \<open>batch - 1\<close> that the calls use.
\<close>

lemma batch_check_slot:
  assumes "m \<le> 10" and "unat i = q * 2 ^ m" and "0 < q"
  shows "batch_due i (2 ^ m) \<and> set (polled_slots i (2 ^ m)) = {if even q then 2 ^ m else 0} \<and>
    rpc_slot j (2 ^ m) < 2 ^ m"
proof -
  have b: "unat ((2 :: c_int) ^ m) = 2 ^ m"
    using assms(1) by (rule unat_two_power)
  have "unat (i mod 2 ^ m) = 0"
    using assms(2) b by (simp add: unat_mod)
  moreover have "i \<noteq> 0"
    using assms(2,3) by auto
  ultimately have due: "batch_due i (2 ^ m)"
    by (simp add: batch_due_def unat_eq_zero)
  have "unat (j mod 2 ^ m) < unat ((2 :: c_int) ^ m)"
    using b by (simp add: unat_mod)
  then have "rpc_slot j (2 ^ m) < 2 ^ m"
    by (simp add: rpc_slot_def word_less_nat_alt)
  then show ?thesis
    using due polled_power_of_two [OF assms] assms(3) by simp
qed

text \<open>
  \<open>wait_for_completion\<close> returns exactly when a reply comes: if and only if after some
  number of turns the load of the poll word differs from \<open>SEND_REPLY_WAIT\<close>.
\<close>

lemma wait_for_completion_returns_iff:
  "wait_for_completion os clock p (wait_start w) \<noteq> None \<longleftrightarrow>
   (\<exists>k. completed os p ((spin_turn os clock p ^^ k) (wait_start w)))"
  by (rule completion.returns_iff)

text \<open>
  Clock differences are exact. For two time stamps between 0 and 9 * 10^9 seconds,
  \<open>timespec_diff_ns\<close> is the difference in nanoseconds, without overflow of \<open>long\<close>.
\<close>

lemma timespec_diff_exact:
  assumes "timespec_ok a" and "timespec_ok b"
  shows "sint (timespec_diff_ns a b) = timespec_ns a - timespec_ns b"
  using assms by (rule timespec_diff_ns_int)

end
