(* ===== verification/Remote_Calls.thy ===== *)
theory Remote_Calls
  imports Requests Samples Lite_Facts
begin

text \<open>
  A stub called on a client that is connected to the router: the request object written by
  the stub, carried as bytes and read by the router's switch, makes the router call the
  wrapper of the same name, and the stub returns the wrapper's result.
\<close>

section \<open>The switch, case by case\<close>

lemma dispatch_cases:
  "get_func_code (rl_req l) = FUNC_userspace_liteapi_get_node_id \<Longrightarrow> router_dispatch env l s = do_get_node_id env l s"
  "get_func_code (rl_req l) = FUNC_userspace_liteapi_join \<Longrightarrow> router_dispatch env l s = do_join env l s"
  "get_func_code (rl_req l) = FUNC_userspace_liteapi_alloc_remote_mem \<Longrightarrow> router_dispatch env l s = do_alloc_remote_mem env l s"
  "get_func_code (rl_req l) = FUNC_userspace_liteapi_rdma_write \<Longrightarrow> router_dispatch env l s = do_rdma_write env l s"
  "get_func_code (rl_req l) = FUNC_userspace_liteapi_rdma_read \<Longrightarrow> router_dispatch env l s = do_rdma_read env l s"
  "get_func_code (rl_req l) = FUNC_userspace_liteapi_send_reply_imm_fast \<Longrightarrow> router_dispatch env l s = do_send_reply_imm_fast env l s"
  "get_func_code (rl_req l) = FUNC_userspace_liteapi_receive_message_fast \<Longrightarrow> router_dispatch env l s = do_receive_message_fast env l s"
  "get_func_code (rl_req l) = FUNC_userspace_liteapi_reply_message \<Longrightarrow> router_dispatch env l s = do_reply_message env l s"
  "get_func_code (rl_req l) = FUNC_userspace_liteapi_register_application \<Longrightarrow> router_dispatch env l s = do_register_application env l s"
  "get_func_code (rl_req l) = FUNC_userspace_liteapi_dist_barrier \<Longrightarrow> router_dispatch env l s = do_dist_barrier env l s"
  "get_func_code (rl_req l) = FUNC_userspace_liteapi_query_port \<Longrightarrow> router_dispatch env l s = do_query_port env l s"
  "get_func_code (rl_req l) = FUNC_userspace_liteapi_alloc_local_mem \<Longrightarrow> router_dispatch env l s = do_alloc_local_mem env l s"
  "get_func_code (rl_req l) = FUNC_userspace_liteapi_free_local_mem \<Longrightarrow> router_dispatch env l s = do_free_local_mem env l s"
  by (simp_all add: router_dispatch_def func_codes)

lemma router_fill_full:
  "length (rl_req l) = 280 \<Longrightarrow> length req = 280 \<Longrightarrow> router_fill l req = l\<lparr>rl_req := req\<rparr>"
  by (simp add: router_fill_def)

section \<open>One call\<close>

text \<open>What the router answers to a request on a ready link is what the client gets.\<close>

lemma rlink_serve_answer:
  assumes "rlink_ready (cs, l)" and "length req = 280"
    and "router_dispatch renv ((locals (sk_conn l))\<lparr>rl_req := req\<rparr>) (shared (sk_conn l)) =
      answer l1 v (rt, w)"
    and "router_linv l1"
  shows "\<exists>out l'. rlink_serve renv req (cs, l) = Some (out, (cs, l')) \<and> get_int_rsp out = v \<and>
    out = put_int_rsp v (rl_rsp l1) \<and> shared (sk_conn l') = (rt, w) \<and> rl_cid (locals (sk_conn l')) = rl_cid l1 \<and>
    rl_rsp (locals (sk_conn l')) = out"
  using assms router_fill_full [of "locals (sk_conn l)" req]
  by (simp add: rlink_serve_def slink_serve_def rlink_ready_def slink_ready_def router_linv_def
      answer_def slink_done_def rsp_fields)

lemma call_answer:
  assumes "rlink_ready (cs, l)" and "length req = 280" and "length buf = 24"
    and "router_dispatch renv ((locals (sk_conn l))\<lparr>rl_req := req\<rparr>) (shared (sk_conn l)) =
      answer l1 v (rt, w)"
    and "router_linv l1"
  shows "\<exists>out l'. rpc_handler (on_router renv env) req buf (cs, l) = (0, out, (cs, l')) \<and>
    get_int_rsp out = v \<and> out = put_int_rsp v (rl_rsp l1) \<and> rlink_ready (cs, l') \<and>
    shared (sk_conn l') = (rt, w) \<and> rl_cid (locals (sk_conn l')) = rl_cid l1 \<and> rl_rsp (locals (sk_conn l')) = out"
proof -
  obtain out l' where s: "rlink_serve renv req (cs, l) = Some (out, (cs, l'))"
    and o: "get_int_rsp out = v" "out = put_int_rsp v (rl_rsp l1)" "shared (sk_conn l') = (rt, w)"
      "rl_cid (locals (sk_conn l')) = rl_cid l1" "rl_rsp (locals (sk_conn l')) = out"
    using rlink_serve_answer [OF assms(1,2,4,5)] by blast
  show ?thesis
    using via_router.handled [OF assms(1-3) s, of env] via_router.ready_after [OF assms(1,2) s] o by blast
qed

lemma linv_request:
  "rlink_ready (cs, l) \<Longrightarrow> length req = 280 \<Longrightarrow> router_linv ((locals (sk_conn l))\<lparr>rl_req := req\<rparr>)"
  by (simp add: rlink_ready_def slink_ready_def router_linv_def)

text \<open>
  A stub is carried out with a result: it returns the value, the connection is ready for the
  next call of the same container, the router's state is the one that the router's own
  call has left, and of the thread's response object only the result has changed.
\<close>

definition carried ::
  "('w rlink client_shared \<Rightarrow> c_int \<times> 'w rlink client_shared) \<Rightarrow> client_state \<times> 'w rlink \<Rightarrow>
   routing_state \<Rightarrow> c_int \<times> 'w \<Rightarrow> bool" where
  "carried stub s rt res =
     (\<exists>l'. stub s = (fst res, (fst s, l')) \<and> rlink_ready (fst s, l') \<and> shared (sk_conn l') = (rt, snd res) \<and>
        rl_cid (locals (sk_conn l')) = rl_cid (locals (sk_conn (snd s))) \<and>
        rl_rsp (locals (sk_conn l')) = put_int_rsp (fst res) (rl_rsp (locals (sk_conn (snd s)))))"

text \<open>The stubs that return nothing but the result.\<close>

lemma carried_call_int:
  assumes "rlink_ready (cs, l)" and "length req = 280" and "length buf = 24"
    and "router_dispatch renv ((locals (sk_conn l))\<lparr>rl_req := req\<rparr>) (shared (sk_conn l)) =
      answer ((locals (sk_conn l))\<lparr>rl_req := req\<rparr>) (fst res) (rt, snd res)"
  shows "carried (call_int (on_router renv env) req buf) (cs, l) rt res"
  using call_answer [OF assms linv_request [OF assms(1,2)], of env]
  by (auto simp: carried_def call_int_def)

section \<open>Stubs whose case calls one wrapper\<close>

lemma carried_wrappers:
  assumes "rlink_ready (cs, l)" and "stack_ok stk" and "shared (sk_conn l) = (rt, w)"
  shows "carried (c_rdma_write (on_router renv env) h addr sz off pw stk) (cs, l) rt
      (lite_rdma_write (re_lite renv) h addr sz off pw w)"
    and "carried (c_rdma_read (on_router renv env) h addr sz off pw stk) (cs, l) rt
      (lite_rdma_read (re_lite renv) h addr sz off pw w)"
    and "carried (c_reply_message (on_router renv env) addr msz d stk) (cs, l) rt
      (lite_reply_message (re_lite renv) addr msz d w)"
    and "carried (c_dist_barrier (on_router renv env) num stk) (cs, l) rt (lite_dist_barrier (re_lite renv) num w)"
  unfolding c_rdma_write_def c_rdma_read_def c_reply_message_def c_dist_barrier_def
  by (intro carried_call_int; use assms in \<open>simp add: stack_ok_def decoded dispatch_cases
      world_call_def do_rdma_write_def do_rdma_read_def do_reply_message_def do_dist_barrier_def
      split: prod.split\<close>)+

text \<open>
  C12: the memory and message stubs of the client are the router's wrappers. Called over a
  ready connection, whatever the stub finds on its stack, \<open>rdma_write\<close>, \<open>rdma_read\<close>,
  \<open>reply_message\<close> and \<open>dist_barrier\<close> return what the wrapper of the same name returns on the
  router for the same arguments, with its effect on the router's world and no other.
\<close>

theorem remote_wrappers:
  assumes "rlink_ready (cs, l)" and "stack_ok stk" and "shared (sk_conn l) = (rt, w)"
  shows "carried (c_rdma_write (on_router renv env) h addr sz off pw stk) (cs, l) rt
      (lite_rdma_write (re_lite renv) h addr sz off pw w) \<and>
    carried (c_rdma_read (on_router renv env) h addr sz off pw stk) (cs, l) rt
      (lite_rdma_read (re_lite renv) h addr sz off pw w) \<and>
    carried (c_reply_message (on_router renv env) addr sz d stk) (cs, l) rt
      (lite_reply_message (re_lite renv) addr sz d w) \<and>
    carried (c_dist_barrier (on_router renv env) num stk) (cs, l) rt (lite_dist_barrier (re_lite renv) num w)"
  by (intro conjI carried_wrappers [OF assms])

theorem remote_wrappers_witness:
  "carried (c_rdma_write (on_router sample_renv sample_cenv) 1 0x2000 64 0 12345 sample_stack)
     (sample_client, sample_link) (routing_init\<lparr>vcm_sock := 3\<rparr>)
     (0, sample_start\<lparr>sw_calls := [NR_lite_rdma_synwrite]\<rparr>)"
proof -
  have "lite_rdma_write sample_os 1 0x2000 64 0 12345 sample_start =
      (0, sample_start\<lparr>sw_calls := [NR_lite_rdma_synwrite]\<rparr>)"
    by (simp add: lite_rdma_write_def int_syscall_def rdma_args_def sample_os_def sample_kernel_def
        sample_start_def NR_lite_rdma_synwrite_def NR_lite_send_reply_imm_def NR_lite_receive_message_def)
  then show ?thesis
    using remote_wrappers [OF sample_ready sample_stack_ok sample_shared,
        of sample_renv sample_cenv 1 "0x2000" 64 0 12345] by simp
qed

lemma carried_alloc_remote_mem:
  assumes "rlink_ready (cs, l)" and "stack_ok stk" and "shared (sk_conn l) = (rt, w)"
    and "resolve_node renv vid (rt, w) = (nid, (rt', w1))"
  shows "carried (c_alloc_remote_mem (on_router renv env) vid sz flag pw stk) (cs, l) rt'
      (lite_alloc_remote_mem (re_lite renv) nid sz flag pw w1)"
  unfolding c_alloc_remote_mem_def
  by (intro carried_call_int; use assms in \<open>simp add: stack_ok_def decoded dispatch_cases
      world_call_def do_alloc_remote_mem_def split: prod.split\<close>)

lemma carried_query_port:
  assumes "rlink_ready (cs, l)" and "stack_ok stk" and "shared (sk_conn l) = (rt, w)"
    and "resolve_node renv vid (rt, w) = (nid, (rt', w1))"
  shows "carried (c_query_port (on_router renv env) vid port stk) (cs, l) rt' (lite_query_port (re_lite renv) nid port w1)"
  unfolding c_query_port_def
  by (intro carried_call_int; use assms in \<open>simp add: stack_ok_def decoded dispatch_cases
      world_call_def do_query_port_def split: prod.split\<close>)

text \<open>
  The message that \<open>send_reply_imm_fast\<close> sends is not the caller's. Whenever the router's
  wrapper returns, the stub returns its result, but the wrapper is called with \<open>ret_addr\<close>
  for the input address, for every \<open>addr\<close> the caller asks for.
\<close>

lemma remote_send_reply_input:
  assumes "rlink_ready (cs, l)" and "stack_ok stk" and "shared (sk_conn l) = (rt, w)"
    and "resolve_node renv vid (rt, w) = (nid, (rt', w1))"
    and "lite_send_reply_imm_fast (re_lite renv) nid port ret_addr sz ret_addr ret_length max_ret w1 = Some res"
  shows "carried (c_send_reply_imm_fast (on_router renv env) vid port addr sz ret_addr ret_length max_ret stk)
    (cs, l) rt' res"
  unfolding c_send_reply_imm_fast_def using assms
  by (cases res; intro carried_call_int)
     (simp_all add: stack_ok_def decoded dispatch_cases do_send_reply_imm_fast_def)

text \<open>
  C18: a virtual node is translated on the way. \<open>alloc_remote_mem\<close> and \<open>query_port\<close> for the
  node \<open>vid\<close> are carried out by the router's wrappers for the node \<open>nid\<close> that the router
  resolves \<open>vid\<close> to, and so is \<open>send_reply_imm_fast\<close> whenever the wrapper returns, though not with
  the message of the caller: for every \<open>addr\<close> the wrapper is given \<open>ret_addr\<close> as the address of
  the input. A build without containers takes \<open>vid\<close> itself; with containers, a node that has been
  resolved before is taken from the cache, without a message to the vcm.
\<close>

theorem remote_translated:
  assumes "rlink_ready (cs, l)" and "stack_ok stk" and "shared (sk_conn l) = (rt, w)"
    and "resolve_node renv vid (rt, w) = (nid, (rt', w1))"
  shows "carried (c_alloc_remote_mem (on_router renv env) vid sz flag pw stk) (cs, l) rt'
      (lite_alloc_remote_mem (re_lite renv) nid sz flag pw w1) \<and>
    carried (c_query_port (on_router renv env) vid port stk) (cs, l) rt' (lite_query_port (re_lite renv) nid port w1) \<and>
    (\<forall>res. lite_send_reply_imm_fast (re_lite renv) nid port ret_addr n ret_addr ret_length max_ret w1 = Some res \<longrightarrow>
      carried (c_send_reply_imm_fast (on_router renv env) vid port addr n ret_addr ret_length max_ret stk)
        (cs, l) rt' res) \<and>
    (re_no_container renv \<longrightarrow> nid = vid \<and> rt' = rt \<and> w1 = w) \<and>
    (\<forall>n. \<not> re_no_container renv \<and> vid_nid_map_cache rt vid = Some n \<longrightarrow> nid = n \<and> rt' = rt \<and> w1 = w)"
proof -
  have "re_no_container renv \<longrightarrow> nid = vid \<and> rt' = rt \<and> w1 = w"
    using assms(4) by (auto simp: resolve_node_def)
  moreover have "\<forall>n. \<not> re_no_container renv \<and> vid_nid_map_cache rt vid = Some n \<longrightarrow> nid = n \<and> rt' = rt \<and> w1 = w"
    using assms(4) by (auto simp: resolve_node_def vcm_vid_nid_def)
  ultimately show ?thesis
    using carried_alloc_remote_mem [OF assms] carried_query_port [OF assms] remote_send_reply_input [OF assms]
    by blast
qed

theorem remote_translated_witness:
  "carried (c_query_port (on_router sample_renv sample_cenv) 2 9 sample_stack)
     (sample_client, sample_link) (routing_init\<lparr>vcm_sock := 3, vid_nid_map_cache := [2 \<mapsto> 7]\<rparr>)
     (lite_query_port sample_os 7 9 sample_start)"
  using remote_translated [OF sample_ready sample_stack_ok sample_shared sample_lookup [of sample_start], of sample_cenv]
  by simp

text \<open>
  C28: sizes of 4 MB or more never reach the kernel. A \<open>send_reply_imm_fast\<close> of the client with a
  size or a maximal reply size of 4194304 or more, and a \<open>reply_message\<close> of such a size, return -1
  and make no system call; of the router, only the node named has been resolved. One byte less
  passes: the \<open>reply_message\<close> is then the system call with the caller's address and size, and so it is for
  every negative size.
\<close>

theorem oversized_refused:
  assumes "rlink_ready (cs, l)" and "stack_ok stk" and "shared (sk_conn l) = (rt, w)"
    and "resolve_node renv vid (rt, w) = (nid, (rt', w1))"
  shows "(4194304 \<le> sint sz \<or> 4194304 \<le> sint max_ret \<longrightarrow>
      carried (c_send_reply_imm_fast (on_router renv env) vid port addr sz ret_addr ret_length max_ret stk)
        (cs, l) rt' (-1, w1)) \<and>
    (4194304 \<le> sint sz \<longrightarrow> carried (c_reply_message (on_router renv env) addr sz d stk) (cs, l) rt (-1, w)) \<and>
    (sint sz \<le> 4194303 \<longrightarrow> carried (c_reply_message (on_router renv env) addr sz d stk) (cs, l) rt
      (int_syscall (re_lite renv) NR_lite_reply_message [A64 addr, A32 sz, A64 d, A32 NULL_PRIORITY] w))"
proof -
  note reply = carried_wrappers(3) [OF assms(1-3), of renv env addr sz d]
  have big: "too_big n \<longleftrightarrow> 4194304 \<le> sint n" for n
    by (simp add: too_big_def LIMITATION_def)
  have "carried (c_send_reply_imm_fast (on_router renv env) vid port addr sz ret_addr ret_length max_ret stk)
      (cs, l) rt' (-1, w1)" if "4194304 \<le> sint sz \<or> 4194304 \<le> sint max_ret"
    using that by (intro remote_send_reply_input [OF assms]) (simp add: lite_send_reply_imm_fast_def big)
  moreover have "carried (c_reply_message (on_router renv env) addr sz d stk) (cs, l) rt (-1, w)"
    if "4194304 \<le> sint sz"
    using reply that by (simp add: lite_reply_message_def reply_message_call_def big)
  moreover have "carried (c_reply_message (on_router renv env) addr sz d stk) (cs, l) rt
      (int_syscall (re_lite renv) NR_lite_reply_message [A64 addr, A32 sz, A64 d, A32 NULL_PRIORITY] w)"
    if "sint sz \<le> 4194303"
    using reply that by (simp add: lite_reply_message_def reply_message_call_def big)
  ultimately show ?thesis
    by blast
qed

theorem oversized_refused_witness:
  "carried (c_send_reply_imm_fast (on_router sample_renv sample_cenv) 2 9 0x1000 8 0x2000 0x3000 4194304 sample_stack)
     (sample_client, sample_link) (routing_init\<lparr>vcm_sock := 3, vid_nid_map_cache := [2 \<mapsto> 7]\<rparr>) (-1, sample_start)"
proof -
  have "sint (4194304 :: c_int) = 4194304"
    by code_simp
  then show ?thesis
    using oversized_refused [OF sample_ready sample_stack_ok sample_shared sample_lookup [of sample_start], of 8 4194304 sample_cenv]
    by simp
qed

section \<open>Registration of a container\<close>

lemma carried_get_node_id:
  assumes "rlink_ready (cs, l)" and "stack_ok stk" and "shared (sk_conn l) = (rt, w)"
    and "\<not> re_no_container renv"
  shows "carried (c_get_node_id (on_router renv env) stk) (cs, l) rt
    (vcm_get_node_id (rl_cid (locals (sk_conn l))) rt, w)"
  unfolding c_get_node_id_def req_get_node_id_def
  by (intro carried_call_int)
     (use assms in \<open>simp_all add: stack_ok_def decoded dispatch_cases do_get_node_id_def\<close>)

lemma carried_join:
  assumes ready: "rlink_ready (cs, l)" and stk: "stack_ok stk" and sh: "shared (sk_conn l) = (rt, w)"
    and "\<not> re_no_container renv" and len: "length input_str \<le> 272"
    and join: "vcm_join (re_sock renv) (re_nid renv) (rl_cid (locals (sk_conn l))) rt w = (v, rt', w')"
  obtains l' where "c_join (on_router renv env) input_str eth ib stk (cs, l) = Some (v, (cs, l'))"
    and "rlink_ready (cs, l')" and "shared (sk_conn l') = (rt', w')"
    and "rl_cid (locals (sk_conn l')) = rl_cid (locals (sk_conn l))"
proof -
  have s: "length (stk_req stk) = 280" "length (stk_rsp stk) = 24"
    using stk by (simp_all add: stack_ok_def)
  obtain req where req: "req_join input_str eth ib (stk_req stk) = Some req"
    using s len by (auto simp: req_join_def strncpy_into_def decoded)
  note r = req_join_code [OF s(1) req]
  let ?l = "(locals (sk_conn l))\<lparr>rl_req := req\<rparr>"
  have disp: "router_dispatch renv ?l (shared (sk_conn l)) = answer ?l v (rt', w')"
    using assms(4) sh join r by (simp add: dispatch_cases do_join_def)
  obtain out l' where l': "rlink_serve renv req (cs, l) = Some (out, (cs, l'))" "get_int_rsp out = v"
    and sh': "shared (sk_conn l') = (rt', w')"
    using rlink_serve_answer [OF ready r(1) disp linv_request [OF ready r(1)]] by blast
  have "rl_cid (locals (sk_conn l')) = rl_cid (locals (sk_conn l))"
    using l'(1) disp r(1) ready
    by (auto simp: rlink_serve_def slink_serve_def router_fill_full rlink_ready_def slink_ready_def
        router_linv_def answer_def slink_done_def)
  then show thesis
    using that [of l'] req sh' l' via_router.call_int_served [OF ready r(1) s(2) l'(1), of env]
      via_router.ready_after [OF ready r(1) l'(1)]
    by (simp add: c_join_def)
qed

text \<open>
  After a container's \<open>join\<close>, \<open>get_node_id\<close> agrees. On a connection of a router with
  containers, \<open>join\<close> returns some number (whatever the exchange with the vcm gave), and a
  following \<open>get_node_id\<close> on the same connection returns the same number, -1 if the join failed.
\<close>

lemma join_then_get_node_id:
  assumes "rlink_ready (cs, l)" and "stack_ok stk" and "stack_ok stk2"
    and "\<not> re_no_container renv" and "length input_str \<le> 272"
  shows "\<exists>v s1 s2. c_join (on_router renv env) input_str eth ib stk (cs, l) = Some (v, s1) \<and>
    c_get_node_id (on_router renv env) stk2 s1 = (v, s2)"
proof -
  obtain rt w where sh: "shared (sk_conn l) = (rt, w)"
    by (metis prod.exhaust)
  let ?cid = "rl_cid (locals (sk_conn l))"
  obtain v rt' w' where j: "vcm_join (re_sock renv) (re_nid renv) ?cid rt w = (v, rt', w')"
    by (metis prod_cases3)
  from j have agree: "vcm_get_node_id ?cid rt' = v"
    by (cases rule: vcm_join_cases) (auto simp: vcm_get_node_id_def)
  obtain l' where l': "c_join (on_router renv env) input_str eth ib stk (cs, l) = Some (v, (cs, l'))"
    "rlink_ready (cs, l')" "shared (sk_conn l') = (rt', w')" "rl_cid (locals (sk_conn l')) = ?cid"
    by (rule carried_join [OF assms(1,2) sh assms(4,5) j])
  then show ?thesis
    using carried_get_node_id [OF l'(2) assms(3) l'(3) assms(4), of env] agree
    by (auto simp: carried_def)
qed

section \<open>Receiving, registering, shared memory\<close>

text \<open>A receive: what the client gets and what stays in the thread's response object.\<close>

lemma served_receive:
  assumes ready: "rlink_ready (cs, l)" and stk: "stack_ok stk" and w: "shared (sk_conn l) = (rt, w)"
    and w0: "w0 = os_store32 (re_lite renv) (re_rsp_addr renv + 16) (get_ret_length (rl_rsp (locals (sk_conn l))))
      (os_store64 (re_lite renv) (re_rsp_addr renv + 8) (get_descriptor (rl_rsp (locals (sk_conn l)))) w)"
    and call: "lite_receive_message_fast (re_lite renv) port ret_addr sz (re_rsp_addr renv + 8)
      (re_rsp_addr renv + 16) blk w0 = Some (r, w1)"
    and d: "os_load64 (re_lite renv) (re_rsp_addr renv + 8) w1 = (d, w2)"
    and len: "os_load32 (re_lite renv) (re_rsp_addr renv + 16) w2 = (len, w')"
  obtains l' where "c_receive_message_fast (on_router renv env) port ret_addr sz blk stk (cs, l) = (r, d, len, (cs, l'))"
    and "rlink_ready (cs, l')" and "shared (sk_conn l') = (rt, w')"
    and "get_descriptor (rl_rsp (locals (sk_conn l'))) = d" and "get_ret_length (rl_rsp (locals (sk_conn l'))) = len"
proof -
  let ?req = "put_receive_message_fast_req
      \<lparr>rm_port = port, rm_ret_addr = ret_addr, rm_receive_size = sz, rm_block_call = blk\<rparr>
      (put_func_code FUNC_userspace_liteapi_receive_message_fast (stk_req stk))"
  let ?l0 = "(locals (sk_conn l))\<lparr>rl_req := ?req\<rparr>"
  let ?l1 = "?l0\<lparr>rl_rsp := put_ret_length len (put_descriptor d (rl_rsp ?l0))\<rparr>"
  have s280: "length (stk_req stk) = 280"
    using stk by (simp add: stack_ok_def)
  then have req: "length ?req = 280"
    by (simp add: decoded)
  have rsp24: "length (rl_rsp (locals (sk_conn l))) = 24"
    using ready by (simp add: rlink_ready_def slink_ready_def router_linv_def)
  have disp: "router_dispatch renv ?l0 (shared (sk_conn l)) = answer ?l1 r (rt, w')"
    using s280 w w0 call d len
    by (simp add: decoded dispatch_cases do_receive_message_fast_def Let_def)
  have "router_linv ?l1"
    using req rsp24 by (simp add: router_linv_def rsp_fields)
  then obtain out l' where out: "rpc_handler (on_router renv env) ?req (stk_rsp stk) (cs, l) = (0, out, (cs, l'))"
    "out = put_int_rsp r (rl_rsp ?l1)" "rlink_ready (cs, l')" "shared (sk_conn l') = (rt, w')"
    "rl_rsp (locals (sk_conn l')) = out"
    using call_answer [OF ready req _ disp, of "stk_rsp stk" env] stk by (auto simp: stack_ok_def)
  then show thesis
    using rsp24 by (intro that [of l']) (simp_all add: c_receive_message_fast_def rsp_fields)
qed

text \<open>
  A receive brings three results back. \<open>receive_message_fast\<close> on the client returns what
  the router's wrapper returns for the same port, address, size and flag, and stores the two
  words that the wrapper and the kernel have left in the response object.
\<close>

lemma remote_receive_message:
  assumes ready: "rlink_ready (cs, l)" and stk: "stack_ok stk" and w: "shared (sk_conn l) = (rt, w)"
    and w0: "w0 = os_store32 (re_lite renv) (re_rsp_addr renv + 16) (get_ret_length (rl_rsp (locals (sk_conn l))))
      (os_store64 (re_lite renv) (re_rsp_addr renv + 8) (get_descriptor (rl_rsp (locals (sk_conn l)))) w)"
    and call: "lite_receive_message_fast (re_lite renv) port ret_addr sz (re_rsp_addr renv + 8)
      (re_rsp_addr renv + 16) blk w0 = Some (r, w1)"
    and d: "os_load64 (re_lite renv) (re_rsp_addr renv + 8) w1 = (d, w2)"
    and len: "os_load32 (re_lite renv) (re_rsp_addr renv + 16) w2 = (len, w')"
  shows "\<exists>l'. c_receive_message_fast (on_router renv env) port ret_addr sz blk stk (cs, l) =
      (r, d, len, (cs, l')) \<and> rlink_ready (cs, l') \<and> shared (sk_conn l') = (rt, w')"
  by (rule served_receive [OF assms]) blast

section \<open>Shared memory\<close>

text \<open>What the router does with the request, and what the client reads from the answer.\<close>

lemma served_alloc_local:
  assumes ready: "rlink_ready (cs, l)" and stk: "stack_ok stk" and w: "shared (sk_conn l) = (rt, w)"
    and nm: "is_cstr nm" "length nm < 256"
    and alloc: "alloc_shm_mem (re_shm renv) nm sz w = (r, a, w')"
    and req: "req_alloc_local_mem nm sz (stk_req stk) = Some req"
  shows "\<exists>out l'. rpc_handler (on_router renv env) req (stk_rsp stk) (cs, l) = (0, out, (cs, l')) \<and>
    get_int_rsp out = r \<and> (\<forall>p. a = Some p \<longrightarrow> get_remote_addr out = p) \<and>
    rlink_ready (cs, l') \<and> shared (sk_conn l') = (rt, w') \<and>
    rl_cid (locals (sk_conn l')) = rl_cid (locals (sk_conn l)) \<and> rl_rsp (locals (sk_conn l')) = out \<and>
    out = put_int_rsp r (case a of None \<Rightarrow> rl_rsp (locals (sk_conn l)) | Some p \<Rightarrow> put_remote_addr p (rl_rsp (locals (sk_conn l))))"
proof -
  let ?l0 = "(locals (sk_conn l))\<lparr>rl_req := req\<rparr>"
  let ?l1 = "case a of None \<Rightarrow> ?l0 | Some p \<Rightarrow> ?l0\<lparr>rl_rsp := put_remote_addr p (rl_rsp ?l0)\<rparr>"
  note q = alloc_local_request [OF req nm]
  have s: "length (stk_req stk) = 280" "length (stk_rsp stk) = 24"
    using stk by (simp_all add: stack_ok_def)
  have rsp24: "length (rl_rsp (locals (sk_conn l))) = 24"
    using ready by (simp add: rlink_ready_def slink_ready_def router_linv_def)
  have disp: "router_dispatch renv ?l0 (shared (sk_conn l)) = answer ?l1 r (rt, w')"
    using q(2-4) s w alloc by (simp add: dispatch_cases do_alloc_local_mem_def)
  have linv: "router_linv ?l1"
    using q(1) s rsp24 by (simp add: router_linv_def rsp_fields split: option.split)
  have fields: "get_remote_addr (put_int_rsp r (rl_rsp ?l1)) = p" if "a = Some p" for p
    using that rsp24 by (simp add: rsp_fields)
  have "rl_cid ?l1 = rl_cid (locals (sk_conn l))" and "rl_rsp ?l1 =
      (case a of None \<Rightarrow> rl_rsp (locals (sk_conn l)) | Some p \<Rightarrow> put_remote_addr p (rl_rsp (locals (sk_conn l))))"
    by (simp_all split: option.split)
  then show ?thesis
    using call_answer [OF ready q(1) [OF s(1)] s(2) disp linv, of env] fields by auto
qed

text \<open>
  C19: a shared memory object keeps its name and size on the way. For a name of up to 255
  bytes, \<open>alloc_local_mem\<close> makes the router create the object of exactly that name and size.
  When the router's call fails the client returns -1 and opens nothing. When it succeeds the
  client opens the same name: if that fails it returns -1 without mapping, otherwise it maps the same size
  and returns 0 and the address of the router's mapping, whatever \<open>mmap\<close> gave (unless the address of the
  caller's variable is itself \<open>MAP_FAILED\<close>).
\<close>

theorem remote_alloc_local_mem:
  assumes "rlink_ready (cs, l)" and "stack_ok stk" and "shared (sk_conn l) = (rt, w)"
    and "is_cstr nm" and "length nm < 256"
    and "alloc_shm_mem (re_shm renv) nm sz w = (r, a, w')"
  shows "\<exists>out l1 l'. c_alloc_local_mem (on_router renv env) nm sz local_addr stk (cs, l) = Some (out, (cs, l')) \<and>
    rlink_ready (cs, l1) \<and> shared (sk_conn l1) = (rt, w') \<and>
    (r \<noteq> 0 \<longrightarrow> r = -1 \<and> out = \<lparr>ao_ret = -1, ao_local = None, ao_remote = None\<rparr> \<and> l' = l1) \<and>
    (r = 0 \<longrightarrow> (\<exists>fd l2. sh_open (ce_shm env) nm False l1 = (fd, l2) \<and>
      (fd < 0 \<longrightarrow> out = \<lparr>ao_ret = -1, ao_local = None, ao_remote = None\<rparr> \<and> l' = l2) \<and>
      (0 \<le> fd \<longrightarrow> (\<exists>p. sh_mmap (ce_shm env) sz fd l2 = (p, l') \<and>
        out = (if local_addr = MAP_FAILED then \<lparr>ao_ret = -1, ao_local = Some p, ao_remote = None\<rparr>
               else \<lparr>ao_ret = 0, ao_local = Some p, ao_remote = a\<rparr>)))))"
proof -
  have s: "length (stk_req stk) = 280"
    using assms(2) by (simp add: stack_ok_def)
  obtain req where req: "req_alloc_local_mem nm sz (stk_req stk) = Some req"
    using s assms(5) by (auto simp: req_alloc_local_mem_def strncpy_into_def decoded)
  obtain rsp l1 where h: "rpc_handler (on_router renv env) req (stk_rsp stk) (cs, l) = (0, rsp, (cs, l1))"
    and rsp: "get_int_rsp rsp = r" "\<forall>p. a = Some p \<longrightarrow> get_remote_addr rsp = p"
    and l1: "rlink_ready (cs, l1)" "shared (sk_conn l1) = (rt, w')"
    using served_alloc_local [OF assms(1-6) req] by blast
  obtain fd l2 where op: "sh_open (ce_shm env) nm False l1 = (fd, l2)"
    by (metis prod.exhaust)
  obtain p l3 where mm: "sh_mmap (ce_shm env) sz fd l2 = (p, l3)"
    by (metis prod.exhaust)
  have same: "ce_shm (on_router renv env) = ce_shm env"
    by (simp add: on_router_def linked_def)
  from alloc_shm_mem_result [OF assms(6)] show ?thesis
  proof
    assume ok: "r = 0 \<and> (\<exists>p. a = Some p \<and> p \<noteq> MAP_FAILED)"
    show ?thesis
      using ok req h rsp l1 op mm same
      by (cases "fd < 0") (auto simp: c_alloc_local_mem_def alloc_local_mem_tail_def intro!: exI [of _ l1])
  next
    assume "r = -1 \<and> (a = None \<or> a = Some MAP_FAILED)"
    then show ?thesis
      using req h rsp l1 by (auto simp: c_alloc_local_mem_def alloc_local_mem_tail_def)
  qed
qed

theorem remote_alloc_local_mem_witness:
  "\<exists>out l'. c_alloc_local_mem (on_router sample_renv sample_cenv) [65, 66] 4096 0x7000 sample_stack
     (sample_client, sample_link) = Some (out, (sample_client, l')) \<and> ao_ret out = 0 \<and> ao_remote out = Some 0x2000"
proof -
  have a: "alloc_shm_mem (re_shm sample_renv) [65, 66] 4096 sample_start = (0, Some 0x2000, sample_start)"
    by (simp add: alloc_shm_mem_def open_or_create_def sample_shm_def MAP_FAILED_def)
  show ?thesis
    using remote_alloc_local_mem [OF sample_ready sample_stack_ok sample_shared _ _ a, of sample_cenv "0x7000"]
    by (auto simp: is_cstr_def MAP_FAILED_def sample_cenv_def)
qed

text \<open>
  \<open>free_local_mem\<close> for a name of up to 255 bytes makes the router unmap the given
  address and unlink exactly that name, and returns the router's result.
\<close>

lemma carried_free_local:
  assumes "rlink_ready (cs, l)" and "stack_ok stk" and "shared (sk_conn l) = (rt, w)"
    and nm: "is_cstr nm" "length nm < 256"
  obtains req where "req_free_local_mem nm sz addr (stk_req stk) = Some req"
    and "carried (call_int (on_router renv env) req (stk_rsp stk)) (cs, l) rt (free_shm_mem (re_shm renv) nm sz addr w)"
proof -
  have s: "length (stk_req stk) = 280" "length (stk_rsp stk) = 24"
    using assms(2) by (simp_all add: stack_ok_def)
  obtain req where req: "req_free_local_mem nm sz addr (stk_req stk) = Some req"
    using s nm(2) by (auto simp: req_free_local_mem_def strncpy_into_def decoded)
  note q = free_local_request [OF req nm s(1)]
  have "carried (call_int (on_router renv env) req (stk_rsp stk)) (cs, l) rt (free_shm_mem (re_shm renv) nm sz addr w)"
    using assms q s by (intro carried_call_int)
      (simp_all add: dispatch_cases do_free_local_mem_def world_call_def Let_def split: prod.split)
  with req show thesis
    by (rule that)
qed

lemma remote_free_local_mem:
  assumes "rlink_ready (cs, l)" and "stack_ok stk" and "shared (sk_conn l) = (rt, w)"
    and "is_cstr nm" and "length nm < 256"
    and "free_shm_mem (re_shm renv) nm sz addr w = (r, w')"
  shows "\<exists>l'. c_free_local_mem (on_router renv env) nm sz addr stk (cs, l) = Some (r, (cs, l')) \<and>
    rlink_ready (cs, l') \<and> shared (sk_conn l') = (rt, w')"
  by (rule carried_free_local [OF assms(1-5), of sz addr renv env])
    (use assms(6) in \<open>auto simp: c_free_local_mem_def carried_def\<close>)

section \<open>Registration of an application\<close>

lemma carried_register:
  assumes "rlink_ready (cs, l)" and "stack_ok stk" and "shared (sk_conn l) = (rt, w)"
    and "length nm = unat name_len" and "unat name_len \<le> 32"
  obtains req rest where "req_register_application port maxsz maxuser nm name_len (stk_req stk) = Some req"
    and "carried (call_int (on_router renv env) req (stk_rsp stk)) (cs, l) rt
      (lite_register_application (re_lite renv) port maxsz maxuser (nm @ rest) name_len w)"
    and "length (nm @ rest) = 260" and "take (32 - unat name_len) rest = replicate (32 - unat name_len) 0"
proof -
  have s: "length (stk_req stk) = 280" "length (stk_rsp stk) = 24"
    using assms(2) by (simp_all add: stack_ok_def)
  obtain req rest where req: "req_register_application port maxsz maxuser nm name_len (stk_req stk) = Some req"
    and q: "length req = 280" "get_func_code req = FUNC_userspace_liteapi_register_application"
      "ra_destined_port (get_register_application_req req) = port"
      "ra_max_size_per_message (get_register_application_req req) = maxsz"
      "ra_max_user_per_node (get_register_application_req req) = maxuser"
      "ra_name_len (get_register_application_req req) = name_len" "drop 20 req = nm @ rest"
      and z: "take (32 - unat name_len) rest = replicate (32 - unat name_len) 0"
    by (rule register_request [OF s(1) assms(4,5)])
  have "carried (call_int (on_router renv env) req (stk_rsp stk)) (cs, l) rt
      (lite_register_application (re_lite renv) port maxsz maxuser (nm @ rest) name_len w)"
    using assms(1,3) q s
    by (intro carried_call_int)
      (simp_all add: dispatch_cases do_register_application_def world_call_def Let_def split: prod.split)
  moreover have "length (nm @ rest) = 260"
    using q(1) length_drop [of 20 req] unfolding q(7) by simp
  ultimately show thesis
    using that req z by blast
qed

text \<open>
  C22: \<open>register_application\<close> with a name of up to 32 bytes. The stub returns what the
  router's call returns for the client's numbers and for the 260 bytes that the request object holds
  from \<open>name\<close> on: the \<open>name_len\<close> bytes of the client, zeros up to the end of the array, and the
  rest of the object.
\<close>

theorem remote_register_application:
  assumes "rlink_ready (cs, l)" and "stack_ok stk" and "shared (sk_conn l) = (rt, w)"
    and "length nm = unat name_len" and "unat name_len \<le> 32"
  shows "\<exists>rest r w' l'.
    lite_register_application (re_lite renv) port maxsz maxuser (nm @ replicate (32 - unat name_len) 0 @ rest) name_len w = (r, w') \<and>
    length rest = 228 \<and>
    c_register_application (on_router renv env) port maxsz maxuser nm name_len stk (cs, l) = Some (r, (cs, l')) \<and>
    rlink_ready (cs, l') \<and> shared (sk_conn l') = (rt, w')"
proof -
  obtain req rest where req: "req_register_application port maxsz maxuser nm name_len (stk_req stk) = Some req"
    and call: "carried (call_int (on_router renv env) req (stk_rsp stk)) (cs, l) rt
      (lite_register_application (re_lite renv) port maxsz maxuser (nm @ rest) name_len w)"
    and len: "length (nm @ rest) = 260" and z: "take (32 - unat name_len) rest = replicate (32 - unat name_len) 0"
    by (rule carried_register [OF assms(1-5), of port maxsz maxuser renv env])
  have split: "rest = replicate (32 - unat name_len) 0 @ drop (32 - unat name_len) rest"
    using z append_take_drop_id [of "32 - unat name_len" rest] by simp
  have "length (drop (32 - unat name_len) rest) = 228"
    using len assms(4,5) by simp
  moreover obtain r w' where k: "lite_register_application (re_lite renv) port maxsz maxuser (nm @ rest) name_len w = (r, w')"
    by (rule prod.exhaust)
  moreover have "\<exists>l'. c_register_application (on_router renv env) port maxsz maxuser nm name_len stk (cs, l) = Some (r, (cs, l')) \<and>
      rlink_ready (cs, l') \<and> shared (sk_conn l') = (rt, w')"
    using req call k by (auto simp: c_register_application_def carried_def)
  ultimately show ?thesis
    using split by metis
qed

theorem remote_register_application_witness:
  "\<exists>l'. c_register_application (on_router sample_renv sample_cenv) 1 4096 16 [116, 49] 2 sample_stack
     (sample_client, sample_link) = Some (0, (sample_client, l'))"
proof -
  have k: "fst (lite_register_application sample_os 1 4096 16 buf 2 sample_start) = 0" for buf
    by (simp add: lite_register_application_def int_syscall_def sample_os_def)
  show ?thesis
    using remote_register_application [OF sample_ready sample_stack_ok sample_shared, of "[116, 49]" 2 sample_renv 1 4096 16 sample_cenv] k
    by (auto simp: prod_eq_iff)
qed

end
