(* ===== verification/Write_Test.thy ===== *)
theory Write_Test
  imports Remote_Calls Mock_Server
begin

text \<open>
  The program \<open>client/test_write.c\<close>, which shares a piece of memory with its router,
  allocates memory on a remote node and writes to it in twelve sizes. \<open>log_on_router\<close> is the
  same run as the router sees it; the program on a connected client is that run.
\<close>

section \<open>The program\<close>

definition run_times :: nat where "run_times = 10"

definition log_sizes :: "c_int list" where
  "log_sizes = [8, 8, 64, 128, 512, 1024, 1024 * 2, 1024 * 4, 1024 * 8, 1024 * 16, 1024 * 32, 1024 * 64]"

definition log_name :: "byte list" where "log_name = bytes_of ''test_write''"

definition log_bytes :: "c_int" where "log_bytes = 1024 * 1024 * 4"

definition log_password :: c_int where "log_password = 100"

text \<open>
  The two loops. \<open>test_key\<close> is a \<open>uint64_t\<close> that \<open>rdma_write\<close> takes as \<open>unsigned\<close>; \<open>stk k\<close> is
  what the \<open>k\<close>-th call finds on its stack.
\<close>

primrec write_times ::
  "'w client_env \<Rightarrow> c_long \<Rightarrow> c_ptr \<Rightarrow> c_int \<Rightarrow> nat \<Rightarrow> (nat \<Rightarrow> stack) \<Rightarrow> 'w client_shared \<Rightarrow> 'w client_shared" where
  "write_times env test_key remote_addr sz 0 stk s = s"
| "write_times env test_key remote_addr sz (Suc n) stk s =
     write_times env test_key remote_addr sz n (\<lambda>k. stk (Suc k))
       (snd (c_rdma_write env (ucast test_key) remote_addr sz 0 log_password (stk 0) s))"

primrec write_sizes ::
  "'w client_env \<Rightarrow> c_long \<Rightarrow> c_ptr \<Rightarrow> nat \<Rightarrow> c_int list \<Rightarrow> (nat \<Rightarrow> stack) \<Rightarrow> 'w client_shared \<Rightarrow> 'w client_shared" where
  "write_sizes env test_key remote_addr n [] stk s = s"
| "write_sizes env test_key remote_addr n (sz # szs) stk s =
     write_sizes env test_key remote_addr n szs (\<lambda>k. stk (n + k))
       (write_times env test_key remote_addr sz n stk s)"

text \<open>
  \<open>init_log\<close> with the exit code of the program: 1 from \<open>exit\<close>, 0 from the end of \<open>main\<close>.
  \<open>stamp p b n\<close> is \<open>memset(p, b, n)\<close> in the memory that the program shares, \<open>None\<close> when the bytes are not all
  mapped: then the program crashes, and \<open>None\<close> is the result (a failed \<open>mmap\<close> has not been noticed
  by then). \<open>local_addr\<close> is the address of the variable \<open>write\<close>.
\<close>

definition init_log ::
  "'w client_env \<Rightarrow> (c_ptr \<Rightarrow> byte \<Rightarrow> nat \<Rightarrow> 'w \<Rightarrow> 'w option) \<Rightarrow> c_ptr \<Rightarrow> (nat \<Rightarrow> stack) \<Rightarrow> c_int \<Rightarrow> 'w client_shared \<Rightarrow>
   (int \<times> 'w client_shared) option" where
  "init_log env stamp local_addr stk remote_node s =
     (case c_alloc_local_mem env log_name (ucast log_bytes) local_addr (stk 0) s of
        None \<Rightarrow> None
      | Some (a, s1) \<Rightarrow>
          if sint (ao_ret a) < 0 then Some (1, s1)
          else
            (let write = (case ao_local a of None \<Rightarrow> 0 | Some p \<Rightarrow> p);
                 remote_addr = (case ao_remote a of None \<Rightarrow> 0 | Some p \<Rightarrow> p)
             in case stamp write 0x36 (1024 * 64) (snd s1) of
                  None \<Rightarrow> None
                | Some w2 \<Rightarrow>
                    (case c_alloc_remote_mem env remote_node log_bytes False log_password (stk 1) (fst s1, w2) of
                      (key, s2) \<Rightarrow>
                        let s3 = write_sizes env (scast key) remote_addr run_times log_sizes (\<lambda>k. stk (2 + k)) s2
                        in (case c_free_local_mem env log_name (ucast log_bytes) remote_addr
                              (stk (2 + run_times * length log_sizes)) s3 of
                              None \<Rightarrow> None
                            | Some (r, s4) \<Rightarrow> Some (if sint r < 0 then 1 else 0, s4)))))"

definition write_main ::
  "'w client_env \<Rightarrow> (c_ptr \<Rightarrow> byte \<Rightarrow> nat \<Rightarrow> 'w \<Rightarrow> 'w option) \<Rightarrow> c_ptr \<Rightarrow> (nat \<Rightarrow> stack) \<Rightarrow> c_int list \<Rightarrow> 'w client_shared \<Rightarrow>
   (int \<times> 'w client_shared) option" where
  "write_main env stamp local_addr stk args s =
     (if length args = 1 then init_log env stamp local_addr stk (hd args) s else Some (0, s))"

section \<open>The run on the router\<close>

text \<open>Operations of the client on what its node shares: the router's world.\<close>

definition with_world :: "('w \<Rightarrow> 'r \<times> 'w) \<Rightarrow> 'w rlink \<Rightarrow> 'r \<times> 'w rlink" where
  "with_world f l =
     (case shared (sk_conn l) of (rt, w) \<Rightarrow>
        case f w of (r, w') \<Rightarrow> (r, l\<lparr>sk_conn := (sk_conn l)\<lparr>shared := (rt, w')\<rparr>\<rparr>))"

definition world_shm :: "'w shm_api \<Rightarrow> 'w rlink shm_api" where
  "world_shm api = \<lparr>sh_open = (\<lambda>n c. with_world (sh_open api n c)),
     sh_ftruncate = (\<lambda>fd n. with_world (sh_ftruncate api fd n)), sh_mmap = (\<lambda>n fd. with_world (sh_mmap api n fd)),
     sh_munmap = (\<lambda>a n. with_world (sh_munmap api a n)), sh_unlink = (\<lambda>n. with_world (sh_unlink api n))\<rparr>"

definition world_stamp ::
  "(c_ptr \<Rightarrow> byte \<Rightarrow> nat \<Rightarrow> 'w \<Rightarrow> 'w option) \<Rightarrow> c_ptr \<Rightarrow> byte \<Rightarrow> nat \<Rightarrow> 'w rlink \<Rightarrow> 'w rlink option" where
  "world_stamp stamp p b n l =
     (case shared (sk_conn l) of (rt, w) \<Rightarrow>
        map_option (\<lambda>w'. l\<lparr>sk_conn := (sk_conn l)\<lparr>shared := (rt, w')\<rparr>\<rparr>) (stamp p b n w))"

definition write_calls :: "'w lite_os \<Rightarrow> c_int \<Rightarrow> c_ptr \<Rightarrow> c_int list \<Rightarrow> 'w \<Rightarrow> 'w" where
  "write_calls os key addr = fold (\<lambda>sz w. snd (lite_rdma_write os key addr sz 0 log_password w))"

text \<open>\<open>None\<close> is the crash of the program.\<close>

definition log_on_router ::
  "'w router_env \<Rightarrow> (c_ptr \<Rightarrow> byte \<Rightarrow> nat \<Rightarrow> 'w \<Rightarrow> 'w option) \<Rightarrow> c_int \<Rightarrow> 'w router_shared \<Rightarrow>
   (int \<times> 'w router_shared) option" where
  "log_on_router renv stamp node s =
     (case alloc_shm_mem (re_shm renv) log_name (ucast log_bytes) (snd s) of (r, a, w1) \<Rightarrow>
        if r \<noteq> 0 then Some (1, (fst s, w1))
        else case sh_open (re_shm renv) log_name False w1 of (fd, w2) \<Rightarrow>
          if fd < 0 then Some (1, (fst s, w2))
          else case sh_mmap (re_shm renv) (ucast log_bytes) fd w2 of (p, w3) \<Rightarrow>
            (case stamp p 0x36 65536 w3 of
               None \<Rightarrow> None
             | Some w3' \<Rightarrow>
                 (case resolve_node renv node (fst s, w3') of (nid, (rt', w4)) \<Rightarrow>
                    case lite_alloc_remote_mem (re_lite renv) nid log_bytes False log_password w4 of (key, w5) \<Rightarrow>
                      let w6 = write_calls (re_lite renv) key (the a) (concat (map (replicate 10) log_sizes)) w5
                      in case free_shm_mem (re_shm renv) log_name (ucast log_bytes) (the a) w6 of (q, w7) \<Rightarrow>
                        Some (if sint q < 0 then 1 else 0, (rt', w7)))))"

section \<open>The loops on the router\<close>

lemma write_times_on_router:
  assumes "rlink_ready (cs, l)" and "\<And>k. stack_ok (stk k)" and "shared (sk_conn l) = (rt, w)"
  shows "\<exists>l'. write_times (on_router renv env) key addr sz n stk (cs, l) = (cs, l') \<and> rlink_ready (cs, l') \<and>
    shared (sk_conn l') = (rt, write_calls (re_lite renv) (ucast key) addr (replicate n sz) w)"
  using assms
proof (induction n arbitrary: l w stk)
  case (Suc n)
  let ?res = "lite_rdma_write (re_lite renv) (ucast key) addr sz 0 log_password w"
  obtain l1 where l1: "c_rdma_write (on_router renv env) (ucast key) addr sz 0 log_password (stk 0) (cs, l) = (fst ?res, (cs, l1))"
    "rlink_ready (cs, l1)" "shared (sk_conn l1) = (rt, snd ?res)"
    using carried_wrappers(1) [OF Suc.prems(1) Suc.prems(2) Suc.prems(3), of renv env "ucast key" addr sz 0 log_password 0]
    unfolding carried_def by auto
  show ?case
    using Suc.IH [OF l1(2) _ l1(3), of "\<lambda>k. stk (Suc k)"] Suc.prems(2) l1(1) by (simp add: write_calls_def)
qed (simp add: write_calls_def)

lemma write_sizes_on_router:
  assumes "rlink_ready (cs, l)" and "\<And>k. stack_ok (stk k)" and "shared (sk_conn l) = (rt, w)"
  shows "\<exists>l'. write_sizes (on_router renv env) key addr n szs stk (cs, l) = (cs, l') \<and> rlink_ready (cs, l') \<and>
    shared (sk_conn l') = (rt, write_calls (re_lite renv) (ucast key) addr (concat (map (replicate n) szs)) w)"
  using assms
proof (induction szs arbitrary: l w stk)
  case (Cons sz szs)
  obtain l1 where l1: "write_times (on_router renv env) key addr sz n stk (cs, l) = (cs, l1)" "rlink_ready (cs, l1)"
    "shared (sk_conn l1) = (rt, write_calls (re_lite renv) (ucast key) addr (replicate n sz) w)"
    using write_times_on_router [OF Cons.prems(1) _ Cons.prems(3), of stk renv env key addr sz n] Cons.prems(2) by blast
  show ?case
    using Cons.IH [OF l1(2) _ l1(3), of "\<lambda>k. stk (n + k)"] Cons.prems(2) l1(1) by (simp add: write_calls_def)
qed (simp add: write_calls_def)

section \<open>The program on the router\<close>

lemma with_world_link:
  "\<lbrakk>rlink_ready (cs, l); shared (sk_conn l) = (rt, w); f w = (r, w')\<rbrakk> \<Longrightarrow>
   \<exists>l'. with_world f l = (r, l') \<and> rlink_ready (cs, l') \<and> shared (sk_conn l') = (rt, w') \<and>
     locals (sk_conn l') = locals (sk_conn l)"
  by (simp add: with_world_def rlink_ready_def slink_ready_def)

lemma world_stamp_link:
  assumes "rlink_ready (cs, l)" and "shared (sk_conn l) = (rt, w)" and "stamp p b n w = Some w'"
  obtains l' where "world_stamp stamp p b n l = Some l'" and "rlink_ready (cs, l')" and "shared (sk_conn l') = (rt, w')"
    and "locals (sk_conn l') = locals (sk_conn l)"
  using assms by (auto simp: world_stamp_def rlink_ready_def slink_ready_def)

lemma world_stamp_crash: "\<lbrakk>shared (sk_conn l) = (rt, w); stamp p b n w = None\<rbrakk> \<Longrightarrow> world_stamp stamp p b n l = None"
  by (simp add: world_stamp_def)

lemma log_name_ok: "is_cstr log_name" "length log_name < 256"
  by (simp_all add: log_name_def is_cstr_def bytes_of_def)

text \<open>The allocation, as the program sees it and as the router does.\<close>

lemma shared_alloc:
  assumes "rlink_ready (cs, l)" and "stack_ok stk" and "shared (sk_conn l) = (rt, w)" and "la \<noteq> MAP_FAILED"
    and "ce_shm env = world_shm (re_shm renv)"
    and "alloc_shm_mem (re_shm renv) nm sz w = (r, a, w1)"
    and "sh_open (re_shm renv) nm False w1 = (fd, w2)" and "sh_mmap (re_shm renv) sz fd w2 = (p, w3)"
    and "is_cstr nm" and "length nm < 256"
  obtains out l' where "c_alloc_local_mem (on_router renv env) nm sz la stk (cs, l) = Some (out, (cs, l'))"
    and "rlink_ready (cs, l')"
    and "r \<noteq> 0 \<longrightarrow> sint (ao_ret out) < 0 \<and> shared (sk_conn l') = (rt, w1)"
    and "r = 0 \<and> fd < 0 \<longrightarrow> sint (ao_ret out) < 0 \<and> shared (sk_conn l') = (rt, w2)"
    and "r = 0 \<and> \<not> fd < 0 \<longrightarrow> ao_ret out = 0 \<and> ao_local out = Some p \<and> ao_remote out = a \<and>
      shared (sk_conn l') = (rt, w3)"
    and "r \<noteq> 0 \<or> fd < 0 \<longrightarrow> ao_local out = None \<and> ao_remote out = None"
    and "rl_rsp (locals (sk_conn l')) =
      put_int_rsp r (case a of None \<Rightarrow> rl_rsp (locals (sk_conn l)) | Some p \<Rightarrow> put_remote_addr p (rl_rsp (locals (sk_conn l))))"
proof -
  have "length (stk_req stk) = 280"
    using assms(2) by (simp add: stack_ok_def)
  then obtain req where req: "req_alloc_local_mem nm sz (stk_req stk) = Some req"
    using assms(10) by (auto simp: req_alloc_local_mem_def strncpy_into_def decoded)
  obtain rsp l1 where h: "rpc_handler (on_router renv env) req (stk_rsp stk) (cs, l) = (0, rsp, (cs, l1))"
    and rsp: "get_int_rsp rsp = r" "\<forall>p. a = Some p \<longrightarrow> get_remote_addr rsp = p"
    and l1: "rlink_ready (cs, l1)" "shared (sk_conn l1) = (rt, w1)"
    and k1: "rl_rsp (locals (sk_conn l1)) =
      put_int_rsp r (case a of None \<Rightarrow> rl_rsp (locals (sk_conn l)) | Some p \<Rightarrow> put_remote_addr p (rl_rsp (locals (sk_conn l))))"
    using served_alloc_local [OF assms(1-3) assms(9,10) assms(6) req] by blast
  obtain l2 where l2: "with_world (sh_open (re_shm renv) nm False) l1 = (fd, l2)" "rlink_ready (cs, l2)"
    "shared (sk_conn l2) = (rt, w2)" "locals (sk_conn l2) = locals (sk_conn l1)"
    using with_world_link [where f = "sh_open (re_shm renv) nm False", OF l1 assms(7)] by blast
  obtain l3 where l3: "with_world (sh_mmap (re_shm renv) sz fd) l2 = (p, l3)" "rlink_ready (cs, l3)"
    "shared (sk_conn l3) = (rt, w3)" "locals (sk_conn l3) = locals (sk_conn l2)"
    using with_world_link [where f = "sh_mmap (re_shm renv) sz fd", OF l2(2,3) assms(8)] by blast
  have shm: "ce_shm (on_router renv env) = world_shm (re_shm renv)"
    using assms(5) by (simp add: on_router_def linked_def)
  have c: "c_alloc_local_mem (on_router renv env) nm sz la stk (cs, l) =
      Some (alloc_local_mem_tail (on_router renv env) nm sz la rsp (cs, l1))"
    by (simp add: c_alloc_local_mem_def req h)
  from alloc_shm_mem_result [OF assms(6)] show thesis
  proof
    assume r: "r = -1 \<and> (a = None \<or> a = Some MAP_FAILED)"
    then have "c_alloc_local_mem (on_router renv env) nm sz la stk (cs, l) =
        Some (\<lparr>ao_ret = -1, ao_local = None, ao_remote = None\<rparr>, (cs, l1))"
      using c rsp by (simp add: alloc_local_mem_tail_def)
    then show thesis
      by (rule that) (use r l1 k1 in simp_all)
  next
    assume r: "r = 0 \<and> (\<exists>p. a = Some p \<and> p \<noteq> MAP_FAILED)"
    show thesis
    proof (cases "fd < 0")
      case True
      then have "c_alloc_local_mem (on_router renv env) nm sz la stk (cs, l) =
          Some (\<lparr>ao_ret = -1, ao_local = None, ao_remote = None\<rparr>, (cs, l2))"
        using c r rsp l2(1) shm by (simp add: alloc_local_mem_tail_def world_shm_def)
      then show thesis
        by (rule that) (use True r l2 k1 in simp_all)
    next
      case False
      then have "c_alloc_local_mem (on_router renv env) nm sz la stk (cs, l) =
          Some (\<lparr>ao_ret = 0, ao_local = Some p, ao_remote = a\<rparr>, (cs, l3))"
        using c r rsp l2(1) l3(1) shm assms(4) by (auto simp: alloc_local_mem_tail_def world_shm_def)
      then show thesis
        by (rule that) (use False r l2(4) l3 k1 in simp_all)
    qed
  qed
qed

text \<open>
  C35: the write test is what its router makes of it. For a client on a ready connection that
  shares its node's memory with the router, whatever the stubs find on their stacks,
  \<open>init_log\<close> ends with the exit code and the effect of \<open>log_on_router\<close>: the object is created
  and mapped, memory is allocated on the resolved node, 120 writes are made with whatever key came
  back, and the object is freed; a failure of the first step ends the program. It crashes exactly when
  that run does, at a \<open>memset\<close> of bytes that are not mapped.
\<close>

theorem write_test_on_router:
  assumes "rlink_ready (cs, l)" and "\<And>k. stack_ok (stk k)" and "shared (sk_conn l) = (rt, w)"
    and "la \<noteq> MAP_FAILED" and "ce_shm env = world_shm (re_shm renv)"
  shows "case log_on_router renv stamp node (rt, w) of
      None \<Rightarrow> init_log (on_router renv env) (world_stamp stamp) la stk node (cs, l) = None
    | Some (code, s') \<Rightarrow> \<exists>l'. init_log (on_router renv env) (world_stamp stamp) la stk node (cs, l) = Some (code, (cs, l')) \<and>
        rlink_ready (cs, l') \<and> shared (sk_conn l') = s'"
proof -
  let ?sz = "ucast log_bytes :: c_long" and ?on = "on_router renv env"
  obtain r a w1 where a: "alloc_shm_mem (re_shm renv) log_name ?sz w = (r, a, w1)"
    by (rule prod_cases3)
  obtain fd w2 where o: "sh_open (re_shm renv) log_name False w1 = (fd, w2)"
    by (rule prod.exhaust)
  obtain p w3 where m: "sh_mmap (re_shm renv) ?sz fd w2 = (p, w3)"
    by (rule prod.exhaust)
  obtain out l1 where l1: "c_alloc_local_mem ?on log_name ?sz la (stk 0) (cs, l) = Some (out, (cs, l1))" "rlink_ready (cs, l1)"
    and e1: "r \<noteq> 0 \<longrightarrow> sint (ao_ret out) < 0 \<and> shared (sk_conn l1) = (rt, w1)"
    and e2: "r = 0 \<and> fd < 0 \<longrightarrow> sint (ao_ret out) < 0 \<and> shared (sk_conn l1) = (rt, w2)"
    and ok: "r = 0 \<and> \<not> fd < 0 \<longrightarrow> ao_ret out = 0 \<and> ao_local out = Some p \<and> ao_remote out = a \<and> shared (sk_conn l1) = (rt, w3)"
    by (rule shared_alloc [OF assms(1) assms(2) [of 0] assms(3,4,5) a o m log_name_ok])
  show ?thesis
  proof (cases "r \<noteq> 0 \<or> fd < 0")
    case True
    then show ?thesis
      using l1 e1 e2 by (auto simp: init_log_def log_on_router_def a o)
  next
    case False
    then have out: "ao_ret out = 0" "ao_local out = Some p" "ao_remote out = a" "shared (sk_conn l1) = (rt, w3)"
      using ok by simp_all
    obtain addr where addr: "a = Some addr"
      using alloc_shm_mem_result [OF a] False by auto
    show ?thesis
    proof (cases "stamp p 0x36 65536 w3")
      case None
      then show ?thesis
        using False by (simp add: init_log_def log_on_router_def l1(1) out a o m world_stamp_crash [OF out(4)])
    next
      case (Some w3')
      obtain l1' where st: "world_stamp stamp p 0x36 65536 l1 = Some l1'" "rlink_ready (cs, l1')" "shared (sk_conn l1') = (rt, w3')"
        by (rule world_stamp_link [where stamp = stamp and p = p and b = "0x36" and n = 65536, OF l1(2) out(4) Some])
      obtain nid rt' w4 where n: "resolve_node renv node (rt, w3') = (nid, (rt', w4))"
        by (rule prod_cases3)
      obtain key w5 where k: "lite_alloc_remote_mem (re_lite renv) nid log_bytes False log_password w4 = (key, w5)"
        by (rule prod.exhaust)
      obtain l2 where l2: "c_alloc_remote_mem ?on node log_bytes False log_password (stk 1) (cs, l1') = (key, (cs, l2))"
        "rlink_ready (cs, l2)" "shared (sk_conn l2) = (rt', w5)"
        using carried_alloc_remote_mem [OF st(2) assms(2) [of 1] st(3) n, of env log_bytes False log_password] k
        by (auto simp: carried_def)
      let ?w6 = "write_calls (re_lite renv) key addr (concat (map (replicate 10) log_sizes)) w5"
      have key: "ucast (scast key :: c_long) = key"
        by (rule bit_word_eqI) (simp add: bit_simps)
      obtain l3 where l3: "write_sizes ?on (scast key) addr 10 log_sizes (\<lambda>k. stk (2 + k)) (cs, l2) = (cs, l3)"
        "rlink_ready (cs, l3)" "shared (sk_conn l3) = (rt', ?w6)"
        using write_sizes_on_router [OF l2(2) _ l2(3), of "\<lambda>k. stk (2 + k)" renv env "scast key" addr 10 log_sizes]
          assms(2) key by auto
      obtain q w7 where q: "free_shm_mem (re_shm renv) log_name ?sz addr ?w6 = (q, w7)"
        by (rule prod.exhaust)
      obtain l4 where l4: "c_free_local_mem ?on log_name ?sz addr (stk 122) (cs, l3) = Some (q, (cs, l4))"
        "rlink_ready (cs, l4)" "shared (sk_conn l4) = (rt', w7)"
        using remote_free_local_mem [OF l3(2) assms(2) [of 122] l3(3) log_name_ok q, of env] by blast
      have "length log_sizes = 12"
        by (simp add: log_sizes_def)
      then show ?thesis
        using l4 False
        by (simp add: init_log_def log_on_router_def l1(1) out addr l2(1) [simplified] l3(1) [simplified]
            a o m n k q st(1) Some run_times_def Let_def)
    qed
  qed
qed

lemma write_calls_sample: "length (sw_calls (write_calls sample_os key ad szs w)) = length szs + length (sw_calls w)"
  by (induction szs arbitrary: w)
    (simp_all add: write_calls_def lite_rdma_write_def int_syscall_def sample_os_def)

text \<open>The number of writes: ten of each size, in the order of the table.\<close>

lemma log_writes: "length (concat (map (replicate 10) log_sizes)) = 120"
  by (simp add: log_sizes_def)

theorem write_test_on_router_witness:
  "\<exists>l' w'. init_log (on_router sample_renv (sample_cenv\<lparr>ce_shm := world_shm sample_shm\<rparr>)) (world_stamp (\<lambda>_ _ _ w. Some w)) 0x7000
     (\<lambda>_. sample_stack) 2 (sample_client, sample_link) = Some (0, (sample_client, l')) \<and>
   snd (shared (sk_conn l')) = w' \<and> length (sw_calls w') = 121"
proof -
  note r = sample_lookup [of sample_start]
  obtain code s' where wr: "log_on_router sample_renv (\<lambda>_ _ _ w. Some w) 2 (routing_init\<lparr>vcm_sock := 3\<rparr>, sample_start) = Some (code, s')"
    "code = 0" "length (sw_calls (snd s')) = 121"
    by (simp add: log_on_router_def sample_shm_calls r lite_alloc_remote_mem_def case_prod_beta Let_def write_calls_sample
        log_writes) (simp add: int_syscall_def sample_os_def sample_start_def)
  have "(0x7000 :: c_ptr) \<noteq> MAP_FAILED"
    by (simp add: MAP_FAILED_def)
  then show ?thesis
    using write_test_on_router [OF sample_ready sample_stack_ok sample_shared, of "0x7000"
        "sample_cenv\<lparr>ce_shm := world_shm sample_shm\<rparr>" sample_renv "\<lambda>_ _ _ w. Some w" 2] wr
    by auto
qed

end
