(* ===== verification/Bench_Rpc.thy ===== *)
theory Bench_Rpc
  imports Bench Write_Test
begin

text \<open>
  The calls that \<open>client/test_rpc.c\<close> makes: its four measuring functions with their clock readings, the
  functions of its threads and what \<open>run\<close> does before it starts them. What the program does with its own
  memory and clocks goes through the record \<open>host\<close>; \<open>mlock\<close>, processors, rates and output are left out.
  The threads are those of a run with one thread, the default: with more of them the calls
  overlap as in \<open>Client_Threads\<close>. The result \<open>None\<close> stands for a program that crashes, is aborted by \<open>BUG\<close>
  (an \<open>assert\<close>, which the build leaves on), or never comes back.
\<close>

section \<open>Memory and clocks\<close>

text \<open>
  \<open>ho_memset p b n\<close> is \<open>memset(p, b, n)\<close>, without result when the bytes are not all mapped: the pointers come
  from unchecked calls. \<open>ho_mapped p\<close> is whether an \<open>int\<close> can be read at \<open>p\<close>; \<open>ho_monotonic\<close> is
  \<open>clock_gettime(CLOCK_MONOTONIC)\<close> and \<open>ho_time\<close> is \<open>time(NULL)\<close>.
\<close>

record 'w host =
  ho_memset :: "c_ptr \<Rightarrow> byte \<Rightarrow> nat \<Rightarrow> 'w \<Rightarrow> 'w option"
  ho_mapped :: "c_ptr \<Rightarrow> 'w \<Rightarrow> bool"
  ho_monotonic :: "'w \<Rightarrow> timespec \<times> 'w"
  ho_time :: "'w \<Rightarrow> int \<times> 'w"

text \<open>A measured loop: its own result, the time between its start and its end, and the state.\<close>

definition timed :: "'w host \<Rightarrow> ('c \<times> 'w \<Rightarrow> ('m \<times> 'c \<times> 'w) option) \<Rightarrow> 'c \<times> 'w \<Rightarrow> ((c_long \<times> 'm) \<times> 'c \<times> 'w) option" where
  "timed h loop s =
     (case ho_monotonic h (snd s) of (start, w1) \<Rightarrow>
        case loop (fst s, w1) of
          None \<Rightarrow> None
        | Some (m, s2) \<Rightarrow>
            (case ho_monotonic h (snd s2) of (end_time, w3) \<Rightarrow>
               Some ((timespec_diff_ns end_time start, m), (fst s2, w3))))"

section \<open>Shared buffers\<close>

text \<open>
  The results of \<open>alloc_local_mem\<close> are not checked: after a failure the two pointers keep the values
  that they had. \<open>var\<close> is the address of the first of them, \<open>old\<close> their values before.
\<close>

record buffer =
  bf_local :: c_ptr
  bf_remote :: c_ptr

definition bench_alloc ::
  "'w client_env \<Rightarrow> string \<Rightarrow> c_long \<Rightarrow> c_ptr \<Rightarrow> buffer \<Rightarrow> stack \<Rightarrow> 'w client_shared \<Rightarrow> (buffer \<times> 'w client_shared) option" where
  "bench_alloc env nm sz var old stk s =
     map_option (\<lambda>(a, s'). (\<lparr>bf_local = (case ao_local a of None \<Rightarrow> bf_local old | Some p \<Rightarrow> p),
           bf_remote = (case ao_remote a of None \<Rightarrow> bf_remote old | Some p \<Rightarrow> p)\<rparr>, s'))
       (c_alloc_local_mem env (bytes_of nm) sz var stk s)"

definition bench_free ::
  "'w client_env \<Rightarrow> string \<Rightarrow> c_long \<Rightarrow> buffer \<Rightarrow> stack \<Rightarrow> 'w client_shared \<Rightarrow> 'w client_shared option" where
  "bench_free env nm sz b stk s = map_option snd (c_free_local_mem env (bytes_of nm) sz (bf_remote b) stk s)"

text \<open>What a function finds in its variables and on the stacks of its calls, the \<open>k\<close>-th call at \<open>k\<close>.\<close>

record frame =
  fr_read :: "c_ptr \<times> buffer"
  fr_write :: "c_ptr \<times> buffer"
  fr_poll :: "c_ptr \<times> buffer"
  fr_stk :: "nat \<Rightarrow> stack"

definition buffer_size :: c_long where "buffer_size = 4096 * 2"

text \<open>The two buffers that all functions share with the router, and their release.\<close>

definition alloc_buffers ::
  "'w client_env \<Rightarrow> string \<Rightarrow> frame \<Rightarrow> 'w client_shared \<Rightarrow> (buffer \<times> buffer \<times> 'w client_shared) option" where
  "alloc_buffers env who fr s =
     (case bench_alloc env (who @ ''_read'') buffer_size (fst (fr_read fr)) (snd (fr_read fr)) (fr_stk fr 0) s of
        None \<Rightarrow> None
      | Some (rd, s1) \<Rightarrow>
          map_option (\<lambda>(wr, s2). (rd, wr, s2))
            (bench_alloc env (who @ ''_write'') buffer_size (fst (fr_write fr)) (snd (fr_write fr)) (fr_stk fr 1) s1))"

definition free_buffers ::
  "'w client_env \<Rightarrow> string \<Rightarrow> buffer \<Rightarrow> buffer \<Rightarrow> (nat \<Rightarrow> stack) \<Rightarrow> 'w client_shared \<Rightarrow> 'w client_shared option" where
  "free_buffers env who rd wr stk s =
     (case bench_free env (who @ ''_read'') buffer_size rd (stk 0) s of
        None \<Rightarrow> None
      | Some s1 \<Rightarrow> bench_free env (who @ ''_write'') buffer_size wr (stk 1) s1)"

section \<open>Receiving\<close>

definition BLOCK_CALL :: c_int where "BLOCK_CALL = 1"

primrec recv_loop ::
  "'w client_env \<Rightarrow> c_int \<Rightarrow> c_ptr \<Rightarrow> c_ptr \<Rightarrow> nat \<Rightarrow> (nat \<Rightarrow> stack) \<Rightarrow> 'w client_shared \<Rightarrow> 'w client_shared" where
  "recv_loop env port rd wr 0 stk s = s"
| "recv_loop env port rd wr (Suc n) stk s =
     (case c_receive_message_fast env port rd 4096 BLOCK_CALL (stk 0) s of (_, descriptor, _, s1) \<Rightarrow>
        case c_reply_message env wr 4 descriptor (stk 1) s1 of (_, s2) \<Rightarrow>
          recv_loop env port rd wr n (\<lambda>k. stk (2 + k)) s2)"

text \<open>\<open>test_sync_rpc_recv\<close> and \<open>test_async_rpc_recv\<close> differ in the names of their buffers.\<close>

definition rpc_recv ::
  "'w client_env \<Rightarrow> string \<Rightarrow> thread_info \<Rightarrow> nat \<Rightarrow> frame \<Rightarrow> 'w client_shared \<Rightarrow> 'w client_shared option" where
  "rpc_recv env who info n fr s =
     (case alloc_buffers env who fr s of
        None \<Rightarrow> None
      | Some (rd, wr, s1) \<Rightarrow>
          free_buffers env who rd wr (\<lambda>k. fr_stk fr (2 + 2 * n + k))
            (recv_loop env (ti_inbound_port info) (bf_remote rd) (bf_remote wr) n (\<lambda>k. fr_stk fr (2 + k)) s1))"

definition test_sync_rpc_recv ::
  "'w client_env \<Rightarrow> thread_info \<Rightarrow> nat \<Rightarrow> frame \<Rightarrow> 'w client_shared \<Rightarrow> 'w client_shared option" where
  "test_sync_rpc_recv env = rpc_recv env ''test_sync_rpc_recv''"

definition test_async_rpc_recv ::
  "'w client_env \<Rightarrow> thread_info \<Rightarrow> nat \<Rightarrow> frame \<Rightarrow> 'w client_shared \<Rightarrow> 'w client_shared option" where
  "test_async_rpc_recv env = rpc_recv env ''test_async_rpc_recv''"

section \<open>Sending\<close>

primrec sync_loop ::
  "'w client_env \<Rightarrow> thread_info \<Rightarrow> c_ptr \<Rightarrow> c_ptr \<Rightarrow> c_ptr \<Rightarrow> nat \<Rightarrow> (nat \<Rightarrow> stack) \<Rightarrow> 'w client_shared \<Rightarrow>
   'w client_shared" where
  "sync_loop env info rd wr poll 0 stk s = s"
| "sync_loop env info rd wr poll (Suc n) stk s =
     (case c_send_reply_imm_fast env (ti_remote_nid info) (ti_outbound_port info) wr 4 rd poll 4096 (stk 0) s of
        (_, s1) \<Rightarrow> sync_loop env info rd wr poll n (\<lambda>k. stk (Suc k)) s1)"

text \<open>
  The two functions around their loops: the sizes of the poll array as they give it to the library
  and to \<open>memset\<close>, and a loop that makes \<open>n\<close> calls and measures \<open>'m\<close>.
\<close>

definition rpc_send_with ::
  "'w client_env \<Rightarrow> 'w host \<Rightarrow> string \<Rightarrow> c_long \<Rightarrow> nat \<Rightarrow> nat \<Rightarrow>
   (c_ptr \<Rightarrow> c_ptr \<Rightarrow> buffer \<Rightarrow> (nat \<Rightarrow> stack) \<Rightarrow> 'w client_shared \<Rightarrow> ('m \<times> 'w client_shared) option) \<Rightarrow> frame \<Rightarrow>
   'w client_shared \<Rightarrow> ((c_long \<times> 'm) \<times> 'w client_shared) option" where
  "rpc_send_with env h who sz zeros n loop fr s =
     (case alloc_buffers env who fr s of
        None \<Rightarrow> None
      | Some (rd, wr, s1) \<Rightarrow>
          (case bench_alloc env (who @ ''_poll_array'') sz (fst (fr_poll fr)) (snd (fr_poll fr)) (fr_stk fr 2) s1 of
             None \<Rightarrow> None
           | Some (poll, s2) \<Rightarrow>
               (case ho_memset h (bf_local poll) 0 zeros (snd s2) of
                  None \<Rightarrow> None
                | Some w2 \<Rightarrow>
                    (case timed h (loop (bf_remote rd) (bf_remote wr) poll (\<lambda>k. fr_stk fr (3 + k))) (fst s2, w2) of
                       None \<Rightarrow> None
                     | Some (m, s3) \<Rightarrow>
                         (case free_buffers env who rd wr (\<lambda>k. fr_stk fr (3 + n + k)) s3 of
                            None \<Rightarrow> None
                          | Some s4 \<Rightarrow>
                              map_option (Pair m) (bench_free env (who @ ''_poll_array'') sz poll (fr_stk fr (5 + n)) s4))))))"

definition test_sync_rpc_send ::
  "'w client_env \<Rightarrow> 'w host \<Rightarrow> thread_info \<Rightarrow> nat \<Rightarrow> frame \<Rightarrow> 'w client_shared \<Rightarrow>
   ((c_long \<times> unit) \<times> 'w client_shared) option" where
  "test_sync_rpc_send env h info n =
     rpc_send_with env h ''test_sync_rpc_send'' 4 4 n
       (\<lambda>rd wr poll stk s. Some ((), sync_loop env info rd wr (bf_remote poll) n stk s))"

text \<open>
  The asynchronous loop from call \<open>i\<close> on. \<open>ts\<close> are \<open>async_start_prev\<close> and \<open>async_start\<close>, \<open>lats\<close> the latencies that
  have been recorded: their number is \<open>nr_async_recorded\<close>, their sum \<open>total_async_lat\<close>. A
  batch size of 0 divides by zero, which has no meaning in C; the check of a batch waits on the slots of
  \<open>polled_slots\<close> and may never end.
\<close>

primrec wait_slots ::
  "'w lite_os \<Rightarrow> 'w host \<Rightarrow> c_ptr \<Rightarrow> c_int list \<Rightarrow> 'w \<Rightarrow> 'w option" where
  "wait_slots os h poll [] w = Some w"
| "wait_slots os h poll (slot # slots) w =
     (if \<not> ho_mapped h (poll + 4 * ucast slot) w then None
      else case wait_for_completion os (ho_time h) (poll + 4 * ucast slot) (wait_start w) of
        None \<Rightarrow> None
      | Some (printed, w1) \<Rightarrow> wait_slots os h poll slots w1)"

definition note_start :: "'w host \<Rightarrow> bool \<Rightarrow> timespec \<times> timespec \<Rightarrow> 'w \<Rightarrow> (timespec \<times> timespec) \<times> 'w" where
  "note_start h record_async ts w =
     (if record_async then case ho_monotonic h w of (t, w1) \<Rightarrow> ((snd ts, t), w1) else (ts, w))"

definition note_end :: "'w host \<Rightarrow> bool \<Rightarrow> timespec \<Rightarrow> c_long list \<Rightarrow> 'w \<Rightarrow> (c_long list \<times> 'w) option" where
  "note_end h record_async start_prev lats w =
     (if record_async
      then case ho_monotonic h w of (async_end, w1) \<Rightarrow>
        let async_diff_ns = timespec_diff_ns async_end start_prev
        in if 0 < sint async_diff_ns then Some (lats @ [async_diff_ns], w1) else None
      else Some (lats, w))"

definition check_batch ::
  "'w lite_os \<Rightarrow> 'w host \<Rightarrow> bool \<Rightarrow> timespec \<Rightarrow> c_int \<Rightarrow> c_int \<Rightarrow> c_ptr \<Rightarrow> c_long list \<Rightarrow> 'w \<Rightarrow> (c_long list \<times> 'w) option" where
  "check_batch os h record_async start_prev i batch poll lats w =
     (if batch_due i batch
      then case note_end h record_async start_prev lats w of
          None \<Rightarrow> None
        | Some (lats', w1) \<Rightarrow> map_option (Pair lats') (wait_slots os h poll (polled_slots i batch) w1)
      else Some (lats, w))"

primrec async_loop ::
  "'w client_env \<Rightarrow> 'w lite_os \<Rightarrow> 'w host \<Rightarrow> bool \<Rightarrow> thread_info \<Rightarrow> c_int \<Rightarrow> c_ptr \<Rightarrow> c_ptr \<Rightarrow> buffer \<Rightarrow> c_int \<Rightarrow> nat \<Rightarrow>
   timespec \<times> timespec \<Rightarrow> c_long list \<Rightarrow> (nat \<Rightarrow> stack) \<Rightarrow> 'w client_shared \<Rightarrow> (c_long list \<times> 'w client_shared) option" where
  "async_loop env os h latency info batch rd wr poll i 0 ts lats stk s = Some (lats, s)"
| "async_loop env os h latency info batch rd wr poll i (Suc n) ts lats stk s =
     (if batch = 0 then None
      else let record_async = (latency \<and> i mod batch = 0)
      in case note_start h record_async ts (snd s) of (ts1, w1) \<Rightarrow>
        case async_rpc env (ti_remote_nid info) (ti_outbound_port info) wr 4 rd
            (bf_remote poll + 4 * ucast (rpc_slot i batch)) 4096 (stk 0) (fst s, w1) of
          (_, s2) \<Rightarrow>
            (case check_batch os h record_async (fst ts1) i batch (bf_local poll) lats (snd s2) of
               None \<Rightarrow> None
             | Some (lats', w3) \<Rightarrow>
                 async_loop env os h latency info batch rd wr poll (i + 1) n ts1 lats' (\<lambda>k. stk (Suc k)) (fst s2, w3)))"

text \<open>\<open>memset(&async_start_prev, 0, ...)\<close>\<close>

definition no_times :: "timespec \<times> timespec" where
  "no_times = (\<lparr>tv_sec = 0, tv_nsec = 0\<rparr>, \<lparr>tv_sec = 0, tv_nsec = 0\<rparr>)"

definition test_async_rpc_send ::
  "'w client_env \<Rightarrow> 'w lite_os \<Rightarrow> 'w host \<Rightarrow> bool \<Rightarrow> c_int \<Rightarrow> thread_info \<Rightarrow> nat \<Rightarrow>
   frame \<Rightarrow> 'w client_shared \<Rightarrow> ((c_long \<times> c_long list) \<times> 'w client_shared) option" where
  "test_async_rpc_send env os h latency batch info n =
     rpc_send_with env h ''test_async_rpc_send'' (4 * ucast batch) (4 * unat batch) n
       (\<lambda>rd wr poll. async_loop env os h latency info batch rd wr poll 0 n no_times [])"

section \<open>Threads and \<open>run\<close>\<close>

definition nr_rpc :: nat where "nr_rpc = 1000 * 1000 * 1"

definition thread_recv ::
  "'w client_env \<Rightarrow> thread_info \<Rightarrow> frame \<Rightarrow> frame \<Rightarrow> 'w client_shared \<Rightarrow> 'w client_shared option" where
  "thread_recv env info fr fr' s =
     (case test_async_rpc_recv env info nr_rpc fr s of
        None \<Rightarrow> None
      | Some s1 \<Rightarrow> test_sync_rpc_recv env info nr_rpc fr' s1)"

text \<open>What the sending thread has measured: its asynchronous calls, with their latencies, and its synchronous ones.\<close>

type_synonym measured = "(c_long \<times> c_long list) \<times> c_long"

definition thread_send_lat ::
  "'w client_env \<Rightarrow> 'w lite_os \<Rightarrow> 'w host \<Rightarrow> bool \<Rightarrow> c_int \<Rightarrow> thread_info \<Rightarrow> frame \<Rightarrow> frame \<Rightarrow>
   'w client_shared \<Rightarrow> (measured \<times> 'w client_shared) option" where
  "thread_send_lat env os h latency batch info fr fr' s =
     (case test_async_rpc_send env os h latency batch info nr_rpc fr s of
        None \<Rightarrow> None
      | Some (m, s1) \<Rightarrow>
          map_option (\<lambda>(q, s2). ((m, fst q), s2)) (test_sync_rpc_send env h info nr_rpc fr' s1))"

text \<open>Both branches of \<open>run\<close> register, meet the other side and query its port, then start the threads.\<close>

definition run_prelude ::
  "'w client_env \<Rightarrow> thread_info \<Rightarrow> (nat \<Rightarrow> stack) \<Rightarrow> 'w client_shared \<Rightarrow> 'w client_shared option" where
  "run_prelude env info stk s =
     (case c_register_application env (ti_inbound_port info) 4096 16 (bytes_of ''test.1'') 6 (stk 0) s of
        None \<Rightarrow> None
      | Some (_, s1) \<Rightarrow>
          (case c_dist_barrier env 2 (stk 1) s1 of (_, s2) \<Rightarrow>
             Some (snd (c_query_port env (ti_remote_nid info) (ti_outbound_port info) (stk 2) s2))))"

text \<open>\<open>run\<close> with one thread; the receiving side measures nothing.\<close>

definition run_one ::
  "'w client_env \<Rightarrow> 'w lite_os \<Rightarrow> 'w host \<Rightarrow> bench_config \<Rightarrow> (nat \<Rightarrow> stack) \<Rightarrow> frame \<Rightarrow> frame \<Rightarrow>
   'w client_shared \<Rightarrow> (measured option \<times> 'w client_shared) option" where
  "run_one env os h c stk fr fr' s =
     (let info = hd (bench_threads (bc_server c) (bc_remote_nid c) (unat (bc_threads c)))
      in case run_prelude env info stk s of
           None \<Rightarrow> None
         | Some s1 \<Rightarrow>
             if bc_server c then map_option (Pair None) (thread_recv env info fr fr' s1)
             else map_option (\<lambda>(m, s2). (Some m, s2)) (thread_send_lat env os h (bc_latency c) (bc_batch c) info fr fr' s1))"

section \<open>The program on the router\<close>

text \<open>
  The same run as the router sees it. Its state has the two words that the response object of the
  thread holds, the descriptor and the length, and the world; the first allocation overwrites the
  descriptor with the address, which shares its place.
\<close>

type_synonym 'w rsp_world = "c_long \<times> c_int \<times> 'w"

definition buffer_on_router ::
  "'w router_env \<Rightarrow> string \<Rightarrow> c_long \<Rightarrow> buffer \<Rightarrow> 'w rsp_world \<Rightarrow> buffer \<times> 'w rsp_world" where
  "buffer_on_router renv nm sz old x =
     (case x of (d, len, w) \<Rightarrow>
        case alloc_shm_mem (re_shm renv) (bytes_of nm) sz w of (r, a, w1) \<Rightarrow>
          let d1 = (case a of None \<Rightarrow> d | Some p \<Rightarrow> p)
          in if r \<noteq> 0 then (old, (d1, len, w1))
             else case sh_open (re_shm renv) (bytes_of nm) False w1 of (fd, w2) \<Rightarrow>
               if fd < 0 then (old, (d1, len, w2))
               else case sh_mmap (re_shm renv) sz fd w2 of (p, w3) \<Rightarrow>
                 (\<lparr>bf_local = p, bf_remote = the a\<rparr>, (d1, len, w3)))"

definition release_on_router ::
  "'w router_env \<Rightarrow> string \<Rightarrow> c_long \<Rightarrow> buffer \<Rightarrow> 'w rsp_world \<Rightarrow> 'w rsp_world" where
  "release_on_router renv nm sz b x =
     (case x of (d, len, w) \<Rightarrow> (d, len, snd (free_shm_mem (re_shm renv) (bytes_of nm) sz (bf_remote b) w)))"

primrec serve_loop ::
  "'w router_env \<Rightarrow> c_int \<Rightarrow> c_ptr \<Rightarrow> c_ptr \<Rightarrow> nat \<Rightarrow> 'w rsp_world \<Rightarrow> 'w rsp_world option" where
  "serve_loop renv port rd wr 0 x = Some x"
| "serve_loop renv port rd wr (Suc n) x =
     (case x of (d0, len0, w) \<Rightarrow>
        case lite_receive_message_fast (re_lite renv) port rd 4096 (re_rsp_addr renv + 8) (re_rsp_addr renv + 16) BLOCK_CALL
            (os_store32 (re_lite renv) (re_rsp_addr renv + 16) len0
              (os_store64 (re_lite renv) (re_rsp_addr renv + 8) d0 w)) of
          None \<Rightarrow> None
        | Some (r, w1) \<Rightarrow>
            (case os_load64 (re_lite renv) (re_rsp_addr renv + 8) w1 of (d, w2) \<Rightarrow>
               case os_load32 (re_lite renv) (re_rsp_addr renv + 16) w2 of (len, w3) \<Rightarrow>
                 case lite_reply_message (re_lite renv) wr 4 d w3 of (q, w4) \<Rightarrow> serve_loop renv port rd wr n (d, len, w4)))"

definition recv_on_router ::
  "'w router_env \<Rightarrow> string \<Rightarrow> thread_info \<Rightarrow> nat \<Rightarrow> frame \<Rightarrow> 'w rsp_world \<Rightarrow> 'w rsp_world option" where
  "recv_on_router renv who info n fr x =
     (case buffer_on_router renv (who @ ''_read'') buffer_size (snd (fr_read fr)) x of (rd, x1) \<Rightarrow>
        case buffer_on_router renv (who @ ''_write'') buffer_size (snd (fr_write fr)) x1 of (wr, x2) \<Rightarrow>
          map_option (\<lambda>x3. release_on_router renv (who @ ''_write'') buffer_size wr
              (release_on_router renv (who @ ''_read'') buffer_size rd x3))
            (serve_loop renv (ti_inbound_port info) (bf_remote rd) (bf_remote wr) n x2))"

text \<open>
  The sides that send. The state also has the routing state, since the node is looked up for every
  call; a batch is checked in the same world.
\<close>

primrec send_loop ::
  "'w router_env \<Rightarrow> thread_info \<Rightarrow> c_ptr \<Rightarrow> c_ptr \<Rightarrow> nat \<Rightarrow> routing_state \<times> 'w rsp_world \<Rightarrow>
   (routing_state \<times> 'w rsp_world) option" where
  "send_loop renv info rd poll 0 y = Some y"
| "send_loop renv info rd poll (Suc n) y =
     (case y of (rt, d, len, w) \<Rightarrow>
        case resolve_node renv (ti_remote_nid info) (rt, w) of (nid, rt', w1) \<Rightarrow>
          (case lite_send_reply_imm_fast (re_lite renv) nid (ti_outbound_port info) rd 4 rd poll 4096 w1 of
             None \<Rightarrow> None
           | Some (r, w2) \<Rightarrow> send_loop renv info rd poll n (rt', d, len, w2)))"

primrec async_send_loop ::
  "'w router_env \<Rightarrow> 'w host \<Rightarrow> bool \<Rightarrow> thread_info \<Rightarrow> c_int \<Rightarrow> c_ptr \<Rightarrow> buffer \<Rightarrow> c_int \<Rightarrow> nat \<Rightarrow> timespec \<times> timespec \<Rightarrow>
   c_long list \<Rightarrow> routing_state \<times> 'w rsp_world \<Rightarrow> (c_long list \<times> routing_state \<times> 'w rsp_world) option" where
  "async_send_loop renv h latency info batch rd poll i 0 ts lats y = Some (lats, y)"
| "async_send_loop renv h latency info batch rd poll i (Suc n) ts lats y =
     (if batch = 0 then None
      else let record_async = (latency \<and> i mod batch = 0)
      in case y of (rt, d, len, w) \<Rightarrow>
        case note_start h record_async ts w of (ts1, w1) \<Rightarrow>
          case send_loop renv info rd (bf_remote poll + 4 * ucast (rpc_slot i batch)) 1 (rt, d, len, w1) of
            None \<Rightarrow> None
          | Some (rt', d', len', w2) \<Rightarrow>
              (case check_batch (re_lite renv) h record_async (fst ts1) i batch (bf_local poll) lats w2 of
                 None \<Rightarrow> None
               | Some (lats', w3) \<Rightarrow>
                   async_send_loop renv h latency info batch rd poll (i + 1) n ts1 lats' (rt', d', len', w3)))"

text \<open>The frame of both: three buffers around a timed loop that gets the two addresses it uses.\<close>

definition timed_on_router ::
  "'w host \<Rightarrow> (routing_state \<times> 'w rsp_world \<Rightarrow> ('m \<times> routing_state \<times> 'w rsp_world) option) \<Rightarrow>
   routing_state \<times> 'w rsp_world \<Rightarrow> ((c_long \<times> 'm) \<times> routing_state \<times> 'w rsp_world) option" where
  "timed_on_router h loop y =
     (case y of (rt, d, len, w) \<Rightarrow>
        case ho_monotonic h w of (start, w1) \<Rightarrow>
          case loop (rt, d, len, w1) of
            None \<Rightarrow> None
          | Some (m, rt', d', len', w2) \<Rightarrow>
              (case ho_monotonic h w2 of (end_time, w3) \<Rightarrow>
                 Some ((timespec_diff_ns end_time start, m), (rt', d', len', w3))))"

definition send_on_router ::
  "'w router_env \<Rightarrow> 'w host \<Rightarrow> string \<Rightarrow> c_long \<Rightarrow> nat \<Rightarrow>
   (c_ptr \<Rightarrow> buffer \<Rightarrow> routing_state \<times> 'w rsp_world \<Rightarrow> ('m \<times> routing_state \<times> 'w rsp_world) option) \<Rightarrow> frame \<Rightarrow>
   routing_state \<times> 'w rsp_world \<Rightarrow> ((c_long \<times> 'm) \<times> routing_state \<times> 'w rsp_world) option" where
  "send_on_router renv h who sz zeros loop fr y =
     (case buffer_on_router renv (who @ ''_read'') buffer_size (snd (fr_read fr)) (snd y) of (rd, x1) \<Rightarrow>
        case buffer_on_router renv (who @ ''_write'') buffer_size (snd (fr_write fr)) x1 of (wr, x2) \<Rightarrow>
          case buffer_on_router renv (who @ ''_poll_array'') sz (snd (fr_poll fr)) x2 of (poll, d, len, w) \<Rightarrow>
            (case ho_memset h (bf_local poll) 0 zeros w of
               None \<Rightarrow> None
             | Some w1 \<Rightarrow>
                 map_option (\<lambda>(m, rt, x3). (m, rt, release_on_router renv (who @ ''_poll_array'') sz poll
                     (release_on_router renv (who @ ''_write'') buffer_size wr
                       (release_on_router renv (who @ ''_read'') buffer_size rd x3))))
                   (timed_on_router h (loop (bf_remote rd) poll) (fst y, d, len, w1))))"

definition sync_send_on_router ::
  "'w router_env \<Rightarrow> 'w host \<Rightarrow> thread_info \<Rightarrow> nat \<Rightarrow> frame \<Rightarrow>
   routing_state \<times> 'w rsp_world \<Rightarrow> ((c_long \<times> unit) \<times> routing_state \<times> 'w rsp_world) option" where
  "sync_send_on_router renv h info n =
     send_on_router renv h ''test_sync_rpc_send'' 4 4
       (\<lambda>rd poll y. map_option (Pair ()) (send_loop renv info rd (bf_remote poll) n y))"

definition async_send_on_router ::
  "'w router_env \<Rightarrow> 'w host \<Rightarrow> bool \<Rightarrow> c_int \<Rightarrow> thread_info \<Rightarrow> nat \<Rightarrow> frame \<Rightarrow>
   routing_state \<times> 'w rsp_world \<Rightarrow> ((c_long \<times> c_long list) \<times> routing_state \<times> 'w rsp_world) option" where
  "async_send_on_router renv h latency batch info n =
     send_on_router renv h ''test_async_rpc_send'' (4 * ucast batch) (4 * unat batch)
       (\<lambda>rd poll. async_send_loop renv h latency info batch rd poll 0 n no_times [])"

text \<open>
  The rest of the run: the registration, for which \<open>behind\<close> are the bytes behind the name in the
  request object, the barrier, the lookup of the port on the node that the other side's number stands
  for, and the two functions.
\<close>

definition meet_on_router :: "'w router_env \<Rightarrow> thread_info \<Rightarrow> routing_state \<times> 'w rsp_world \<Rightarrow> routing_state \<times> 'w rsp_world" where
  "meet_on_router renv info y =
     (case y of (rt, d, len, w) \<Rightarrow>
        case lite_dist_barrier (re_lite renv) 2 w of (b, w1) \<Rightarrow>
          case resolve_node renv (ti_remote_nid info) (rt, w1) of (nid, rt', w2) \<Rightarrow>
            case lite_query_port (re_lite renv) nid (ti_outbound_port info) w2 of (q, w3) \<Rightarrow> (rt', d, len, w3))"

definition bench_on_router ::
  "'w router_env \<Rightarrow> 'w host \<Rightarrow> bench_config \<Rightarrow> byte list \<Rightarrow> frame \<Rightarrow> frame \<Rightarrow>
   routing_state \<times> 'w rsp_world \<Rightarrow> (measured option \<times> routing_state \<times> 'w rsp_world) option" where
  "bench_on_router renv h c behind fr fr' y =
     (let info = (if bc_server c
          then \<lparr>ti_inbound_port = 1, ti_outbound_port = 2, ti_tid = 0, ti_remote_nid = bc_remote_nid c\<rparr>
          else \<lparr>ti_inbound_port = 2, ti_outbound_port = 1, ti_tid = 0, ti_remote_nid = bc_remote_nid c\<rparr>)
      in case y of (rt0, d, len, w) \<Rightarrow>
        case lite_register_application (re_lite renv) (ti_inbound_port info) 4096 16
            (bytes_of ''test.1'' @ behind) 6 w of (r, w0) \<Rightarrow>
          case meet_on_router renv info (rt0, d, len, w0) of (rt, x) \<Rightarrow>
            if bc_server c
            then (case recv_on_router renv ''test_async_rpc_recv'' info nr_rpc fr x of
                    None \<Rightarrow> None
                  | Some x1 \<Rightarrow>
                      map_option (\<lambda>x2. (None, rt, x2)) (recv_on_router renv ''test_sync_rpc_recv'' info nr_rpc fr' x1))
            else (case async_send_on_router renv h (bc_latency c) (bc_batch c) info nr_rpc fr (rt, x) of
                    None \<Rightarrow> None
                  | Some (m, y1) \<Rightarrow>
                      map_option (\<lambda>(q, y2). (Some (m, fst q), y2)) (sync_send_on_router renv h info nr_rpc fr' y1)))"

section \<open>Steps of the program over a link\<close>

text \<open>The link is ready and the router's thread and world are as given.\<close>

definition at_router :: "client_state \<Rightarrow> routing_state \<Rightarrow> 'w rsp_world \<Rightarrow> 'w rlink \<Rightarrow> bool" where
  "at_router cs rt x l = (rlink_ready (cs, l) \<and> shared (sk_conn l) = (rt, snd (snd x)) \<and>
     get_descriptor (rl_rsp (locals (sk_conn l))) = fst x \<and> get_ret_length (rl_rsp (locals (sk_conn l))) = fst (snd x))"

lemma at_routerD:
  assumes "at_router cs rt (d, len, w) l"
  shows "rlink_ready (cs, l)" and "shared (sk_conn l) = (rt, w)" and "length (rl_rsp (locals (sk_conn l))) = 24"
    and "get_descriptor (rl_rsp (locals (sk_conn l))) = d" and "get_ret_length (rl_rsp (locals (sk_conn l))) = len"
  using assms by (simp_all add: at_router_def rlink_ready_def slink_ready_def router_linv_def)

lemma put_remote_addr_descriptor: "put_remote_addr = put_descriptor"
  by (simp add: fun_eq_iff codec_defs)

lemma at_router_carried:
  assumes "at_router cs rt (d, len, w) l" and "carried stub (cs, l) rt' res"
  obtains l' where "stub (cs, l) = (fst res, (cs, l'))" and "at_router cs rt' (d, len, snd res) l'"
  using assms at_routerD(3-5) [OF assms(1)] by (auto simp: carried_def at_router_def rsp_fields)

definition buffer_name :: "string \<Rightarrow> bool" where
  "buffer_name nm = (is_cstr (bytes_of nm) \<and> length nm < 256)"

lemma bench_alloc_on_router:
  assumes "at_router cs rt x l" and "stack_ok stk" and "var \<noteq> MAP_FAILED" and "ce_shm env = world_shm (re_shm renv)"
    and "buffer_name nm"
  obtains l' where "bench_alloc (on_router renv env) nm sz var old stk (cs, l) =
      Some (fst (buffer_on_router renv nm sz old x), (cs, l'))"
    and "at_router cs rt (snd (buffer_on_router renv nm sz old x)) l'"
proof -
  let ?nm = "bytes_of nm"
  obtain d len w where x: "x = (d, len, w)"
    by (rule prod_cases3)
  note at = at_routerD [OF assms(1) [unfolded x]]
  obtain r a w1 where a: "alloc_shm_mem (re_shm renv) ?nm sz w = (r, a, w1)"
    by (rule prod_cases3)
  obtain fd w2 where o: "sh_open (re_shm renv) ?nm False w1 = (fd, w2)"
    by (rule prod.exhaust)
  obtain p w3 where m: "sh_mmap (re_shm renv) sz fd w2 = (p, w3)"
    by (rule prod.exhaust)
  have nm: "is_cstr ?nm" "length ?nm < 256"
    using assms(5) by (simp_all add: buffer_name_def bytes_of_def)
  obtain out l' where c: "c_alloc_local_mem (on_router renv env) ?nm sz var stk (cs, l) = Some (out, (cs, l'))" "rlink_ready (cs, l')"
    and e: "r \<noteq> 0 \<longrightarrow> sint (ao_ret out) < 0 \<and> shared (sk_conn l') = (rt, w1)"
      "r = 0 \<and> fd < 0 \<longrightarrow> sint (ao_ret out) < 0 \<and> shared (sk_conn l') = (rt, w2)"
      "r = 0 \<and> \<not> fd < 0 \<longrightarrow> ao_ret out = 0 \<and> ao_local out = Some p \<and> ao_remote out = a \<and> shared (sk_conn l') = (rt, w3)"
      "r \<noteq> 0 \<or> fd < 0 \<longrightarrow> ao_local out = None \<and> ao_remote out = None"
    and rsp: "rl_rsp (locals (sk_conn l')) =
      put_int_rsp r (case a of None \<Rightarrow> rl_rsp (locals (sk_conn l)) | Some p \<Rightarrow> put_remote_addr p (rl_rsp (locals (sk_conn l))))"
    by (rule shared_alloc [OF at(1) assms(2) at(2) assms(3,4) a o m nm])
  have words: "get_descriptor (rl_rsp (locals (sk_conn l'))) = (case a of None \<Rightarrow> d | Some p \<Rightarrow> p)"
    "get_ret_length (rl_rsp (locals (sk_conn l'))) = len"
    using at(3-5) by (simp_all add: rsp put_remote_addr_descriptor rsp_fields split: option.split)
  from alloc_shm_mem_result [OF a] have "r \<noteq> 0 \<or> a \<noteq> None"
    by auto
  then show thesis
    using c e words x a o m
    by (intro that [of l']) (auto simp: bench_alloc_def buffer_on_router_def at_router_def Let_def)
qed

lemma bench_free_on_router:
  assumes "at_router cs rt x l" and "stack_ok stk" and "buffer_name nm"
  obtains l' where "bench_free (on_router renv env) nm sz b stk (cs, l) = Some (cs, l')"
    and "at_router cs rt (release_on_router renv nm sz b x) l'"
proof -
  obtain d len w where x: "x = (d, len, w)"
    by (rule prod_cases3)
  note at = at_routerD [OF assms(1) [unfolded x]]
  have nm: "is_cstr (bytes_of nm)" "length (bytes_of nm) < 256"
    using assms(3) by (simp_all add: buffer_name_def bytes_of_def)
  obtain req where req: "req_free_local_mem (bytes_of nm) sz (bf_remote b) (stk_req stk) = Some req"
    and c: "carried (call_int (on_router renv env) req (stk_rsp stk)) (cs, l) rt
      (free_shm_mem (re_shm renv) (bytes_of nm) sz (bf_remote b) w)"
    by (rule carried_free_local [OF at(1) assms(2) at(2) nm])
  show thesis
    by (rule at_router_carried [OF assms(1) [unfolded x] c])
      (use req x in \<open>intro that; simp add: bench_free_def c_free_local_mem_def release_on_router_def\<close>)
qed

lemma recv_loop_on_router:
  assumes "at_router cs rt x l" and "\<And>k. stack_ok (stk k)" and "serve_loop renv port rd wr n x = Some x'"
  shows "\<exists>l'. recv_loop (on_router renv env) port rd wr n stk (cs, l) = (cs, l') \<and> at_router cs rt x' l'"
  using assms
proof (induction n arbitrary: l x stk)
  case (Suc n)
  let ?dp = "re_rsp_addr renv + 8" and ?lp = "re_rsp_addr renv + 16"
  obtain d0 len0 w where x: "x = (d0, len0, w)"
    by (rule prod_cases3)
  note at = at_routerD [OF Suc.prems(1) [unfolded x]]
  let ?w0 = "os_store32 (re_lite renv) ?lp len0 (os_store64 (re_lite renv) ?dp d0 w)"
  obtain r w1 where call: "lite_receive_message_fast (re_lite renv) port rd 4096 ?dp ?lp BLOCK_CALL ?w0 = Some (r, w1)"
    using Suc.prems(3) x by (auto split: option.split_asm)
  obtain d w2 where d: "os_load64 (re_lite renv) ?dp w1 = (d, w2)"
    by (rule prod.exhaust)
  obtain len w3 where len: "os_load32 (re_lite renv) ?lp w2 = (len, w3)"
    by (rule prod.exhaust)
  let ?q = "lite_reply_message (re_lite renv) wr 4 d w3"
  obtain l1 where l1: "c_receive_message_fast (on_router renv env) port rd 4096 BLOCK_CALL (stk 0) (cs, l) = (r, d, len, (cs, l1))"
    and at1: "at_router cs rt (d, len, w3) l1"
    by (rule served_receive [where env = env, OF at(1) Suc.prems(2) [of 0] at(2) refl, unfolded at(4,5), OF call d len])
      (simp add: at_router_def)
  note r1 = at_routerD(1,2) [OF at1]
  obtain l2 where l2: "c_reply_message (on_router renv env) wr 4 d (stk 1) (cs, l1) = (fst ?q, (cs, l2))"
    and at2: "at_router cs rt (d, len, snd ?q) l2"
    by (rule at_router_carried [OF at1 carried_wrappers(3) [OF r1(1) Suc.prems(2) [of 1] r1(2)]])
  have "serve_loop renv port rd wr n (d, len, snd ?q) = Some x'"
    using Suc.prems(3) by (simp add: x call d len case_prod_beta)
  then show ?case
    using Suc.IH [OF at2, of "\<lambda>k. stk (2 + k)"] Suc.prems(2) by (simp add: l1 l2 [simplified])
qed simp

text \<open>The buffers of a function, all stacks and names in order.\<close>

definition frame_ok :: "frame \<Rightarrow> bool" where
  "frame_ok fr = (fst (fr_read fr) \<noteq> MAP_FAILED \<and> fst (fr_write fr) \<noteq> MAP_FAILED \<and> fst (fr_poll fr) \<noteq> MAP_FAILED)"

lemma alloc_buffers_on_router:
  assumes "at_router cs rt x l" and "\<And>k. stack_ok (fr_stk fr k)" and "frame_ok fr" and "ce_shm env = world_shm (re_shm renv)"
    and "buffer_name (who @ ''_read'')" and "buffer_name (who @ ''_write'')"
    and rd: "buffer_on_router renv (who @ ''_read'') buffer_size (snd (fr_read fr)) x = (rd, x1)"
    and wr: "buffer_on_router renv (who @ ''_write'') buffer_size (snd (fr_write fr)) x1 = (wr, x2)"
  obtains l' where "alloc_buffers (on_router renv env) who fr (cs, l) = Some (rd, wr, (cs, l'))" and "at_router cs rt x2 l'"
proof -
  have v: "fst (fr_read fr) \<noteq> MAP_FAILED" "fst (fr_write fr) \<noteq> MAP_FAILED"
    using assms(3) by (simp_all add: frame_ok_def)
  obtain l1 where l1: "bench_alloc (on_router renv env) (who @ ''_read'') buffer_size (fst (fr_read fr)) (snd (fr_read fr))
      (fr_stk fr 0) (cs, l) = Some (rd, (cs, l1))" "at_router cs rt x1 l1"
    by (rule bench_alloc_on_router [OF assms(1) assms(2) [of 0] v(1) assms(4,5), of buffer_size "snd (fr_read fr)", unfolded rd])
      (simp add: that)
  obtain l2 where l2: "bench_alloc (on_router renv env) (who @ ''_write'') buffer_size (fst (fr_write fr)) (snd (fr_write fr))
      (fr_stk fr 1) (cs, l1) = Some (wr, (cs, l2))" "at_router cs rt x2 l2"
    by (rule bench_alloc_on_router [OF l1(2) assms(2) [of 1] v(2) assms(4,6), of buffer_size "snd (fr_write fr)", unfolded wr])
      (simp add: that)
  show thesis
    by (rule that [OF _ l2(2)]) (simp add: alloc_buffers_def l1 l2 [simplified])
qed

lemma free_buffers_on_router:
  assumes "at_router cs rt x l" and "\<And>k. stack_ok (stk k)" and "buffer_name (who @ ''_read'')" and "buffer_name (who @ ''_write'')"
  obtains l' where "free_buffers (on_router renv env) who rd wr stk (cs, l) = Some (cs, l')"
    and "at_router cs rt (release_on_router renv (who @ ''_write'') buffer_size wr
      (release_on_router renv (who @ ''_read'') buffer_size rd x)) l'"
proof -
  obtain l1 where l1: "bench_free (on_router renv env) (who @ ''_read'') buffer_size rd (stk 0) (cs, l) = Some (cs, l1)"
    "at_router cs rt (release_on_router renv (who @ ''_read'') buffer_size rd x) l1"
    by (rule bench_free_on_router [OF assms(1) assms(2) assms(3)])
  obtain l2 where l2: "bench_free (on_router renv env) (who @ ''_write'') buffer_size wr (stk 1) (cs, l1) = Some (cs, l2)"
    "at_router cs rt (release_on_router renv (who @ ''_write'') buffer_size wr
      (release_on_router renv (who @ ''_read'') buffer_size rd x)) l2"
    by (rule bench_free_on_router [OF l1(2) assms(2) assms(4)])
  show thesis
    by (rule that [OF _ l2(2)]) (simp add: free_buffers_def l1 l2 [simplified])
qed

lemma rpc_recv_on_router:
  assumes "at_router cs rt x l" and "\<And>k. stack_ok (fr_stk fr k)" and "frame_ok fr" and "ce_shm env = world_shm (re_shm renv)"
    and nm: "buffer_name (who @ ''_read'')" "buffer_name (who @ ''_write'')"
    and run: "recv_on_router renv who info n fr x = Some x'"
  obtains l' where "rpc_recv (on_router renv env) who info n fr (cs, l) = Some (cs, l')" and "at_router cs rt x' l'"
proof -
  obtain rd x1 where rd: "buffer_on_router renv (who @ ''_read'') buffer_size (snd (fr_read fr)) x = (rd, x1)"
    by (rule prod.exhaust)
  obtain wr x2 where wr: "buffer_on_router renv (who @ ''_write'') buffer_size (snd (fr_write fr)) x1 = (wr, x2)"
    by (rule prod.exhaust)
  obtain x3 where loop: "serve_loop renv (ti_inbound_port info) (bf_remote rd) (bf_remote wr) n x2 = Some x3"
    and x': "x' = release_on_router renv (who @ ''_write'') buffer_size wr (release_on_router renv (who @ ''_read'') buffer_size rd x3)"
    using run by (auto simp: recv_on_router_def rd wr)
  obtain l1 where l1: "alloc_buffers (on_router renv env) who fr (cs, l) = Some (rd, wr, (cs, l1))" "at_router cs rt x2 l1"
    by (rule alloc_buffers_on_router [OF assms(1-4) nm rd wr])
  obtain l2 where l2: "recv_loop (on_router renv env) (ti_inbound_port info) (bf_remote rd) (bf_remote wr) n
      (\<lambda>k. fr_stk fr (2 + k)) (cs, l1) = (cs, l2)" "at_router cs rt x3 l2"
    using recv_loop_on_router [where stk = "\<lambda>k. fr_stk fr (2 + k)" and env = env, OF l1(2) assms(2) loop] by blast
  obtain l3 where l3: "free_buffers (on_router renv env) who rd wr (\<lambda>k. fr_stk fr (2 + 2 * n + k)) (cs, l2) = Some (cs, l3)"
    "at_router cs rt x' l3"
    unfolding x' by (rule free_buffers_on_router [OF l2(2) assms(2) nm])
  show thesis
    by (rule that [OF _ l3(2)]) (simp add: rpc_recv_def l1 l2 [simplified] l3 [simplified])
qed

section \<open>Sending over a link\<close>

text \<open>What the client does with its own memory and clock is done in the router's world.\<close>

definition world_os :: "'w lite_os \<Rightarrow> 'w rlink lite_os" where
  "world_os os = \<lparr>os_syscall = (\<lambda>nr args. with_world (os_syscall os nr args)),
     os_load64 = (\<lambda>p. with_world (os_load64 os p)),
     os_store64 = (\<lambda>p v l. snd (with_world (\<lambda>w. ((), os_store64 os p v w)) l)),
     os_store32 = (\<lambda>p v l. snd (with_world (\<lambda>w. ((), os_store32 os p v w)) l)),
     os_load32 = (\<lambda>p. with_world (os_load32 os p)),
     os_usleep = (\<lambda>l. snd (with_world (\<lambda>w. ((), os_usleep os w)) l)),
     os_open_lite_mmap = with_world (os_open_lite_mmap os),
     os_mmap_private = (\<lambda>n fd. with_world (os_mmap_private os n fd))\<rparr>"

lemma at_router_world:
  assumes "at_router cs rt (d, len, w) l" and "f w = (r, w')"
  obtains l' where "with_world f l = (r, l')" and "at_router cs rt (d, len, w') l'"
  using assms by (auto simp: at_router_def with_world_def rlink_ready_def slink_ready_def)

definition world_host :: "'w host \<Rightarrow> 'w rlink host" where
  "world_host h = \<lparr>ho_memset = world_stamp (ho_memset h),
     ho_mapped = (\<lambda>p l. ho_mapped h p (snd (shared (sk_conn l)))),
     ho_monotonic = with_world (ho_monotonic h), ho_time = with_world (ho_time h)\<rparr>"

lemma world_host_simps [simp]:
  "ho_memset (world_host h) = world_stamp (ho_memset h)" "ho_monotonic (world_host h) = with_world (ho_monotonic h)"
  "ho_time (world_host h) = with_world (ho_time h)"
  by (simp_all add: world_host_def)

lemma at_router_mapped: "at_router cs rt (d, len, w) l \<Longrightarrow> ho_mapped (world_host h) p l = ho_mapped h p w"
  by (simp add: at_router_def world_host_def)

lemma at_router_stamp:
  assumes "at_router cs rt (d, len, w) l" and "stamp p b n w = Some w'"
  obtains l' where "world_stamp stamp p b n l = Some l'" and "at_router cs rt (d, len, w') l'"
  using assms by (auto simp: at_router_def world_stamp_def rlink_ready_def slink_ready_def)

lemma wait_turn_world:
  assumes "at_router cs rt (d, len, w) l" and "wait_turn clock (start, printed, w) = (start', printed', w')"
  obtains l' where "wait_turn (with_world clock) (start, printed, l) = (start', printed', l')"
    and "at_router cs rt (d, len, w') l'"
proof -
  obtain t w1 where t: "(case start of None \<Rightarrow> clock w | Some t \<Rightarrow> (t, w)) = (t, w1)"
    by (rule prod.exhaust)
  obtain l1 where l1: "(case start of None \<Rightarrow> with_world clock l | Some t \<Rightarrow> (t, l)) = (t, l1)" "at_router cs rt (d, len, w1) l1"
  proof (cases start)
    case None
    then have "clock w = (t, w1)"
      using t by simp
    then obtain l1 where "with_world clock l = (t, l1)" "at_router cs rt (d, len, w1) l1"
      by (rule at_router_world [where f = clock, OF assms(1)])
    then show thesis
      by (intro that [of l1]) (simp_all add: None)
  qed (use assms(1) t in \<open>auto intro: that\<close>)
  obtain now w2 where n: "clock w1 = (now, w2)"
    by (rule prod.exhaust)
  obtain l2 where l2: "with_world clock l1 = (now, l2)" "at_router cs rt (d, len, w2) l2"
    by (rule at_router_world [where f = clock, OF l1(2) n])
  show thesis
    by (rule that [of l2]) (use assms(2) l1(1) l2 t n in \<open>auto simp: wait_turn_def\<close>)
qed

lemma wait_for_completion_world:
  assumes "wait_for_completion os clock p s = Some r" and "at_router cs rt (d, len, snd (snd s)) l"
  obtains l' where "wait_for_completion (world_os os) (with_world clock) p (fst s, fst (snd s), l) = Some (fst r, l')"
    and "at_router cs rt (d, len, snd r) l'"
proof -
  have "\<forall>l. at_router cs rt (d, len, snd (snd s)) l \<longrightarrow>
      (\<exists>l'. wait_for_completion (world_os os) (with_world clock) p (fst s, fst (snd s), l) = Some (fst r, l') \<and>
        at_router cs rt (d, len, snd r) l')"
  proof (rule wait_for_completion.raw_induct [where P = "\<lambda>os clock p s r. \<forall>l. at_router cs rt (d, len, snd (snd s)) l \<longrightarrow>
      (\<exists>l'. wait_for_completion (world_os os) (with_world clock) p (fst s, fst (snd s), l) = Some (fst r, l') \<and>
        at_router cs rt (d, len, snd r) l')", OF _ assms(1)], intro allI impI)
    fix f os clock p s r l
    assume IH: "\<And>os clock p s r. f os clock p s = Some r \<Longrightarrow> \<forall>l. at_router cs rt (d, len, snd (snd s)) l \<longrightarrow>
        (\<exists>l'. wait_for_completion (world_os os) (with_world clock) p (fst s, fst (snd s), l) = Some (fst r, l') \<and>
          at_router cs rt (d, len, snd r) l')"
      and eq: "(case os_load32 os p (snd (snd s)) of (v, w) \<Rightarrow> if async_rpc_completed v then Some (fst (snd s), w)
          else f os clock p (wait_turn clock (fst s, fst (snd s), w))) = Some r"
      and at: "at_router cs rt (d, len, snd (snd s)) l"
    obtain v w where v: "os_load32 os p (snd (snd s)) = (v, w)"
      by (rule prod.exhaust)
    obtain l1 where l1: "with_world (os_load32 os p) l = (v, l1)" "at_router cs rt (d, len, w) l1"
      by (rule at_router_world [where f = "os_load32 os p", OF at v])
    have load: "os_load32 (world_os os) p l = (v, l1)"
      using l1(1) by (simp add: world_os_def)
    obtain st pr w2 where t: "wait_turn clock (fst s, fst (snd s), w) = (st, pr, w2)"
      by (rule prod_cases3)
    obtain l2 where l2: "wait_turn (with_world clock) (fst s, fst (snd s), l1) = (st, pr, l2)" "at_router cs rt (d, len, w2) l2"
      by (rule wait_turn_world [OF l1(2) t])
    show "\<exists>l'. wait_for_completion (world_os os) (with_world clock) p (fst s, fst (snd s), l) = Some (fst r, l') \<and>
        at_router cs rt (d, len, snd r) l'"
    proof (cases "async_rpc_completed v")
      case True
      then show ?thesis
        using eq v load l1(2) by (subst wait_for_completion.simps) auto
    next
      case False
      then have "f os clock p (st, pr, w2) = Some r"
        using eq v t by simp
      from IH [OF this] l2(2) False show ?thesis
        by (subst wait_for_completion.simps) (simp add: load l2(1))
    qed
  qed
  then show thesis
    using assms(2) that by blast
qed

lemma wait_slots_world:
  assumes "wait_slots os h p slots w = Some w'" and "at_router cs rt (d, len, w) l"
  shows "\<exists>l'. wait_slots (world_os os) (world_host h) p slots l = Some l' \<and> at_router cs rt (d, len, w') l'"
  using assms
proof (induction slots arbitrary: w l)
  case (Cons slot slots)
  let ?p = "p + 4 * ucast slot"
  have m: "ho_mapped h ?p w"
    using Cons.prems(1) by (auto split: if_split_asm)
  then obtain r where r: "wait_for_completion os (ho_time h) ?p (wait_start w) = Some r"
    using Cons.prems(1) by (auto split: option.split_asm)
  obtain l1 where "wait_for_completion (world_os os) (with_world (ho_time h)) ?p (wait_start l) = Some (fst r, l1)"
    "at_router cs rt (d, len, snd r) l1"
    by (rule wait_for_completion_world [where l = l, OF r]) (use Cons.prems(2) in \<open>simp_all add: wait_start_def\<close>)
  then show ?case
    using Cons.IH [of "snd r" l1] Cons.prems(1) r m at_router_mapped [OF Cons.prems(2), of h ?p] by (auto split: prod.splits)
qed simp

lemma note_start_world:
  assumes "at_router cs rt (d, len, w) l" and "note_start h rec ts w = (ts1, w1)"
  obtains l1 where "note_start (world_host h) rec ts l = (ts1, l1)" and "at_router cs rt (d, len, w1) l1"
proof (cases rec)
  case True
  obtain t w2 where t: "ho_monotonic h w = (t, w2)"
    by (rule prod.exhaust)
  obtain l1 where "with_world (ho_monotonic h) l = (t, l1)" "at_router cs rt (d, len, w2) l1"
    by (rule at_router_world [where f = "ho_monotonic h", OF assms(1) t])
  then show thesis
    using assms(2) t True by (intro that [of l1]) (auto simp: note_start_def)
qed (use assms that in \<open>auto simp: note_start_def\<close>)

lemma note_end_world:
  assumes "at_router cs rt (d, len, w) l" and "note_end h rec prev lats w = Some (lats', w1)"
  obtains l1 where "note_end (world_host h) rec prev lats l = Some (lats', l1)" and "at_router cs rt (d, len, w1) l1"
proof (cases rec)
  case True
  obtain t w2 where t: "ho_monotonic h w = (t, w2)"
    by (rule prod.exhaust)
  obtain l1 where "with_world (ho_monotonic h) l = (t, l1)" "at_router cs rt (d, len, w2) l1"
    by (rule at_router_world [where f = "ho_monotonic h", OF assms(1) t])
  then show thesis
    using assms(2) t True by (intro that [of l1]) (auto simp: note_end_def Let_def split: if_split_asm)
qed (use assms that in \<open>auto simp: note_end_def\<close>)

lemma check_batch_world:
  assumes "at_router cs rt (d, len, w) l" and "check_batch os h rec prev i batch p lats w = Some (lats', w')"
  obtains l' where "check_batch (world_os os) (world_host h) rec prev i batch p lats l = Some (lats', l')"
    and "at_router cs rt (d, len, w') l'"
proof (cases "batch_due i batch")
  case True
  obtain lats1 w1 where e: "note_end h rec prev lats w = Some (lats1, w1)"
    using assms(2) True by (auto simp: check_batch_def split: option.split_asm)
  then have w: "wait_slots os h p (polled_slots i batch) w1 = Some w'" and lats: "lats' = lats1"
    using assms(2) True by (auto simp: check_batch_def)
  obtain l1 where l1: "note_end (world_host h) rec prev lats l = Some (lats1, l1)" "at_router cs rt (d, len, w1) l1"
    by (rule note_end_world [OF assms(1) e])
  obtain l2 where "wait_slots (world_os os) (world_host h) p (polled_slots i batch) l1 = Some l2" "at_router cs rt (d, len, w') l2"
    using wait_slots_world [OF w l1(2)] by (elim exE conjE)
  then show thesis
    using True l1(1) lats by (intro that [of l2]) (simp_all add: check_batch_def)
qed (use assms that in \<open>auto simp: check_batch_def\<close>)

lemma timed_world:
  assumes "at_router cs rt x l" and "timed_on_router h rloop (rt, x) = Some (m, rt', x')"
    and loops: "\<And>x l m x' rt'. \<lbrakk>at_router cs rt x l; rloop (rt, x) = Some (m, rt', x')\<rbrakk> \<Longrightarrow>
      \<exists>l'. loop (cs, l) = Some (m, (cs, l')) \<and> at_router cs rt' x' l'"
  obtains l' where "timed (world_host h) loop (cs, l) = Some (m, (cs, l'))" and "at_router cs rt' x' l'"
proof -
  obtain d len w where x: "x = (d, len, w)"
    by (rule prod_cases3)
  obtain t1 w1 where t1: "ho_monotonic h w = (t1, w1)"
    by (rule prod.exhaust)
  obtain l1 where l1: "with_world (ho_monotonic h) l = (t1, l1)" "at_router cs rt (d, len, w1) l1"
    by (rule at_router_world [where f = "ho_monotonic h", OF assms(1) [unfolded x] t1])
  obtain q rt2 d2 len2 w2 where lp: "rloop (rt, d, len, w1) = Some (q, rt2, d2, len2, w2)"
    using assms(2) by (auto simp: timed_on_router_def x t1 split: option.split_asm)
  obtain l2 where l2: "loop (cs, l1) = Some (q, (cs, l2))" "at_router cs rt2 (d2, len2, w2) l2"
    using loops [OF l1(2) lp] by (elim exE conjE)
  obtain t3 w3 where t3: "ho_monotonic h w2 = (t3, w3)"
    by (rule prod.exhaust)
  obtain l3 where l3: "with_world (ho_monotonic h) l2 = (t3, l3)" "at_router cs rt2 (d2, len2, w3) l3"
    by (rule at_router_world [where f = "ho_monotonic h", OF l2(2) t3])
  have "m = (timespec_diff_ns t3 t1, q)" "rt' = rt2" "x' = (d2, len2, w3)"
    using assms(2) by (auto simp: timed_on_router_def x t1 lp t3)
  then show thesis
    using l1(1) l2(1) l3 by (intro that [of l3]) (simp_all add: timed_def)
qed

lemma send_call_on_router:
  assumes "at_router cs rt (d, len, w) l" and "stack_ok stk" and "resolve_node renv vid (rt, w) = (nid, (rt', w1))"
    and "lite_send_reply_imm_fast (re_lite renv) nid port rd sz rd poll max_ret w1 = Some res"
  obtains l' where "c_send_reply_imm_fast (on_router renv env) vid port addr sz rd poll max_ret stk (cs, l) = (fst res, (cs, l'))"
    and "at_router cs rt' (d, len, snd res) l'"
  by (rule at_router_carried [OF assms(1) remote_send_reply_input [OF at_routerD(1) [OF assms(1)] assms(2)
      at_routerD(2) [OF assms(1)] assms(3,4), of env addr]]) (rule that)

text \<open>One round of \<open>send_loop\<close>.\<close>

lemma send_loop_Suc:
  assumes "send_loop renv info rd poll (Suc n) (rt, d, len, w) = Some y"
  obtains nid rt' w1 res where "resolve_node renv (ti_remote_nid info) (rt, w) = (nid, (rt', w1))"
    and "lite_send_reply_imm_fast (re_lite renv) nid (ti_outbound_port info) rd 4 rd poll 4096 w1 = Some res"
    and "send_loop renv info rd poll n (rt', d, len, snd res) = Some y"
proof -
  obtain nid rt' w1 where r: "resolve_node renv (ti_remote_nid info) (rt, w) = (nid, (rt', w1))"
    by (rule prod_cases3)
  moreover from assms obtain res where
    "lite_send_reply_imm_fast (re_lite renv) nid (ti_outbound_port info) rd 4 rd poll 4096 w1 = Some res"
    by (auto simp: r split: option.split_asm)
  ultimately show thesis
    using assms by (intro that) (simp_all add: case_prod_beta)
qed

lemma sync_loop_on_router:
  assumes "at_router cs rt x l" and "\<And>k. stack_ok (stk k)" and "send_loop renv info rd poll n (rt, x) = Some (rt', x')"
  shows "\<exists>l'. sync_loop (on_router renv env) info rd wr poll n stk (cs, l) = (cs, l') \<and> at_router cs rt' x' l'"
  using assms
proof (induction n arbitrary: rt x l stk)
  case (Suc n)
  obtain d len w where x: "x = (d, len, w)"
    by (rule prod_cases3)
  obtain nid rt1 w1 res where r: "resolve_node renv (ti_remote_nid info) (rt, w) = (nid, (rt1, w1))"
    and c: "lite_send_reply_imm_fast (re_lite renv) nid (ti_outbound_port info) rd 4 rd poll 4096 w1 = Some res"
    and rest: "send_loop renv info rd poll n (rt1, d, len, snd res) = Some (rt', x')"
    by (rule send_loop_Suc [OF Suc.prems(3) [unfolded x]])
  obtain l1 where "c_send_reply_imm_fast (on_router renv env) (ti_remote_nid info) (ti_outbound_port info) wr 4 rd poll 4096
      (stk 0) (cs, l) = (fst res, (cs, l1))" and at1: "at_router cs rt1 (d, len, snd res) l1"
    by (rule send_call_on_router [OF Suc.prems(1) [unfolded x] Suc.prems(2) r c])
  then show ?case
    using Suc.IH [OF at1 _ rest, of "\<lambda>k. stk (Suc k)"] Suc.prems(2) by simp
qed simp

lemma async_rpc_call:
  "async_rpc env nid port buf 4 ret_buf ret_ptr 4096 stk s =
     (0, snd (c_send_reply_imm_fast env nid port buf 4 ret_buf ret_ptr 4096 stk s))"
  by (simp add: async_rpc_guard too_big_def LIMITATION_def)

lemma async_loop_on_router:
  assumes "at_router cs rt x l" and "\<And>k. stack_ok (stk k)"
    and "async_send_loop renv h latency info batch rd poll i n ts lats (rt, x) = Some (lats', rt', x')"
  shows "\<exists>l'. async_loop (on_router renv env) (world_os (re_lite renv)) (world_host h) latency info batch rd wr poll i n ts lats
      stk (cs, l) = Some (lats', (cs, l')) \<and> at_router cs rt' x' l'"
  using assms
proof (induction n arbitrary: rt x l stk i ts lats)
  case (Suc n)
  let ?p = "bf_remote poll + 4 * ucast (rpc_slot i batch)" and ?rec = "latency \<and> i mod batch = 0"
  have b: "batch \<noteq> 0"
    using Suc.prems(3) by auto
  obtain d len w where x: "x = (d, len, w)"
    by (rule prod_cases3)
  obtain ts1 w1 where ts1: "note_start h ?rec ts w = (ts1, w1)"
    by (rule prod.exhaust)
  obtain l1 where l1: "note_start (world_host h) ?rec ts l = (ts1, l1)" "at_router cs rt (d, len, w1) l1"
    by (rule note_start_world [OF Suc.prems(1) [unfolded x] ts1])
  obtain y where y: "send_loop renv info rd ?p (Suc 0) (rt, d, len, w1) = Some y"
    using Suc.prems(3) b x ts1 by (auto simp: Let_def simp del: send_loop.simps split: option.split_asm)
  obtain nid rt1 w2 res where r: "resolve_node renv (ti_remote_nid info) (rt, w1) = (nid, (rt1, w2))"
    and c: "lite_send_reply_imm_fast (re_lite renv) nid (ti_outbound_port info) rd 4 rd ?p 4096 w2 = Some res"
    and y': "y = (rt1, d, len, snd res)"
    by (rule send_loop_Suc [OF y]) simp
  obtain lats1 w3 where cb: "check_batch (re_lite renv) h ?rec (fst ts1) i batch (bf_local poll) lats (snd res) = Some (lats1, w3)"
    and rest: "async_send_loop renv h latency info batch rd poll (i + 1) n ts1 lats1 (rt1, d, len, w3) = Some (lats', rt', x')"
    using Suc.prems(3) b x ts1 y y' by (auto simp: Let_def simp del: send_loop.simps split: option.split_asm)
  obtain l2 where l2: "c_send_reply_imm_fast (on_router renv env) (ti_remote_nid info) (ti_outbound_port info) wr 4 rd ?p 4096
      (stk 0) (cs, l1) = (fst res, (cs, l2))" and at2: "at_router cs rt1 (d, len, snd res) l2"
    by (rule send_call_on_router [OF l1(2) Suc.prems(2) r c])
  obtain l3 where l3: "check_batch (world_os (re_lite renv)) (world_host h) ?rec (fst ts1) i batch (bf_local poll) lats l2 =
      Some (lats1, l3)" and at3: "at_router cs rt1 (d, len, w3) l3"
    by (rule check_batch_world [OF at2 cb])
  show ?case
    using Suc.IH [OF at3 _ rest, of "\<lambda>k. stk (Suc k)"] Suc.prems(2) b l1(1) l3
    by (simp add: async_rpc_call l2 Let_def)
qed simp

text \<open>The three buffers around the loops.\<close>

lemma poll_buffer_on_router:
  assumes "at_router cs rt x l" and "stack_ok stk" and "frame_ok fr" and "ce_shm env = world_shm (re_shm renv)"
    and "buffer_name nm" and "buffer_on_router renv nm sz (snd (fr_poll fr)) x = (poll, d, len, w)"
    and "stamp (bf_local poll) 0 k w = Some w'"
  obtains l1 l2 where "bench_alloc (on_router renv env) nm sz (fst (fr_poll fr)) (snd (fr_poll fr)) stk (cs, l) =
      Some (poll, (cs, l1))"
    and "world_stamp stamp (bf_local poll) 0 k l1 = Some l2" and "at_router cs rt (d, len, w') l2"
proof -
  have v: "fst (fr_poll fr) \<noteq> MAP_FAILED"
    using assms(3) by (simp add: frame_ok_def)
  obtain l1 where l1: "bench_alloc (on_router renv env) nm sz (fst (fr_poll fr)) (snd (fr_poll fr)) stk (cs, l) = Some (poll, (cs, l1))"
    "at_router cs rt (d, len, w) l1"
    by (rule bench_alloc_on_router [OF assms(1,2) v assms(4,5), of sz "snd (fr_poll fr)", unfolded assms(6)])
      (simp add: that)
  show thesis
    by (rule at_router_stamp [where stamp = stamp, OF l1(2) assms(7)]) (rule that [OF l1(1)])
qed

lemma send_buffer_names:
  "buffer_name (''test_sync_rpc_send'' @ ''_read'')" "buffer_name (''test_sync_rpc_send'' @ ''_write'')"
  "buffer_name (''test_sync_rpc_send'' @ ''_poll_array'')" "buffer_name (''test_async_rpc_send'' @ ''_read'')"
  "buffer_name (''test_async_rpc_send'' @ ''_write'')" "buffer_name (''test_async_rpc_send'' @ ''_poll_array'')"
  by (simp_all add: buffer_name_def is_cstr_def bytes_of_def)

lemma recv_buffer_names:
  "buffer_name (''test_sync_rpc_recv'' @ ''_read'')" "buffer_name (''test_sync_rpc_recv'' @ ''_write'')"
  "buffer_name (''test_async_rpc_recv'' @ ''_read'')" "buffer_name (''test_async_rpc_recv'' @ ''_write'')"
  by (simp_all add: buffer_name_def is_cstr_def bytes_of_def)

lemma send_on_routerE:
  assumes "send_on_router renv h who sz zeros loop fr (rt, x) = Some (m, rt', x')"
  obtains rd x1 wr x2 poll d len w w1 x3
  where "buffer_on_router renv (who @ ''_read'') buffer_size (snd (fr_read fr)) x = (rd, x1)"
    and "buffer_on_router renv (who @ ''_write'') buffer_size (snd (fr_write fr)) x1 = (wr, x2)"
    and "buffer_on_router renv (who @ ''_poll_array'') sz (snd (fr_poll fr)) x2 = (poll, d, len, w)"
    and "ho_memset h (bf_local poll) 0 zeros w = Some w1"
    and "timed_on_router h (loop (bf_remote rd) poll) (rt, d, len, w1) = Some (m, rt', x3)"
    and "x' = release_on_router renv (who @ ''_poll_array'') sz poll (release_on_router renv (who @ ''_write'') buffer_size wr
      (release_on_router renv (who @ ''_read'') buffer_size rd x3))"
proof -
  obtain rd x1 where 1: "buffer_on_router renv (who @ ''_read'') buffer_size (snd (fr_read fr)) x = (rd, x1)"
    by (rule prod.exhaust)
  obtain wr x2 where 2: "buffer_on_router renv (who @ ''_write'') buffer_size (snd (fr_write fr)) x1 = (wr, x2)"
    by (rule prod.exhaust)
  obtain poll d len w where 3: "buffer_on_router renv (who @ ''_poll_array'') sz (snd (fr_poll fr)) x2 = (poll, d, len, w)"
    by (rule prod_cases4)
  obtain w1 where 4: "ho_memset h (bf_local poll) 0 zeros w = Some w1"
    using assms by (auto simp: send_on_router_def 1 2 3 split: option.split_asm)
  from assms show thesis
    by (auto simp: send_on_router_def 1 2 3 4 intro: that [OF 1 2 3 4])
qed

lemma rpc_send_on_router:
  assumes "at_router cs rt x l" and "\<And>k. stack_ok (fr_stk fr k)" and "frame_ok fr" and "ce_shm env = world_shm (re_shm renv)"
    and nm: "buffer_name (who @ ''_read'')" "buffer_name (who @ ''_write'')" "buffer_name (who @ ''_poll_array'')"
    and loops: "\<And>rd wr poll x m rt' x' l. \<lbrakk>at_router cs rt x l; rloop rd poll (rt, x) = Some (m, rt', x')\<rbrakk> \<Longrightarrow>
      \<exists>l'. loop rd wr poll (\<lambda>k. fr_stk fr (3 + k)) (cs, l) = Some (m, (cs, l')) \<and> at_router cs rt' x' l'"
    and run: "send_on_router renv h who sz zeros rloop fr (rt, x) = Some (m, rt', x')"
  obtains l' where "rpc_send_with (on_router renv env) (world_host h) who sz zeros n loop fr (cs, l) = Some (m, (cs, l'))"
    and "at_router cs rt' x' l'"
proof -
  let ?on = "on_router renv env"
  obtain rd x1 wr x2 poll d len w w1 x3
    where rd: "buffer_on_router renv (who @ ''_read'') buffer_size (snd (fr_read fr)) x = (rd, x1)"
    and wr: "buffer_on_router renv (who @ ''_write'') buffer_size (snd (fr_write fr)) x1 = (wr, x2)"
    and po: "buffer_on_router renv (who @ ''_poll_array'') sz (snd (fr_poll fr)) x2 = (poll, d, len, w)"
    and ms: "ho_memset h (bf_local poll) 0 zeros w = Some w1"
    and rloop: "timed_on_router h (rloop (bf_remote rd) poll) (rt, d, len, w1) = Some (m, rt', x3)"
    and x': "x' = release_on_router renv (who @ ''_poll_array'') sz poll (release_on_router renv (who @ ''_write'') buffer_size wr
      (release_on_router renv (who @ ''_read'') buffer_size rd x3))"
    by (rule send_on_routerE [OF run])
  obtain l1 where l1: "alloc_buffers ?on who fr (cs, l) = Some (rd, wr, (cs, l1))" "at_router cs rt x2 l1"
    by (rule alloc_buffers_on_router [OF assms(1-4) nm(1,2) rd wr])
  obtain l2 l2' where l2: "bench_alloc ?on (who @ ''_poll_array'') sz (fst (fr_poll fr)) (snd (fr_poll fr)) (fr_stk fr 2) (cs, l1) =
      Some (poll, (cs, l2))" "world_stamp (ho_memset h) (bf_local poll) 0 zeros l2 = Some l2'"
    and at2: "at_router cs rt (d, len, w1) l2'"
    by (rule poll_buffer_on_router [where stamp = "ho_memset h", OF l1(2) assms(2) assms(3,4) nm(3) po ms])
  obtain l3 where l3: "timed (world_host h) (loop (bf_remote rd) (bf_remote wr) poll (\<lambda>k. fr_stk fr (3 + k)))
      (cs, l2') = Some (m, (cs, l3))" and at3: "at_router cs rt' x3 l3"
    by (rule timed_world [where rloop = "rloop (bf_remote rd) poll"
          and loop = "loop (bf_remote rd) (bf_remote wr) poll (\<lambda>k. fr_stk fr (3 + k))", OF at2 rloop loops])
  obtain l4 where l4: "free_buffers ?on who rd wr (\<lambda>k. fr_stk fr (3 + n + k)) (cs, l3) = Some (cs, l4)"
    and at4: "at_router cs rt' (release_on_router renv (who @ ''_write'') buffer_size wr
      (release_on_router renv (who @ ''_read'') buffer_size rd x3)) l4"
    by (rule free_buffers_on_router [OF at3 assms(2) nm(1,2)])
  obtain l5 where l5: "bench_free ?on (who @ ''_poll_array'') sz poll (fr_stk fr (5 + n)) (cs, l4) = Some (cs, l5)"
    and at5: "at_router cs rt' x' l5"
    unfolding x' by (rule bench_free_on_router [OF at4 assms(2) nm(3)])
  show thesis
    by (rule that [OF _ at5])
      (simp add: rpc_send_with_def l1 [simplified] l2 [simplified] l3 [simplified] l4 [simplified] l5 [simplified])
qed

lemma test_sync_rpc_send_on_router:
  assumes "at_router cs rt x l" and "\<And>k. stack_ok (fr_stk fr k)" and "frame_ok fr" and "ce_shm env = world_shm (re_shm renv)"
    and "sync_send_on_router renv h info n fr (rt, x) = Some (m, rt', x')"
  obtains l' where "test_sync_rpc_send (on_router renv env) (world_host h) info n fr (cs, l) = Some (m, (cs, l'))"
    and "at_router cs rt' x' l'"
proof -
  have "\<exists>l'. Some ((), sync_loop (on_router renv env) info rd wr (bf_remote poll) n (\<lambda>k. fr_stk fr (3 + k)) (cs, l)) =
        Some (m, (cs, l')) \<and> at_router cs rt' x' l'"
    if "at_router cs rt x l" "map_option (Pair ()) (send_loop renv info rd (bf_remote poll) n (rt, x)) = Some (m, rt', x')"
    for rd wr poll x rt rt' x' l m
  proof -
    have "send_loop renv info rd (bf_remote poll) n (rt, x) = Some (rt', x')"
      using that(2) by auto
    from sync_loop_on_router [where stk = "\<lambda>k. fr_stk fr (3 + k)" and env = env and wr = wr, OF that(1) assms(2) this]
    show ?thesis by simp
  qed
  note loop = this
  show thesis
    by (rule rpc_send_on_router [where n = n and env = env
          and loop = "\<lambda>rd wr poll stk s. Some ((), sync_loop (on_router renv env) info rd wr (bf_remote poll) n stk s)",
          OF assms(1-4) send_buffer_names(1-3) loop assms(5) [unfolded sync_send_on_router_def]])
      (assumption+, rule that [unfolded test_sync_rpc_send_def])
qed

lemma test_async_rpc_send_on_router:
  assumes "at_router cs rt x l" and "\<And>k. stack_ok (fr_stk fr k)" and "frame_ok fr" and "ce_shm env = world_shm (re_shm renv)"
    and "async_send_on_router renv h latency batch info n fr (rt, x) = Some (m, rt', x')"
  obtains l' where "test_async_rpc_send (on_router renv env) (world_os (re_lite renv)) (world_host h) latency
      batch info n fr (cs, l) = Some (m, (cs, l'))"
    and "at_router cs rt' x' l'"
proof -
  note loop = async_loop_on_router [where stk = "\<lambda>k. fr_stk fr (3 + k)" and env = env and renv = renv and h = h
      and latency = latency and info = info and batch = batch and i = 0 and n = n and ts = no_times and lats = "[]", OF _ assms(2)]
  show thesis
    by (rule rpc_send_on_router [where n = n and env = env and loop = "\<lambda>rd wr poll. async_loop (on_router renv env)
            (world_os (re_lite renv)) (world_host h) latency info batch rd wr poll 0 n no_times []",
          OF assms(1-4) send_buffer_names(4-6) loop assms(5) [unfolded async_send_on_router_def]])
      (assumption+, rule that [unfolded test_async_rpc_send_def])
qed

section \<open>The whole program\<close>

text \<open>
  The registration and the meeting. What the request object holds behind the name does not depend on
  the router.
\<close>

lemma register_on_router:
  assumes "at_router cs rt (d, len, w) l" and "stack_ok stk" and "length nm = unat name_len" and "unat name_len \<le> 32"
  obtains behind where "length (nm @ behind) = 260"
    and "\<forall>r w'. lite_register_application (re_lite renv) port maxsz maxuser (nm @ behind) name_len w = (r, w') \<longrightarrow>
      (\<exists>l'. c_register_application (on_router renv env) port maxsz maxuser nm name_len stk (cs, l) = Some (r, (cs, l')) \<and>
        at_router cs rt (d, len, w') l')"
proof -
  obtain req behind where req: "req_register_application port maxsz maxuser nm name_len (stk_req stk) = Some req"
    and c: "carried (call_int (on_router renv env) req (stk_rsp stk)) (cs, l) rt
      (lite_register_application (re_lite renv) port maxsz maxuser (nm @ behind) name_len w)"
    and len: "length (nm @ behind) = 260"
    by (rule carried_register [OF at_routerD(1) [OF assms(1)] assms(2) at_routerD(2) [OF assms(1)] assms(3,4)])
  show thesis
  proof (rule that [OF len], intro allI impI)
    fix r w'
    assume k: "lite_register_application (re_lite renv) port maxsz maxuser (nm @ behind) name_len w = (r, w')"
    show "\<exists>l'. c_register_application (on_router renv env) port maxsz maxuser nm name_len stk (cs, l) = Some (r, (cs, l')) \<and>
        at_router cs rt (d, len, w') l'"
      by (rule at_router_carried [OF assms(1) c [unfolded k]]) (auto simp: c_register_application_def req)
  qed
qed

lemma meet_on_router_steps:
  assumes "at_router cs rt (d, len, w) l" and "\<And>k. stack_ok (stk k)"
    and reg: "c_register_application (on_router renv env) (ti_inbound_port info) 4096 16 (bytes_of ''test.1'') 6
      (stk 0) s = Some (r, (cs, l))"
    and meet: "meet_on_router renv info (rt, d, len, w) = (rt', x')"
  obtains l' where "run_prelude (on_router renv env) info stk s = Some (cs, l')" and "at_router cs rt' x' l'"
proof -
  let ?b = "lite_dist_barrier (re_lite renv) 2 w"
  obtain nid rt1 w2 where n: "resolve_node renv (ti_remote_nid info) (rt, snd ?b) = (nid, (rt1, w2))"
    by (rule prod_cases3)
  let ?q = "lite_query_port (re_lite renv) nid (ti_outbound_port info) w2"
  have x': "rt' = rt1" "x' = (d, len, snd ?q)"
    using meet n by (auto simp: meet_on_router_def case_prod_beta)
  obtain l2 where l2: "c_dist_barrier (on_router renv env) 2 (stk 1) (cs, l) = (fst ?b, (cs, l2))"
    and at2: "at_router cs rt (d, len, snd ?b) l2"
    by (rule at_router_carried [OF assms(1) carried_wrappers(4) [OF at_routerD(1) [OF assms(1)] assms(2) at_routerD(2) [OF assms(1)]]])
  obtain l3 where l3: "c_query_port (on_router renv env) (ti_remote_nid info) (ti_outbound_port info) (stk 2) (cs, l2) =
      (fst ?q, (cs, l3))" and at3: "at_router cs rt1 (d, len, snd ?q) l3"
    by (rule at_router_carried [OF at2 carried_query_port [OF at_routerD(1) [OF at2] assms(2) at_routerD(2) [OF at2] n]])
  show thesis
    by (rule that [of l3]) (simp_all add: run_prelude_def reg l2 [simplified] l3 at3 x')
qed

text \<open>The two sides after the meeting.\<close>

lemma receiver_on_router:
  assumes "at_router cs rt x l" and "ce_shm env = world_shm (re_shm renv)"
    and frames: "\<And>k. stack_ok (fr_stk fr k)" "frame_ok fr" "\<And>k. stack_ok (fr_stk fr' k)" "frame_ok fr'"
    and "recv_on_router renv ''test_async_rpc_recv'' info nr_rpc fr x = Some x1"
    and "recv_on_router renv ''test_sync_rpc_recv'' info nr_rpc fr' x1 = Some x2"
  obtains l' where "thread_recv (on_router renv env) info fr fr' (cs, l) = Some (cs, l')" and "at_router cs rt x2 l'"
proof -
  let ?on = "on_router renv env"
  obtain l1 where l1: "rpc_recv ?on ''test_async_rpc_recv'' info nr_rpc fr (cs, l) = Some (cs, l1)" "at_router cs rt x1 l1"
    by (rule rpc_recv_on_router [OF assms(1) frames(1,2) assms(2) recv_buffer_names(3,4) assms(7)])
  obtain l2 where l2: "rpc_recv ?on ''test_sync_rpc_recv'' info nr_rpc fr' (cs, l1) = Some (cs, l2)" "at_router cs rt x2 l2"
    by (rule rpc_recv_on_router [OF l1(2) frames(3,4) assms(2) recv_buffer_names(1,2) assms(8)])
  show thesis
    by (rule that [OF _ l2(2)]) (simp add: thread_recv_def test_async_rpc_recv_def test_sync_rpc_recv_def l1(1) l2(1))
qed

lemma sender_on_router:
  assumes "at_router cs rt x l" and "ce_shm env = world_shm (re_shm renv)"
    and frames: "\<And>k. stack_ok (fr_stk fr k)" "frame_ok fr" "\<And>k. stack_ok (fr_stk fr' k)" "frame_ok fr'"
    and "async_send_on_router renv h latency batch info nr_rpc fr (rt, x) = Some (m, rt1, x1)"
    and "sync_send_on_router renv h info nr_rpc fr' (rt1, x1) = Some (q, rt2, x2)"
  obtains l' where "thread_send_lat (on_router renv env) (world_os (re_lite renv)) (world_host h) latency batch info fr fr' (cs, l) =
      Some ((m, fst q), (cs, l'))"
    and "at_router cs rt2 x2 l'"
proof -
  let ?on = "on_router renv env"
  obtain l1 where l1: "test_async_rpc_send ?on (world_os (re_lite renv)) (world_host h) latency batch info nr_rpc fr (cs, l) =
      Some (m, (cs, l1))" "at_router cs rt1 x1 l1"
    by (rule test_async_rpc_send_on_router [OF assms(1) frames(1,2) assms(2,7)])
  obtain l2 where l2: "test_sync_rpc_send ?on (world_host h) info nr_rpc fr' (cs, l1) = Some (q, (cs, l2))" "at_router cs rt2 x2 l2"
    by (rule test_sync_rpc_send_on_router [OF l1(2) frames(3,4) assms(2,8)])
  show thesis
    by (rule that [OF _ l2(2)]) (simp add: thread_send_lat_def l1(1) l2(1))
qed

lemma bench_info:
  assumes "bc_threads c = 1"
  shows "hd (bench_threads (bc_server c) (bc_remote_nid c) (unat (bc_threads c))) =
    (if bc_server c then \<lparr>ti_inbound_port = 1, ti_outbound_port = 2, ti_tid = 0, ti_remote_nid = bc_remote_nid c\<rparr>
     else \<lparr>ti_inbound_port = 2, ti_outbound_port = 1, ti_tid = 0, ti_remote_nid = bc_remote_nid c\<rparr>)"
  by (simp add: bench_threads_def base_port_def assms)

text \<open>
  C36: \<open>test_rpc\<close> is what its router makes of it, on both sides. For a client on a ready connection that
  shares its node's memory with the router, whatever its variables and stacks hold (no variable at the
  address \<open>MAP_FAILED\<close>), the program with one thread returns whenever the same run on the router ends, and has
  its effect and its measurements: it registers, with some bytes behind the name in the request
  object, and meets the other side; as a server it answers a million messages, each with the
  descriptor that came with it, twice; as a client it makes a million asynchronous calls, with the
  batch checks and, with \<open>--async-latency\<close>, the latency of each batch, and a million synchronous
  ones; and it gives back its buffers. The run on the router does not end when a \<open>memset\<close> or a poll
  meets memory that is not mapped, when \<open>BUG\<close> finds that the clock has not advanced between two
  batches, when the batch size is 0, or when a reply or message does not come.
\<close>

theorem rpc_test_on_router:
  assumes "at_router cs rt (d, len, w) l" and "\<And>k. stack_ok (stk k)" and "ce_shm env = world_shm (re_shm renv)"
    and frames: "\<And>k. stack_ok (fr_stk fr k)" "frame_ok fr" "\<And>k. stack_ok (fr_stk fr' k)" "frame_ok fr'"
    and "bc_threads c = 1"
  shows "\<exists>behind. length behind = 254 \<and>
    (\<forall>m rt' x'. bench_on_router renv h c behind fr fr' (rt, d, len, w) = Some (m, rt', x') \<longrightarrow>
      (\<exists>l'. run_one (on_router renv env) (world_os (re_lite renv)) (world_host h) c stk fr fr' (cs, l) = Some (m, (cs, l')) \<and>
        at_router cs rt' x' l'))"
proof -
  let ?on = "on_router renv env"
  let ?info = "hd (bench_threads (bc_server c) (bc_remote_nid c) (unat (bc_threads c)))"
  have nm: "length (bytes_of ''test.1'') = unat (6 :: c_long)" "unat (6 :: c_long) \<le> 32"
    by (simp_all add: bytes_of_def)
  obtain behind where len: "length (bytes_of ''test.1'' @ behind) = 260"
    and reg: "\<forall>r w'. lite_register_application (re_lite renv) (ti_inbound_port ?info) 4096 16 (bytes_of ''test.1'' @ behind) 6 w = (r, w') \<longrightarrow>
      (\<exists>l'. c_register_application ?on (ti_inbound_port ?info) 4096 16 (bytes_of ''test.1'') 6 (stk 0) (cs, l) = Some (r, (cs, l')) \<and>
        at_router cs rt (d, len, w') l')"
    by (rule register_on_router [where port = "ti_inbound_port ?info" and maxsz = 4096 and maxuser = 16 and renv = renv and env = env,
          OF assms(1) assms(2) [of 0] nm])
  have "\<exists>l'. run_one ?on (world_os (re_lite renv)) (world_host h) c stk fr fr' (cs, l) = Some (m, (cs, l')) \<and> at_router cs rt' x' l'"
    if run: "bench_on_router renv h c behind fr fr' (rt, d, len, w) = Some (m, rt', x')" for m rt' x'
  proof -
    obtain r w0 where r: "lite_register_application (re_lite renv) (ti_inbound_port ?info) 4096 16 (bytes_of ''test.1'' @ behind) 6 w = (r, w0)"
      by (rule prod.exhaust)
    obtain l0 where l0: "c_register_application ?on (ti_inbound_port ?info) 4096 16 (bytes_of ''test.1'') 6 (stk 0) (cs, l) = Some (r, (cs, l0))"
      and at0: "at_router cs rt (d, len, w0) l0"
      using reg [rule_format, OF r] by (elim exE conjE)
    obtain rt1 x1 where m: "meet_on_router renv ?info (rt, d, len, w0) = (rt1, x1)"
      by (rule prod.exhaust)
    obtain l1 where l1: "run_prelude ?on ?info stk (cs, l) = Some (cs, l1)" and at1: "at_router cs rt1 x1 l1"
      by (rule meet_on_router_steps [where stk = stk, OF at0 assms(2) l0 m])
    note run' = run [unfolded bench_on_router_def Let_def bench_info [OF assms(8), symmetric] prod.case r m]
    show ?thesis
    proof (cases "bc_server c")
      case True
      then obtain x2 where r1: "recv_on_router renv ''test_async_rpc_recv'' ?info nr_rpc fr x1 = Some x2"
        and r2: "recv_on_router renv ''test_sync_rpc_recv'' ?info nr_rpc fr' x2 = Some x'" and rt': "rt' = rt1" "m = None"
        using run' by (auto split: option.split_asm)
      obtain l2 where "thread_recv ?on ?info fr fr' (cs, l1) = Some (cs, l2)" "at_router cs rt1 x' l2"
        by (rule receiver_on_router [OF at1 assms(3) frames r1 r2])
      then show ?thesis
        using True l1 rt' by (simp add: run_one_def)
    next
      case False
      then obtain m1 y1 q where r1: "async_send_on_router renv h (bc_latency c) (bc_batch c) ?info nr_rpc fr (rt1, x1) = Some (m1, y1)"
        and r2: "sync_send_on_router renv h ?info nr_rpc fr' y1 = Some (q, rt', x')" and m: "m = Some (m1, fst q)"
        using run' by (auto split: option.split_asm)
      obtain rt2 x2 where y1: "y1 = (rt2, x2)"
        by (rule prod.exhaust)
      obtain l2 where "thread_send_lat ?on (world_os (re_lite renv)) (world_host h) (bc_latency c) (bc_batch c) ?info fr fr' (cs, l1) =
          Some ((m1, fst q), (cs, l2))" "at_router cs rt' x' l2"
        by (rule sender_on_router [OF at1 assms(3) frames r1 [unfolded y1] r2 [unfolded y1]])
      then show ?thesis
        using False l1 m by (simp add: run_one_def)
    qed
  qed
  then show ?thesis
    using len by (intro exI [of _ behind]) (simp add: bytes_of_def)
qed

text \<open>A server run on the sample router: three calls of the kernel first, then two for every message.\<close>

definition sample_frame :: frame where
  "sample_frame = \<lparr>fr_read = (0x7000, \<lparr>bf_local = 0, bf_remote = 0\<rparr>), fr_write = (0x7008, \<lparr>bf_local = 0, bf_remote = 0\<rparr>),
     fr_poll = (0x7010, \<lparr>bf_local = 0, bf_remote = 0\<rparr>), fr_stk = (\<lambda>_. sample_stack)\<rparr>"

lemma sample_serves:
  "\<exists>d' len' w'. serve_loop sample_renv port rd wr n (d, len, w) = Some (d', len', w') \<and>
     length (sw_calls w') = 2 * n + length (sw_calls w)"
proof (induction n arbitrary: d len w)
  case (Suc n)
  let ?w0 = "os_store32 sample_os 0x810 len (os_store64 sample_os 0x808 d w)"
  obtain m where m: "lite_receive_message_fast sample_os port rd 4096 0x808 0x810 BLOCK_CALL ?w0 =
      Some (0, w\<lparr>sw_mem := m, sw_calls := sw_calls w @ [NR_lite_receive_message]\<rparr>)"
    by (simp add: lite_receive_message_fast_def int_syscall_def sample_os_def sample_kernel_def BLOCK_CALL_def
        spin_stops sees_def sleep_descriptor.simps finish_receive_def finish_send_def IMM_SEND_ONLY_FLAG_def)
  let ?w2 = "w\<lparr>sw_mem := m, sw_calls := sw_calls w @ [NR_lite_receive_message]\<rparr>"
  have "length (sw_calls (snd (lite_reply_message sample_os wr 4 (m 0x808) ?w2))) = 2 + length (sw_calls w)"
    by (simp add: lite_reply_message_def reply_message_call_def too_big_def LIMITATION_def int_syscall_def sample_os_def)
  moreover have "os_load64 sample_os 0x808 ?w2 = (m 0x808, ?w2)" "os_load32 sample_os 0x810 ?w2 = (ucast (m 0x810), ?w2)"
    by (simp_all add: sample_os_def)
  ultimately show ?case
    using Suc.IH [of "m 0x808" "ucast (m 0x810)" "snd (lite_reply_message sample_os wr 4 (m 0x808) ?w2)"] m
    by (simp add: case_prod_beta)
qed simp

lemma sample_receives:
  "\<exists>d' len' w'. recv_on_router sample_renv who info n fr (d, len, w) = Some (d', len', w') \<and>
     length (sw_calls w') = 2 * n + length (sw_calls w)"
proof -
  obtain d' len' w' where "serve_loop sample_renv (ti_inbound_port info) 0x2000 0x2000 n (0x2000, len, w) = Some (d', len', w')"
    "length (sw_calls w') = 2 * n + length (sw_calls w)"
    using sample_serves [of "ti_inbound_port info" "0x2000" "0x2000" n "0x2000" len w] by blast
  then show ?thesis
    by (simp add: recv_on_router_def buffer_on_router_def release_on_router_def sample_shm_calls)
qed

text \<open>Memory is mapped everywhere and the clock advances with the calls of the kernel.\<close>

definition sample_host :: "sample_world host" where
  "sample_host = \<lparr>ho_memset = (\<lambda>_ _ _ w. Some w), ho_mapped = (\<lambda>_ _. True),
     ho_monotonic = (\<lambda>w. (\<lparr>tv_sec = 0, tv_nsec = word_of_nat (length (sw_calls w))\<rparr>, w)), ho_time = (\<lambda>w. (0, w))\<rparr>"

theorem rpc_test_on_router_witness:
  "\<exists>l'. run_one (on_router sample_renv (sample_cenv\<lparr>ce_shm := world_shm sample_shm\<rparr>)) (world_os sample_os) (world_host sample_host)
     (bench_defaults\<lparr>bc_server := True, bc_remote_nid := 2\<rparr>)
     (\<lambda>_. sample_stack) sample_frame sample_frame (sample_client, sample_link) = Some (None, (sample_client, l')) \<and>
   length (sw_calls (snd (shared (sk_conn l')))) = 4000003"
proof -
  let ?c = "bench_defaults\<lparr>bc_server := True, bc_remote_nid := 2\<rparr>"
  let ?rt = "routing_init\<lparr>vcm_sock := 3\<rparr>" and ?rt' = "routing_init\<lparr>vcm_sock := 3, vid_nid_map_cache := [2 \<mapsto> 7]\<rparr>"
  let ?w0 = "sample_start\<lparr>sw_calls := [NR_lite_register_application]\<rparr>"
  let ?info = "\<lparr>ti_inbound_port = 1, ti_outbound_port = 2, ti_tid = 0, ti_remote_nid = 2\<rparr>"
  have at: "at_router sample_client ?rt (0, 0, sample_start) sample_link"
    by (simp add: at_router_def) (simp add: sample_link_def open_conn_def codec_defs get64_def get32_def chunk_def)
  have reg: "lite_register_application sample_os 1 4096 16 (bytes_of ''test.1'' @ behind) 6 sample_start = (0, ?w0)" for behind
    by (simp add: lite_register_application_def int_syscall_def sample_os_def sample_kernel_def sample_start_def
        NR_lite_register_application_def NR_lite_send_reply_imm_def NR_lite_receive_message_def)
  note node = sample_lookup
  obtain w1 where w1: "meet_on_router sample_renv ?info (?rt, 0, 0, ?w0) = (?rt', 0, 0, w1)"
    "length (sw_calls w1) = 3"
    by (simp add: meet_on_router_def case_prod_beta lite_dist_barrier_def lite_query_port_def node)
      (simp add: int_syscall_def sample_os_def)
  obtain x1 where x1: "recv_on_router sample_renv ''test_async_rpc_recv'' ?info nr_rpc sample_frame (0, 0, w1) = Some x1"
    "length (sw_calls (snd (snd x1))) = 2 * nr_rpc + 3"
    using sample_receives [of "''test_async_rpc_recv''" ?info nr_rpc sample_frame 0 0 w1] w1(2) by auto
  obtain x2 where x2: "recv_on_router sample_renv ''test_sync_rpc_recv'' ?info nr_rpc sample_frame x1 = Some x2"
    "length (sw_calls (snd (snd x2))) = 2 * nr_rpc + (2 * nr_rpc + 3)"
    using sample_receives [of "''test_sync_rpc_recv''" ?info nr_rpc sample_frame "fst x1" "fst (snd x1)" "snd (snd x1)"] x1(2)
    by auto
  have run: "bench_on_router sample_renv sample_host ?c behind sample_frame sample_frame (?rt, 0, 0, sample_start) = Some (None, ?rt', x2)"
    for behind
    using w1(1) x1(1) x2(1) reg by (simp add: bench_on_router_def)
  have fr: "stack_ok (fr_stk sample_frame k)" "frame_ok sample_frame" for k
    by (simp_all add: sample_frame_def frame_ok_def MAP_FAILED_def)
  have shm: "ce_shm (sample_cenv\<lparr>ce_shm := world_shm sample_shm\<rparr>) = world_shm (re_shm sample_renv)"
    by simp
  have one: "bc_threads ?c = 1"
    by (simp add: bench_defaults_def)
  have calls: "2 * nr_rpc + (2 * nr_rpc + 3) = 4000003"
    by (simp add: nr_rpc_def)
  obtain l' where l': "run_one (on_router sample_renv (sample_cenv\<lparr>ce_shm := world_shm sample_shm\<rparr>)) (world_os sample_os)
      (world_host sample_host) ?c (\<lambda>_. sample_stack) sample_frame sample_frame (sample_client, sample_link) =
        Some (None, (sample_client, l'))" "at_router sample_client ?rt' x2 l'"
    using rpc_test_on_router [OF at sample_stack_ok shm fr fr one, of sample_host] run
    by (cases x2) auto
  then have "length (sw_calls (snd (shared (sk_conn l')))) = 4000003"
    using x2(2) calls by (simp add: at_router_def)
  with l'(1) show ?thesis
    by blast
qed

end
