(* ===== verification/Latency.thy ===== *)
theory Latency
  imports Mock_Server
begin

text \<open>
  The program \<open>client/test_latency.c\<close>: its options, the names of its threads' shared memory,
  and the threads as a step relation. Of a thread's calls to the library the relation keeps the handler, the
  size and the thread; its times and its output are left out. The calls themselves, for
  one thread, are in \<open>Latency_Run\<close>.
\<close>

section \<open>Options\<close>

text \<open>The numeric arguments are what \<open>strtoul\<close> returns.\<close>

datatype lat_opt = Lat_remote_nid c_long | Lat_thread c_long | Lat_unknown

record lat_config =
  lc_remote_node :: c_int
  lc_nr_threads :: c_int

definition lat_defaults :: lat_config where
  "lat_defaults = \<lparr>lc_remote_node = -1, lc_nr_threads = 1\<rparr>"

fun lat_opts :: "lat_opt list \<Rightarrow> lat_config \<Rightarrow> lat_config option" where
  "lat_opts [] c = Some c"
| "lat_opts (Lat_remote_nid n # os) c =
     (if sint (ucast n :: c_int) > 16 then None else lat_opts os (c\<lparr>lc_remote_node := ucast n\<rparr>))"
| "lat_opts (Lat_thread n # os) c =
     (if sint (ucast n :: c_int) > 56 then None else lat_opts os (c\<lparr>lc_nr_threads := ucast n\<rparr>))"
| "lat_opts (Lat_unknown # os) c = None"

definition lat_main :: "lat_opt list \<Rightarrow> lat_config option" where
  "lat_main os =
     (case lat_opts os lat_defaults of
        None \<Rightarrow> None
      | Some c \<Rightarrow> if sint (lc_remote_node c) < 1 then None else Some c)"

text \<open>The ids of the threads that \<open>main\<close> creates, none for a negative number.\<close>

definition lat_tids :: "lat_config \<Rightarrow> nat list" where
  "lat_tids c = [0..<nat (sint (lc_nr_threads c))]"

text \<open>\<open>sprintf(shm_name, "%s%05d", "test_latency", tid)\<close>, for ids of up to five digits.\<close>

definition lat_shm_name :: "nat \<Rightarrow> byte list" where
  "lat_shm_name tid = bytes_of ''test_latency'' @ map (\<lambda>k. word_of_nat (48 + tid div 10 ^ k mod 10)) [4, 3, 2, 1, 0]"

definition sizeof_shm_name :: nat where "sizeof_shm_name = 18"

section \<open>The threads\<close>

definition testsize :: "c_int list" where
  "testsize = [8, 64, 512, 1024, 1024 * 2, 1024 * 4, 1024 * 8]"

text \<open>
  Where a thread is: before the allocation of its own memory, in the \<open>b\<close>-th
  \<open>pthread_barrier_wait\<close>, in the branch of the serial thread that allocates the remote memory, in the
  loops of the writes (\<open>part 0\<close>) and reads (\<open>part 1\<close>) at a size and a run, before \<open>free_local_mem\<close>,
  and after \<open>pthread_exit\<close>.
\<close>

datatype lat_phase =
    Setup
  | Barrier nat
  | Allocating
  | Calling nat nat nat
  | Freeing
  | Exited

record lat_call =
  lk_tid :: nat
  lk_part :: nat
  lk_size :: c_int
  lk_handler :: c_int

record latency =
  la_phase :: "nat \<Rightarrow> lat_phase"
  la_key :: c_long
  la_calls :: "lat_call list"

definition lat_start :: latency where
  "lat_start = \<lparr>la_phase = (\<lambda>_. Setup), la_key = 0, la_calls = []\<rparr>"

text \<open>What a thread does when \<open>pthread_barrier_wait\<close> has returned, to the serial thread or another.\<close>

fun after_barrier :: "nat \<Rightarrow> bool \<Rightarrow> lat_phase" where
  "after_barrier 0 serial = (if serial then Allocating else Calling 0 0 0)"
| "after_barrier (Suc 0) serial = Calling 1 0 0"
| "after_barrier (Suc (Suc b)) serial = Freeing"

text \<open>The two counters of the loops; \<open>runs\<close> is \<open>NR_TESTS_PER_SIZE\<close>.\<close>

definition next_call :: "nat \<Rightarrow> nat \<Rightarrow> nat \<Rightarrow> nat \<Rightarrow> lat_phase" where
  "next_call runs part i j =
     (if Suc j < runs then Calling part i (Suc j)
      else if Suc i < length testsize then Calling part (Suc i) 0
      else Barrier (Suc part))"

definition lat_issue :: "nat \<Rightarrow> nat \<Rightarrow> nat \<Rightarrow> latency \<Rightarrow> lat_call" where
  "lat_issue t part i s = \<lparr>lk_tid = t, lk_part = part, lk_size = testsize ! i, lk_handler = ucast (la_key s)\<rparr>"

definition goes :: "nat \<Rightarrow> lat_phase \<Rightarrow> latency \<Rightarrow> latency" where
  "goes t ph s = s\<lparr>la_phase := (la_phase s)(t := ph)\<rparr>"

inductive lat_step :: "nat \<Rightarrow> nat \<Rightarrow> latency \<Rightarrow> latency \<Rightarrow> bool" for n runs where
  shared_ok: "\<lbrakk>t < n; la_phase s t = Setup\<rbrakk> \<Longrightarrow> lat_step n runs s (goes t (Barrier 0) s)"
| shared_failed: "\<lbrakk>t < n; la_phase s t = Setup\<rbrakk> \<Longrightarrow> lat_step n runs s (goes t Exited s)"
| released: "\<lbrakk>t < n; \<forall>u<n. la_phase s u = Barrier b\<rbrakk> \<Longrightarrow>
    lat_step n runs s (s\<lparr>la_phase := (\<lambda>u. if u < n then after_barrier b (u = t) else la_phase s u)\<rparr>)"
| allocated: "\<lbrakk>t < n; la_phase s t = Allocating\<rbrakk> \<Longrightarrow>
    lat_step n runs s (goes t (Calling 0 0 0) (s\<lparr>la_key := scast (key :: c_int)\<rparr>))"
| called: "\<lbrakk>t < n; la_phase s t = Calling part i j\<rbrakk> \<Longrightarrow>
    lat_step n runs s (goes t (next_call runs part i j) (s\<lparr>la_calls := la_calls s @ [lat_issue t part i s]\<rparr>))"
| freed: "\<lbrakk>t < n; la_phase s t = Freeing\<rbrakk> \<Longrightarrow> lat_step n runs s (goes t Exited s)"

definition lat_reaches :: "nat \<Rightarrow> nat \<Rightarrow> latency \<Rightarrow> latency \<Rightarrow> bool" where
  "lat_reaches n runs = (lat_step n runs)\<^sup>*\<^sup>*"

lemma lat_reaches_step: "lat_reaches n runs s s1 \<Longrightarrow> lat_step n runs s1 s2 \<Longrightarrow> lat_reaches n runs s s2"
  unfolding lat_reaches_def by simp

section \<open>The three stages of a run\<close>

text \<open>
  Before the first barrier opens nothing is called; while the serial thread allocates, the
  others can write; when it has allocated, the key is fixed.
\<close>

definition lat_early :: "nat \<Rightarrow> latency \<Rightarrow> bool" where
  "lat_early n s = ((\<forall>t<n. la_phase s t \<in> {Setup, Barrier 0, Exited}) \<and> la_key s = 0 \<and> la_calls s = [])"

definition lat_unkeyed :: "nat \<Rightarrow> latency \<Rightarrow> bool" where
  "lat_unkeyed n s =
     ((\<exists>t<n. la_phase s t = Allocating \<and>
        (\<forall>u<n. u \<noteq> t \<longrightarrow> la_phase s u = Barrier 1 \<or> (\<exists>i j. la_phase s u = Calling 0 i j))) \<and>
      la_key s = 0 \<and> (\<forall>c\<in>set (la_calls s). lk_part c = 0 \<and> lk_handler c = 0))"

definition lat_keyed :: "nat \<Rightarrow> latency \<Rightarrow> bool" where
  "lat_keyed n s =
     ((\<forall>t<n. la_phase s t \<in> {Barrier 1, Barrier 2, Freeing, Exited} \<or> (\<exists>p i j. la_phase s t = Calling p i j \<and> p \<le> 1)) \<and>
      (\<forall>c\<in>set (la_calls s). lk_handler c = ucast (la_key s) \<or> lk_part c = 0 \<and> lk_handler c = 0))"

lemma goes_simps [simp]:
  "la_phase (goes t ph s) = (la_phase s)(t := ph)" "la_key (goes t ph s) = la_key s"
  "la_calls (goes t ph s) = la_calls s"
  by (simp_all add: goes_def)

lemma next_call_cases:
  "next_call runs p i j = Barrier (Suc p) \<or> (\<exists>i' j'. next_call runs p i j = Calling p i' j')"
  by (simp add: next_call_def)

lemma early_step:
  assumes "lat_step n runs s s'" and "lat_early n s"
  shows "lat_early n s' \<or> lat_unkeyed n s'"
  using assms
proof cases
  case (released t b)
  then have "b = 0"
    using assms(2) by (auto simp: lat_early_def)
  then show ?thesis
    using released assms(2) by (intro disjI2) (auto simp: lat_unkeyed_def lat_early_def)
qed (auto simp: lat_early_def)

lemma unkeyed_step:
  assumes "lat_step n runs s s'" and "lat_unkeyed n s"
  shows "lat_unkeyed n s' \<or> lat_keyed n s'"
proof -
  obtain a where a: "a < n" "la_phase s a = Allocating"
    and others: "\<And>u. u < n \<Longrightarrow> u \<noteq> a \<Longrightarrow> la_phase s u = Barrier 1 \<or> (\<exists>i j. la_phase s u = Calling 0 i j)"
    using assms(2) by (auto simp: lat_unkeyed_def)
  show ?thesis
    using assms(1)
  proof cases
    case (allocated t key)
    then have "t = a"
      using others [of t] by auto
    then show ?thesis
      using allocated assms(2) others by (intro disjI2) (auto simp: lat_unkeyed_def lat_keyed_def dest: others)
  next
    case (called t part i j)
    then have "t \<noteq> a"
      using a by auto
    with called have t: "t \<noteq> a" "part = 0"
      using others [of t] by auto
    then have "la_phase s' a = Allocating"
      using called a by simp
    moreover have "la_phase s' u = Barrier 1 \<or> (\<exists>i j. la_phase s' u = Calling 0 i j)" if "u < n" "u \<noteq> a" for u
      using called t others [OF that] next_call_cases [of runs 0 i j] by auto
    moreover have "la_key s' = 0" "\<forall>c\<in>set (la_calls s'). lk_part c = 0 \<and> lk_handler c = 0"
      using called t assms(2) by (auto simp: lat_unkeyed_def lat_issue_def)
    ultimately have "lat_unkeyed n s'"
      using a(1) unfolding lat_unkeyed_def by blast
    then show ?thesis ..
  next
    case (released t b)
    then show ?thesis
      using a by auto
  qed (use others a in force)+
qed

lemma after_barrier_late:
  "0 < b \<Longrightarrow> after_barrier b serial \<in> {Calling 1 0 0, Freeing}"
  by (cases "(b, serial)" rule: after_barrier.cases) simp_all

lemma keyed_step:
  assumes "lat_step n runs s s'" and "lat_keyed n s"
  shows "lat_keyed n s' \<and> la_key s' = la_key s"
  using assms(1)
proof cases
  case (released t b)
  then have "0 < b"
    using assms(2) by (cases b) (auto simp: lat_keyed_def)
  then have "\<exists>p i j. after_barrier b x = Calling p i j \<and> p \<le> 1 \<or> after_barrier b x = Freeing" for x
    using after_barrier_late [of b x] by auto
  then show ?thesis
    using released assms(2) by (simp add: lat_keyed_def) blast
next
  case (called t part i j)
  then have p: "part \<le> 1"
    using assms(2) by (force simp: lat_keyed_def)
  then have "Suc part = 1 \<or> Suc part = 2"
    by auto
  then have "next_call runs part i j \<in> {Barrier 1, Barrier 2} \<or> (\<exists>i' j'. next_call runs part i j = Calling part i' j')"
    using next_call_cases [of runs part i j] by auto
  then show ?thesis
    using called assms(2) p by (auto simp: lat_keyed_def lat_issue_def)
qed (use assms(2) in \<open>force simp: lat_keyed_def\<close>)+

text \<open>The stages together, as one invariant of the reachable states.\<close>

definition lat_stages :: "nat \<Rightarrow> latency \<Rightarrow> bool" where
  "lat_stages n s = (lat_early n s \<or> lat_unkeyed n s \<or> lat_keyed n s)"

lemma lat_stages_reach: "lat_reaches n runs s s' \<Longrightarrow> lat_stages n s \<Longrightarrow> lat_stages n s'"
  unfolding lat_reaches_def
  by (induction rule: rtranclp_induct) (auto simp: lat_stages_def dest: early_step unkeyed_step keyed_step)

lemma lat_stages_start: "lat_stages n lat_start"
  by (simp add: lat_stages_def lat_early_def lat_start_def)

section \<open>Properties of the program\<close>

lemma lat_opts_ok:
  "\<lbrakk>lat_opts os c = Some c'; sint (lc_remote_node c) \<le> 16; sint (lc_nr_threads c) \<le> 56\<rbrakk> \<Longrightarrow>
   sint (lc_remote_node c') \<le> 16 \<and> sint (lc_nr_threads c') \<le> 56"
  by (induction os c rule: lat_opts.induct) (auto simp: not_less split: if_splits)

lemma decimal_digits:
  assumes "t < 100000" and "u < 100000" and "\<forall>k\<in>{0, 1, 2, 3, 4}. t div 10 ^ k mod 10 = u div 10 ^ k mod 10"
  shows "t = (u :: nat)"
proof -
  have "x = x mod 10 + 10 * (x div 10 mod 10) + 100 * (x div 100 mod 10) + 1000 * (x div 1000 mod 10) +
      10000 * (x div 10000 mod 10)" if "x < 100000" for x :: nat
  proof -
    have "x div 100 = x div 10 div 10" "x div 1000 = x div 100 div 10" "x div 10000 = x div 1000 div 10"
      by (simp_all add: div_mult2_eq [symmetric])
    moreover have "x div 10000 mod 10 = x div 10000"
      using that by (simp add: div_less)
    ultimately show ?thesis
      using div_mult_mod_eq [of x 10] div_mult_mod_eq [of "x div 10" 10] div_mult_mod_eq [of "x div 100" 10]
        div_mult_mod_eq [of "x div 1000" 10] by linarith
  qed
  from this [OF assms(1)] this [OF assms(2)] assms(3) show ?thesis
    by simp
qed

lemma unat_digit: "unat (word_of_nat (48 + z mod 10) :: byte) = 48 + z mod 10"
  by (simp add: unat_of_nat del: of_nat_add)

lemma digit_inj: "(word_of_nat (48 + x mod 10) :: byte) = word_of_nat (48 + y mod 10) \<longleftrightarrow> x mod 10 = y mod 10"
  by (metis unat_digit add_left_cancel)

lemma digit_not_nul: "(word_of_nat (48 + z mod 10) :: byte) \<noteq> 0"
  by (metis unat_digit unat_0 add_is_0 zero_neq_numeral)

text \<open>
  C40: every thread has its own memory. With options that the program accepts, the remote
  node is between 1 and 16, and for any two of its threads the names of their shared memory fit into
  the array with their NUL, reach the router as they are, and differ.
\<close>

theorem latency_names:
  assumes "lat_main os = Some c" and "t \<in> set (lat_tids c)" and "u \<in> set (lat_tids c)" and "t \<noteq> u"
  shows "1 \<le> sint (lc_remote_node c) \<and> sint (lc_remote_node c) \<le> 16 \<and>
    Suc (length (lat_shm_name t)) \<le> sizeof_shm_name \<and> is_cstr (lat_shm_name t) \<and>
    lat_shm_name t \<noteq> lat_shm_name u"
proof -
  have opts: "lat_opts os lat_defaults = Some c" and one: "1 \<le> sint (lc_remote_node c)"
    using assms(1) by (auto simp: lat_main_def split: option.splits if_splits)
  have bounds: "sint (lc_remote_node c) \<le> 16" "sint (lc_nr_threads c) \<le> 56"
    using lat_opts_ok [OF opts] by (simp_all add: lat_defaults_def)
  then have small: "t < 100000" "u < 100000"
    using assms(2,3) by (auto simp: lat_tids_def)
  have "lat_shm_name t \<noteq> lat_shm_name u"
  proof
    assume "lat_shm_name t = lat_shm_name u"
    then have "\<forall>k\<in>{0, 1, 2, 3, 4}. t div 10 ^ k mod 10 = u div 10 ^ k mod 10"
      by (simp add: lat_shm_name_def digit_inj del: of_nat_add)
    then show False
      using decimal_digits [OF small] assms(4) by blast
  qed
  moreover have "is_cstr (lat_shm_name t)"
    using digit_not_nul [symmetric] by (simp add: lat_shm_name_def is_cstr_def bytes_of_def del: of_nat_add)
  moreover have "Suc (length (lat_shm_name t)) \<le> sizeof_shm_name"
    by (simp add: lat_shm_name_def sizeof_shm_name_def)
  ultimately show ?thesis
    using one bounds by simp
qed

theorem latency_names_witness:
  "lat_shm_name 0 \<noteq> lat_shm_name 1"
proof -
  have "lat_main [Lat_remote_nid 2, Lat_thread 2] = Some \<lparr>lc_remote_node = 2, lc_nr_threads = 2\<rparr>"
    by (simp add: lat_main_def lat_defaults_def)
  from latency_names [OF this, of 0 1] show ?thesis
    by (simp add: lat_tids_def)
qed

text \<open>
  C38: every read uses the key. In every reachable state, with any number of threads and any
  runs per size, a call has been made with the key that the serial thread has stored or, only for a
  write, with the initial 0.
\<close>

theorem latency_keys:
  assumes "lat_reaches n runs lat_start s" and "c \<in> set (la_calls s)"
  shows "(lk_handler c = ucast (la_key s) \<or> lk_handler c = 0) \<and>
    (lk_part c = 1 \<longrightarrow> lk_handler c = ucast (la_key s))"
  using lat_stages_reach [OF assms(1) lat_stages_start] assms(2)
  by (auto simp: lat_stages_def lat_early_def lat_unkeyed_def lat_keyed_def)

text \<open>All threads arrive at the first barrier.\<close>

definition lat_arrived :: "nat \<Rightarrow> latency" where
  "lat_arrived m = \<lparr>la_phase = (\<lambda>u. if u < m then Barrier 0 else Setup), la_key = 0, la_calls = []\<rparr>"

lemma lat_arrive: "m \<le> n \<Longrightarrow> lat_reaches n runs lat_start (lat_arrived m)"
proof (induction m)
  case 0
  then show ?case
    by (simp add: lat_reaches_def lat_start_def lat_arrived_def)
next
  case (Suc m)
  have "lat_arrived (Suc m) = goes m (Barrier 0) (lat_arrived m)"
    by (auto simp: lat_arrived_def goes_def fun_eq_iff)
  then have "lat_step n runs (lat_arrived m) (lat_arrived (Suc m))"
    using shared_ok [of m n "lat_arrived m" runs] Suc.prems by (simp add: lat_arrived_def)
  with Suc show ?case
    unfolding lat_reaches_def by simp
qed

theorem latency_keys_witness:
  "\<exists>s c. lat_reaches 1 1000000 lat_start s \<and> la_key s = 13 \<and> c \<in> set (la_calls s) \<and> lk_size c = 8 \<and>
     (lk_handler c = 13 \<or> lk_handler c = 0)"
proof -
  let ?s0 = "lat_arrived 1"
  let ?s1 = "?s0\<lparr>la_phase := (\<lambda>u. if u < 1 then after_barrier 0 (u = 0) else la_phase ?s0 u)\<rparr>"
  let ?s2 = "goes 0 (Calling 0 0 0) (?s1\<lparr>la_key := scast (13 :: c_int)\<rparr>)"
  let ?s3 = "goes 0 (next_call 1000000 0 0 0) (?s2\<lparr>la_calls := la_calls ?s2 @ [lat_issue 0 0 0 ?s2]\<rparr>)"
  let ?c = "\<lparr>lk_tid = 0, lk_part = 0, lk_size = 8, lk_handler = 13\<rparr>"
  have a: "lat_step 1 1000000 ?s0 ?s1"
    by (intro released [of 0]) (simp_all add: lat_arrived_def)
  have b: "lat_step 1 1000000 ?s1 ?s2"
    by (intro allocated) simp_all
  have c: "lat_step 1 1000000 ?s2 ?s3"
    by (intro called) simp_all
  have r: "lat_reaches 1 1000000 lat_start ?s3"
    by (rule lat_reaches_step [OF lat_reaches_step [OF lat_reaches_step [OF lat_arrive [OF order_refl] a] b] c])
  have k: "la_key ?s3 = 13" and m: "?c \<in> set (la_calls ?s3)"
    by (simp_all add: lat_issue_def testsize_def)
  have "lk_handler ?c = 13 \<or> lk_handler ?c = 0"
    using latency_keys [OF r m] k by simp
  with r k m show ?thesis
    by (intro exI [of _ ?s3] exI [of _ ?c]) simp
qed

text \<open>
  C39: writes with key 0. With two threads or more, and whatever key the allocation returns,
  there is an order of steps in which a thread that has passed the barrier writes with handler 0
  before the serial thread has stored the key: the barrier comes before the allocation, not
  after it.
\<close>

theorem latency_race:
  assumes "2 \<le> n"
  shows "\<exists>s. lat_reaches n runs lat_start s \<and> la_key s = scast (key :: c_int) \<and>
    \<lparr>lk_tid = 1, lk_part = 0, lk_size = 8, lk_handler = 0\<rparr> \<in> set (la_calls s)"
proof -
  let ?s0 = "lat_arrived n"
  let ?s1 = "?s0\<lparr>la_phase := (\<lambda>u. if u < n then after_barrier 0 (u = 0) else la_phase ?s0 u)\<rparr>"
  let ?s2 = "goes 1 (next_call runs 0 0 0) (?s1\<lparr>la_calls := la_calls ?s1 @ [lat_issue 1 0 0 ?s1]\<rparr>)"
  let ?s3 = "goes 0 (Calling 0 0 0) (?s2\<lparr>la_key := scast key\<rparr>)"
  have a: "lat_step n runs ?s0 ?s1"
    using assms by (intro released [of 0]) (simp_all add: lat_arrived_def)
  have b: "lat_step n runs ?s1 ?s2"
    using assms by (intro called) simp_all
  have c: "lat_step n runs ?s2 ?s3"
    using assms by (intro allocated) simp_all
  have "lat_reaches n runs lat_start ?s3"
    by (rule lat_reaches_step [OF lat_reaches_step [OF lat_reaches_step [OF lat_arrive [OF order_refl] a] b] c])
  then show ?thesis
    by (intro exI [of _ ?s3]) (simp add: lat_issue_def testsize_def lat_arrived_def)
qed

theorem latency_race_witness:
  "\<exists>s. lat_reaches 2 1000000 lat_start s \<and> la_key s = 13 \<and>
    \<lparr>lk_tid = 1, lk_part = 0, lk_size = 8, lk_handler = 0\<rparr> \<in> set (la_calls s)"
  using latency_race [of 2 1000000 13] by simp

text \<open>
  One failure blocks the rest. When a thread cannot allocate its own memory it exits without
  reaching the barrier, and then no thread of the program ever makes a call.
\<close>

lemma one_failure_blocks:
  assumes "lat_reaches n runs lat_start s" and "t < n" and "la_phase s t = Setup"
    and "lat_reaches n runs (goes t Exited s) s'"
  shows "la_calls s' = []"
proof -
  have "lat_early n s"
    using lat_stages_reach [OF assms(1) lat_stages_start] assms(2,3)
    by (force simp: lat_stages_def lat_unkeyed_def lat_keyed_def)
  then have "lat_early n (goes t Exited s) \<and> la_phase (goes t Exited s) t = Exited"
    by (simp add: lat_early_def)
  with assms(4) have "lat_early n s' \<and> la_phase s' t = Exited"
    unfolding lat_reaches_def
  proof (induction rule: rtranclp_induct)
    case (step y z)
    then have y: "lat_early n y" "la_phase y t = Exited"
      by simp_all
    from step(2) show ?case
    proof cases
      case (released u b)
      then show ?thesis
        using y assms(2) by auto
    qed (use y in \<open>auto simp: lat_early_def\<close>)
  qed simp
  then show ?thesis
    by (simp add: lat_early_def)
qed

text \<open>A negative number of threads passes the check, and the program then does nothing.\<close>

lemma negative_threads:
  "\<exists>c. lat_main [Lat_remote_nid 2, Lat_thread 0xFFFFFFFF] = Some c \<and> lat_tids c = []"
  by (simp add: lat_main_def lat_defaults_def lat_tids_def)

end
