(* ===== verification/Latency_Run.thy ===== *)
theory Latency_Run
  imports Latency Write_Test
begin

text \<open>
  The program \<open>client/test_latency.c\<close> with one thread, its default, and all its calls to the library:
  its thread then is the serial thread of every barrier. \<open>latency_on_router\<close> is the same run as the
  router sees it. Times and output are left out; \<open>memset\<close> acts through a parameter that has no
  result when the bytes are not mapped (the program crashes).
\<close>

section \<open>The program\<close>

definition lat_buf_size :: c_int where "lat_buf_size = 1024 * 1024 * 32"

definition NR_TESTS_PER_SIZE :: nat where "NR_TESTS_PER_SIZE = 1000 * 1000"

definition lat_password :: c_int where "lat_password = 100"

text \<open>The two loops around a call \<open>op\<close>; \<open>stk k\<close> is what the \<open>k\<close>-th call finds on its stack.\<close>

primrec lat_times ::
  "(stack \<Rightarrow> 'w client_shared \<Rightarrow> c_int \<times> 'w client_shared) \<Rightarrow> nat \<Rightarrow> (nat \<Rightarrow> stack) \<Rightarrow> 'w client_shared \<Rightarrow> 'w client_shared" where
  "lat_times op 0 stk s = s"
| "lat_times op (Suc n) stk s = lat_times op n (\<lambda>k. stk (Suc k)) (snd (op (stk 0) s))"

primrec lat_sizes ::
  "(c_int \<Rightarrow> stack \<Rightarrow> 'w client_shared \<Rightarrow> c_int \<times> 'w client_shared) \<Rightarrow> nat \<Rightarrow> c_int list \<Rightarrow> (nat \<Rightarrow> stack) \<Rightarrow>
   'w client_shared \<Rightarrow> 'w client_shared" where
  "lat_sizes op n [] stk s = s"
| "lat_sizes op n (sz # szs) stk s = lat_sizes op n szs (\<lambda>k. stk (n + k)) (lat_times (op sz) n stk s)"

text \<open>
  \<open>rdma_write_read\<close> of thread \<open>tid\<close>, with the exit code of the program: 1 from \<open>die\<close>, 0 from \<open>main\<close>, which
  joins the thread. The first part is from the barrier on. \<open>local_addr\<close> is the address of its variable \<open>buf\<close>.
\<close>

definition lat_measure ::
  "'w client_env \<Rightarrow> (nat \<Rightarrow> stack) \<Rightarrow> c_int \<Rightarrow> nat \<Rightarrow> c_ptr \<Rightarrow> 'w client_shared \<Rightarrow> (int \<times> 'w client_shared) option" where
  "lat_measure env stk remote_node tid remote_addr s =
     (case c_alloc_remote_mem env remote_node lat_buf_size False lat_password (stk 0) s of (key, s1) \<Rightarrow>
        let test_key = scast key :: c_long;
            len = NR_TESTS_PER_SIZE * length testsize;
            s2 = lat_sizes (\<lambda>sz. c_rdma_write env (ucast test_key) remote_addr sz 0 lat_password)
                   NR_TESTS_PER_SIZE testsize (\<lambda>k. stk (1 + k)) s1;
            s3 = lat_sizes (\<lambda>sz. c_rdma_read env (ucast test_key) remote_addr sz 0 lat_password)
                   NR_TESTS_PER_SIZE testsize (\<lambda>k. stk (1 + len + k)) s2
        in map_option (\<lambda>(_, s4). (0, s4))
             (c_free_local_mem env (lat_shm_name tid) (ucast lat_buf_size) remote_addr (stk (1 + 2 * len)) s3))"

definition rdma_write_read ::
  "'w client_env \<Rightarrow> (c_ptr \<Rightarrow> byte \<Rightarrow> nat \<Rightarrow> 'w \<Rightarrow> 'w option) \<Rightarrow> c_ptr \<Rightarrow> (nat \<Rightarrow> stack) \<Rightarrow> c_int \<Rightarrow> nat \<Rightarrow> 'w client_shared \<Rightarrow>
   (int \<times> 'w client_shared) option" where
  "rdma_write_read env stamp local_addr stk remote_node tid s =
     (case c_alloc_local_mem env (lat_shm_name tid) (ucast lat_buf_size) local_addr (stk 0) s of
        None \<Rightarrow> None
      | Some (a, s1) \<Rightarrow>
          if sint (ao_ret a) < 0 then Some (0, s1)
          else
            (let buf = (case ao_local a of None \<Rightarrow> 0 | Some p \<Rightarrow> p);
                 remote_addr = (case ao_remote a of None \<Rightarrow> 0 | Some p \<Rightarrow> p)
             in if buf = 0 then Some (1, s1)
                else
                  (case stamp buf 0x41 (1024 * 64) (snd s1) of
                     None \<Rightarrow> None
                   | Some w2 \<Rightarrow> lat_measure env (\<lambda>k. stk (Suc k)) remote_node tid remote_addr (fst s1, w2))))"

section \<open>The run on the router\<close>

definition op_sizes :: "(c_int \<Rightarrow> 'w \<Rightarrow> c_int \<times> 'w) \<Rightarrow> nat \<Rightarrow> c_int list \<Rightarrow> 'w \<Rightarrow> 'w" where
  "op_sizes f n = fold (\<lambda>sz. (\<lambda>w. snd (f sz w)) ^^ n)"

definition measure_on_router ::
  "'w router_env \<Rightarrow> c_int \<Rightarrow> nat \<Rightarrow> c_ptr \<Rightarrow> 'w router_shared \<Rightarrow> 'w router_shared" where
  "measure_on_router renv node tid addr s =
     (case resolve_node renv node s of (nid, rt', w1) \<Rightarrow>
        case lite_alloc_remote_mem (re_lite renv) nid lat_buf_size False lat_password w1 of (key, w2) \<Rightarrow>
          let w3 = op_sizes (\<lambda>sz. lite_rdma_write (re_lite renv) key addr sz 0 lat_password) 1000000 testsize w2;
              w4 = op_sizes (\<lambda>sz. lite_rdma_read (re_lite renv) key addr sz 0 lat_password) 1000000 testsize w3
          in (rt', snd (free_shm_mem (re_shm renv) (lat_shm_name tid) (ucast lat_buf_size) addr w4)))"

definition latency_on_router ::
  "'w router_env \<Rightarrow> (c_ptr \<Rightarrow> byte \<Rightarrow> nat \<Rightarrow> 'w \<Rightarrow> 'w option) \<Rightarrow> c_int \<Rightarrow> nat \<Rightarrow> 'w router_shared \<Rightarrow>
   (int \<times> 'w router_shared) option" where
  "latency_on_router renv stamp node tid s =
     (case alloc_shm_mem (re_shm renv) (lat_shm_name tid) (ucast lat_buf_size) (snd s) of (r, a, w1) \<Rightarrow>
        if r \<noteq> 0 then Some (0, (fst s, w1))
        else case sh_open (re_shm renv) (lat_shm_name tid) False w1 of (fd, w2) \<Rightarrow>
          if fd < 0 then Some (0, (fst s, w2))
          else case sh_mmap (re_shm renv) (ucast lat_buf_size) fd w2 of (p, w3) \<Rightarrow>
            if p = 0 then Some (1, (fst s, w3))
            else map_option (\<lambda>w4. (0, measure_on_router renv node tid (the a) (fst s, w4))) (stamp p 0x41 65536 w3))"

lemma lat_times_on_router:
  assumes "rlink_ready (cs, l)" and "\<And>k. stack_ok (stk k)" and "shared (sk_conn l) = (rt, w)"
    and op: "\<And>l w stk. \<lbrakk>rlink_ready (cs, l); stack_ok stk; shared (sk_conn l) = (rt, w)\<rbrakk> \<Longrightarrow> carried (op stk) (cs, l) rt (f w)"
  shows "\<exists>l'. lat_times op n stk (cs, l) = (cs, l') \<and> rlink_ready (cs, l') \<and>
    shared (sk_conn l') = (rt, ((\<lambda>w. snd (f w)) ^^ n) w)"
  using assms(1-3)
proof (induction n arbitrary: l w stk)
  case (Suc n)
  obtain l1 where l1: "op (stk 0) (cs, l) = (fst (f w), (cs, l1))" "rlink_ready (cs, l1)" "shared (sk_conn l1) = (rt, snd (f w))"
    using op [OF Suc.prems(1) Suc.prems(2) Suc.prems(3), of 0] by (auto simp: carried_def)
  show ?case
    using Suc.IH [OF l1(2) _ l1(3), of "\<lambda>k. stk (Suc k)"] Suc.prems(2) l1(1)
    by (simp add: funpow_Suc_right del: funpow.simps(2))
qed simp

lemma lat_sizes_on_router:
  assumes "rlink_ready (cs, l)" and "\<And>k. stack_ok (stk k)" and "shared (sk_conn l) = (rt, w)"
    and op: "\<And>sz l w stk. \<lbrakk>rlink_ready (cs, l); stack_ok stk; shared (sk_conn l) = (rt, w)\<rbrakk> \<Longrightarrow>
      carried (op sz stk) (cs, l) rt (f sz w)"
  shows "\<exists>l'. lat_sizes op n szs stk (cs, l) = (cs, l') \<and> rlink_ready (cs, l') \<and>
    shared (sk_conn l') = (rt, op_sizes f n szs w)"
  using assms(1-3)
proof (induction szs arbitrary: l w stk)
  case (Cons sz szs)
  have "\<exists>l1. lat_times (op sz) n stk (cs, l) = (cs, l1) \<and> rlink_ready (cs, l1) \<and>
    shared (sk_conn l1) = (rt, ((\<lambda>w. snd (f sz w)) ^^ n) w)"
    by (rule lat_times_on_router) (rule Cons.prems op | assumption)+
  then obtain l1 where l1: "lat_times (op sz) n stk (cs, l) = (cs, l1)" "rlink_ready (cs, l1)"
    "shared (sk_conn l1) = (rt, ((\<lambda>w. snd (f sz w)) ^^ n) w)"
    by blast
  show ?case
    using Cons.IH [OF l1(2) _ l1(3), of "\<lambda>k. stk (n + k)"] Cons.prems(2) l1(1) by (simp add: op_sizes_def)
qed (simp add: op_sizes_def)

text \<open>The writes and the reads, one after the other.\<close>

lemma lat_loops_on_router:
  assumes "rlink_ready (cs, l)" and "\<And>k. stack_ok (stk k)" and "shared (sk_conn l) = (rt, w)"
  obtains l1 l2 where
    "lat_sizes (\<lambda>sz. c_rdma_write (on_router renv env) h addr sz 0 pw) n szs (\<lambda>k. stk (i + k)) (cs, l) = (cs, l1)"
    and "lat_sizes (\<lambda>sz. c_rdma_read (on_router renv env) h addr sz 0 pw) n szs (\<lambda>k. stk (j + k)) (cs, l1) = (cs, l2)"
    and "rlink_ready (cs, l2)" and "shared (sk_conn l2) = (rt, op_sizes (\<lambda>sz. lite_rdma_read (re_lite renv) h addr sz 0 pw) n szs
      (op_sizes (\<lambda>sz. lite_rdma_write (re_lite renv) h addr sz 0 pw) n szs w))"
proof -
  have "\<exists>l1. lat_sizes (\<lambda>sz. c_rdma_write (on_router renv env) h addr sz 0 pw) n szs (\<lambda>k. stk (i + k)) (cs, l) = (cs, l1) \<and>
      rlink_ready (cs, l1) \<and> shared (sk_conn l1) = (rt, op_sizes (\<lambda>sz. lite_rdma_write (re_lite renv) h addr sz 0 pw) n szs w)"
    by (rule lat_sizes_on_router) (rule assms carried_wrappers(1) | assumption)+
  then obtain l1 where l1: "lat_sizes (\<lambda>sz. c_rdma_write (on_router renv env) h addr sz 0 pw) n szs (\<lambda>k. stk (i + k)) (cs, l) =
      (cs, l1)" "rlink_ready (cs, l1)"
      "shared (sk_conn l1) = (rt, op_sizes (\<lambda>sz. lite_rdma_write (re_lite renv) h addr sz 0 pw) n szs w)"
    by blast
  have "\<exists>l2. lat_sizes (\<lambda>sz. c_rdma_read (on_router renv env) h addr sz 0 pw) n szs (\<lambda>k. stk (j + k)) (cs, l1) = (cs, l2) \<and>
      rlink_ready (cs, l2) \<and> shared (sk_conn l2) = (rt, op_sizes (\<lambda>sz. lite_rdma_read (re_lite renv) h addr sz 0 pw) n szs
        (op_sizes (\<lambda>sz. lite_rdma_write (re_lite renv) h addr sz 0 pw) n szs w))"
    by (rule lat_sizes_on_router) (rule l1 assms(2) carried_wrappers(2) | assumption)+
  then show thesis
    using that l1(1) by blast
qed

text \<open>The name of a thread's object, for the number of threads that the options let through.\<close>

lemma lat_name_ok:
  "is_cstr (lat_shm_name tid)" "length (lat_shm_name tid) < 256"
  using digit_not_nul [symmetric] by (simp_all add: lat_shm_name_def is_cstr_def bytes_of_def del: of_nat_add)

lemma lat_measure_on_router:
  assumes "rlink_ready (cs, l)" and "\<And>k. stack_ok (stk k)" and "shared (sk_conn l) = (rt, w)"
  obtains l' where "lat_measure (on_router renv env) stk node tid addr (cs, l) = Some (0, (cs, l'))" and "rlink_ready (cs, l')"
    and "shared (sk_conn l') = measure_on_router renv node tid addr (rt, w)"
proof -
  let ?len = "NR_TESTS_PER_SIZE * length testsize" and ?on = "on_router renv env"
  let ?nm = "lat_shm_name tid" and ?sz = "ucast lat_buf_size :: c_long"
  obtain nid rt' w1 where n: "resolve_node renv node (rt, w) = (nid, (rt', w1))"
    by (rule prod_cases3)
  obtain key w2 where k: "lite_alloc_remote_mem (re_lite renv) nid lat_buf_size False lat_password w1 = (key, w2)"
    by (rule prod.exhaust)
  obtain l1 where l1: "c_alloc_remote_mem ?on node lat_buf_size False lat_password (stk 0) (cs, l) = (key, (cs, l1))"
    "rlink_ready (cs, l1)" "shared (sk_conn l1) = (rt', w2)"
    using carried_alloc_remote_mem [OF assms(1) assms(2) [of 0] assms(3) n, of env lat_buf_size False lat_password] k
    by (auto simp: carried_def)
  have key: "ucast (scast key :: c_long) = key"
    by (rule bit_word_eqI) (simp add: bit_simps)
  let ?w4 = "op_sizes (\<lambda>sz. lite_rdma_read (re_lite renv) key addr sz 0 lat_password) NR_TESTS_PER_SIZE testsize
    (op_sizes (\<lambda>sz. lite_rdma_write (re_lite renv) key addr sz 0 lat_password) NR_TESTS_PER_SIZE testsize w2)"
  obtain l2 l3 where l2: "lat_sizes (\<lambda>sz. c_rdma_write ?on key addr sz 0 lat_password) NR_TESTS_PER_SIZE testsize
      (\<lambda>k. stk (1 + k)) (cs, l1) = (cs, l2)"
    and l3: "lat_sizes (\<lambda>sz. c_rdma_read ?on key addr sz 0 lat_password) NR_TESTS_PER_SIZE testsize
      (\<lambda>k. stk (1 + ?len + k)) (cs, l2) = (cs, l3)" "rlink_ready (cs, l3)" "shared (sk_conn l3) = (rt', ?w4)"
    by (rule lat_loops_on_router [OF l1(2) assms(2) l1(3)])
  obtain q w5 where q: "free_shm_mem (re_shm renv) ?nm ?sz addr ?w4 = (q, w5)"
    by (rule prod.exhaust)
  obtain l4 where l4: "c_free_local_mem ?on ?nm ?sz addr (stk (1 + 2 * ?len)) (cs, l3) = Some (q, (cs, l4))"
    "rlink_ready (cs, l4)" "shared (sk_conn l4) = (rt', w5)"
    using remote_free_local_mem [OF l3(2) assms(2) [of "1 + 2 * ?len"] l3(3) lat_name_ok q, of env] by blast
  have runs: "1000000 = NR_TESTS_PER_SIZE"
    by (simp add: NR_TESTS_PER_SIZE_def)
  show thesis
    by (rule that [OF _ l4(2)])
      (simp_all add: lat_measure_def measure_on_router_def runs l1(1) key l2 [simplified] l3(1) [simplified] l4(1) [simplified]
        l4(3) n k q Let_def)
qed

text \<open>
  C37: \<open>test_latency\<close> with one thread is what its router makes of it. For a client on a ready connection
  that shares its node's memory with the router, whatever its stack holds, \<open>rdma_write_read\<close>
  ends with the exit code and the effect of \<open>latency_on_router\<close>: an object of 32 MB is created
  and mapped under the thread's name, memory of that size is allocated on the resolved node, seven million
  writes and seven million reads are made with whatever key came back, and the object is freed; a failure of
  the first step ends the thread. It crashes exactly when that run does, at a \<open>memset\<close> of bytes that are
  not mapped.
\<close>

theorem latency_test_on_router:
  assumes "rlink_ready (cs, l)" and "\<And>k. stack_ok (stk k)" and "shared (sk_conn l) = (rt, w)"
    and "la \<noteq> MAP_FAILED" and "ce_shm env = world_shm (re_shm renv)"
  shows "case latency_on_router renv stamp node tid (rt, w) of
      None \<Rightarrow> rdma_write_read (on_router renv env) (world_stamp stamp) la stk node tid (cs, l) = None
    | Some (code, s') \<Rightarrow>
        \<exists>l'. rdma_write_read (on_router renv env) (world_stamp stamp) la stk node tid (cs, l) = Some (code, (cs, l')) \<and>
          rlink_ready (cs, l') \<and> shared (sk_conn l') = s'"
proof -
  let ?nm = "lat_shm_name tid" and ?sz = "ucast lat_buf_size :: c_long" and ?on = "on_router renv env"
  obtain r a w1 where a: "alloc_shm_mem (re_shm renv) ?nm ?sz w = (r, a, w1)"
    by (rule prod_cases3)
  obtain fd w2 where o: "sh_open (re_shm renv) ?nm False w1 = (fd, w2)"
    by (rule prod.exhaust)
  obtain p w3 where m: "sh_mmap (re_shm renv) ?sz fd w2 = (p, w3)"
    by (rule prod.exhaust)
  obtain out l1 where l1: "c_alloc_local_mem ?on ?nm ?sz la (stk 0) (cs, l) = Some (out, (cs, l1))" "rlink_ready (cs, l1)"
    and e1: "r \<noteq> 0 \<longrightarrow> sint (ao_ret out) < 0 \<and> shared (sk_conn l1) = (rt, w1)"
    and e2: "r = 0 \<and> fd < 0 \<longrightarrow> sint (ao_ret out) < 0 \<and> shared (sk_conn l1) = (rt, w2)"
    and ok: "r = 0 \<and> \<not> fd < 0 \<longrightarrow> ao_ret out = 0 \<and> ao_local out = Some p \<and> ao_remote out = a \<and> shared (sk_conn l1) = (rt, w3)"
    by (rule shared_alloc [OF assms(1) assms(2) [of 0] assms(3,4,5) a o m lat_name_ok])
  show ?thesis
  proof (cases "r \<noteq> 0 \<or> fd < 0")
    case True
    then show ?thesis
      using l1 e1 e2 by (auto simp: rdma_write_read_def latency_on_router_def a o)
  next
    case False
    then have out: "ao_ret out = 0" "ao_local out = Some p" "ao_remote out = a" "shared (sk_conn l1) = (rt, w3)"
      using ok by simp_all
    obtain addr where addr: "a = Some addr"
      using alloc_shm_mem_result [OF a] False by auto
    show ?thesis
    proof (cases "p \<noteq> 0 \<and> stamp p 0x41 65536 w3 \<noteq> None")
      case True
      then obtain w4 where w4: "stamp p 0x41 65536 w3 = Some w4"
        by blast
      obtain l1' where st: "world_stamp stamp p 0x41 65536 l1 = Some l1'" "rlink_ready (cs, l1')" "shared (sk_conn l1') = (rt, w4)"
        by (rule world_stamp_link [where stamp = stamp and p = p and b = "0x41" and n = 65536, OF l1(2) out(4) w4])
      obtain l2 where l2: "lat_measure ?on (\<lambda>k. stk (Suc k)) node tid addr (cs, l1') = Some (0, (cs, l2))"
        "rlink_ready (cs, l2)" "shared (sk_conn l2) = measure_on_router renv node tid addr (rt, w4)"
        by (rule lat_measure_on_router [OF st(2) assms(2) st(3)])
      show ?thesis
        using l2(2,3) False True
        by (simp add: rdma_write_read_def latency_on_router_def l1(1) out addr a o m st(1) w4 l2(1) [simplified])
    next
      case no_stamp: False
      then show ?thesis
        using l1(2) False world_stamp_crash [OF out(4), of stamp p "0x41" 65536]
        by (auto simp: rdma_write_read_def latency_on_router_def l1(1) out addr a o m)
    qed
  qed
qed

lemma sample_ops:
  assumes "\<And>sz w. length (sw_calls (snd (f sz w))) = Suc (length (sw_calls w))"
  shows "length (sw_calls (op_sizes f n szs w)) = n * length szs + length (sw_calls w)"
proof (induction szs arbitrary: w)
  case (Cons sz szs)
  have "length (sw_calls (((\<lambda>w. snd (f sz w)) ^^ n) w)) = n + length (sw_calls w)"
    by (induction n) (simp_all add: assms)
  then show ?case
    using Cons.IH by (simp add: op_sizes_def)
qed (simp add: op_sizes_def)

text \<open>One allocation and fourteen million reads and writes on the sample router.\<close>

theorem latency_test_on_router_witness:
  "\<exists>l'. rdma_write_read (on_router sample_renv (sample_cenv\<lparr>ce_shm := world_shm sample_shm\<rparr>)) (world_stamp (\<lambda>_ _ _ w. Some w)) 0x7000
     (\<lambda>_. sample_stack) 2 0 (sample_client, sample_link) = Some (0, (sample_client, l')) \<and>
   length (sw_calls (snd (shared (sk_conn l')))) = 14000001"
proof -
  note shm = sample_shm_calls and r = sample_lookup [of sample_start]
  have calls: "length (sw_calls (snd (lite_rdma_write sample_os h ad sz 0 pw w))) = Suc (length (sw_calls w))"
    "length (sw_calls (snd (lite_rdma_read sample_os h ad sz 0 pw w))) = Suc (length (sw_calls w))" for h ad sz pw w
    by (simp_all add: lite_rdma_write_def lite_rdma_read_def int_syscall_def sample_os_def)
  obtain code s' where run: "latency_on_router sample_renv (\<lambda>_ _ _ w. Some w) 2 0 (routing_init\<lparr>vcm_sock := 3\<rparr>, sample_start) =
      Some (code, s')" "code = 0" "length (sw_calls (snd s')) = 14000001"
    by (simp add: latency_on_router_def measure_on_router_def shm r lite_alloc_remote_mem_def case_prod_beta sample_ops calls Let_def)
      (simp add: testsize_def int_syscall_def sample_os_def sample_start_def)
  have "(0x7000 :: c_ptr) \<noteq> MAP_FAILED"
    by (simp add: MAP_FAILED_def)
  then show ?thesis
    using latency_test_on_router [OF sample_ready sample_stack_ok sample_shared, of "0x7000"
        "sample_cenv\<lparr>ce_shm := world_shm sample_shm\<rparr>" sample_renv "\<lambda>_ _ _ w. Some w" 2 0] run
    by auto
qed

end
