(* ===== verification/Isolation.thy ===== *)
theory Isolation
  imports Router_Facts
begin

text \<open>
  What a connection can do to the others of its router. A container talks to its router over
  a socket on which it can send any bytes; the switch runs whatever request they make. The
  only entry of the container map that a connection ever writes is the one of its own
  container, once, and cached resolutions are only added.
\<close>

section \<open>What one operation writes\<close>

definition others_kept :: "string \<Rightarrow> routing_state \<Rightarrow> routing_state \<Rightarrow> bool" where
  "others_kept cid st st' =
     ((\<forall>c. c \<noteq> cid \<longrightarrow> cid_vid_map st' c = cid_vid_map st c) \<and>
      (\<forall>v. cid_vid_map st cid = Some v \<longrightarrow> cid_vid_map st' cid = Some v) \<and>
      (\<forall>v n. vid_nid_map_cache st v = Some n \<longrightarrow> vid_nid_map_cache st' v = Some n))"

lemma others_kept_refl [simp]: "others_kept cid st st"
  by (simp add: others_kept_def)

lemma others_kept_trans: "others_kept cid st st1 \<Longrightarrow> others_kept cid st1 st2 \<Longrightarrow> others_kept cid st st2"
  by (auto simp: others_kept_def)

lemma vcm_join_others: "vcm_join api nid cid st w = (v, st', w') \<Longrightarrow> others_kept cid st st'"
  by (erule vcm_join_cases) (auto simp: others_kept_def umap_insert_apply)

lemma vcm_vid_nid_others: "vcm_vid_nid api v st w = (n, st', w') \<Longrightarrow> others_kept cid st st'"
  by (erule vcm_vid_nid_cases) (auto simp: others_kept_def)

lemma resolve_node_others: "resolve_node env v s = (n, s') \<Longrightarrow> others_kept cid (fst s) (fst s')"
  by (cases s') (auto simp: resolve_node_def split: if_splits dest: vcm_vid_nid_others)

section \<open>What one request writes\<close>

lemma answer_state: "answer l v s = Respond l' s' \<Longrightarrow> s' = s"
  by (simp add: answer_Respond)

lemma world_call_state: "world_call l s f = Respond l' s' \<Longrightarrow> fst s' = fst s"
  by (auto simp: world_call_def answer_Respond split: prod.splits)

lemma do_join_others: "do_join env l s = Respond l' s' \<Longrightarrow> others_kept (rl_cid l) (fst s) (fst s')"
  by (cases s'; auto simp: do_join_def answer_Respond split: if_splits prod.splits dest: vcm_join_others)

lemma resolving_others:
  assumes "(case resolve_node env v s of (n, s1) \<Rightarrow> f n s1) = Respond l' s'"
    and "\<And>n s1. f n s1 = Respond l' s' \<Longrightarrow> fst s' = fst s1"
  shows "others_kept cid (fst s) (fst s')"
proof -
  obtain n s1 where r: "resolve_node env v s = (n, s1)"
    by (metis prod.exhaust)
  then show ?thesis
    using assms resolve_node_others [OF r, of cid] by simp
qed

lemma do_alloc_remote_others: "do_alloc_remote_mem env l s = Respond l' s' \<Longrightarrow> others_kept cid (fst s) (fst s')"
  unfolding do_alloc_remote_mem_def Let_def by (erule resolving_others) (rule world_call_state)

lemma do_query_port_others: "do_query_port env l s = Respond l' s' \<Longrightarrow> others_kept cid (fst s) (fst s')"
  unfolding do_query_port_def Let_def by (erule resolving_others) (rule world_call_state)

lemma do_send_reply_others: "do_send_reply_imm_fast env l s = Respond l' s' \<Longrightarrow> others_kept cid (fst s) (fst s')"
  unfolding do_send_reply_imm_fast_def Let_def
  by (erule resolving_others) (auto simp: answer_Respond split: option.splits)

lemma do_receive_state: "do_receive_message_fast env l s = Respond l' s' \<Longrightarrow> fst s' = fst s"
  by (auto simp: do_receive_message_fast_def answer_Respond Let_def split: option.splits prod.splits)

lemma do_alloc_local_state: "do_alloc_local_mem env l s = Respond l' s' \<Longrightarrow> fst s' = fst s"
  by (auto simp: do_alloc_local_mem_def answer_Respond split: option.splits prod.splits)

lemma router_dispatch_others:
  assumes "router_dispatch env l s = Respond l' s'"
  shows "others_kept (rl_cid l) (fst s) (fst s')"
  using assms
  by (auto simp: router_dispatch_def Let_def do_get_node_id_def do_rdma_write_def do_rdma_read_def
      do_reply_message_def do_register_application_def do_dist_barrier_def do_free_local_mem_def
      split: if_splits option.splits
      dest: answer_state world_call_state do_join_others do_alloc_remote_others do_query_port_others
        do_send_reply_others do_receive_state do_alloc_local_state)

section \<open>What a connection writes\<close>

lemma router_step_others:
  fixes env :: "'w router_env"
  assumes "router_linv (locals c)" and "recv_fits 280 ev"
  defines "c' \<equiv> session_step router_fill rl_rsp (router_dispatch env) ev c"
  shows "others_kept (rl_cid (locals c)) (fst (shared c)) (fst (shared c')) \<and>
    rl_cid (locals c') = rl_cid (locals c) \<and> router_linv (locals c')"
proof (cases "status c = Serving")
  case True
  show ?thesis
  proof (cases "fst ev")
    case Recv_Error
    then show ?thesis
      using True assms(1) by (simp add: c'_def session_step_def hangup_def)
  next
    case (Recv_Data data)
    let ?l = "router_fill (locals c) data"
    have l: "router_linv ?l" "rl_cid ?l = rl_cid (locals c)"
      using assms(1,2) Recv_Data by (auto simp: router_fill_def router_linv_def recv_fits_def)
    show ?thesis
    proof (cases "router_dispatch env ?l (shared c)")
      case (Respond l' s')
      then show ?thesis
        using Recv_Data True assms(1) l router_dispatch_others [OF Respond] router_dispatch_kept [OF l(1) Respond]
        by (simp add: c'_def session_step_def hangup_def router_kept_def)
    qed (use Recv_Data True assms(1) l in \<open>simp_all add: c'_def session_step_def hangup_def\<close>)
  qed
qed (use assms in \<open>simp add: c'_def\<close>)

lemma router_run_others:
  "\<lbrakk>router_linv (locals c); list_all (recv_fits 280) evs\<rbrakk> \<Longrightarrow>
   others_kept (rl_cid (locals c)) (fst (shared c))
     (fst (shared (session_run router_fill rl_rsp (router_dispatch env) evs c)))"
proof (induction evs arbitrary: c)
  case (Cons ev evs)
  then show ?case
    using router_step_others [of c ev env] Cons.IH [of "session_step router_fill rl_rsp (router_dispatch env) ev c"]
    by (auto intro: others_kept_trans)
qed simp

text \<open>
  C8: a connection cannot touch another container. Whatever bytes arrive on the connection of
  a container \<open>cid\<close>, in whatever pieces, the numbers of all other containers of the router
  stay as they are, a number of \<open>cid\<close> itself is never changed, and no resolution that the
  router has cached is replaced.
\<close>

theorem connection_touches_own_container:
  assumes "\<not> re_no_container env" and "router_cid path = Some cid"
    and "router_thread env (Some path) s = Some c0" and "list_all (recv_fits 280) evs"
  shows "let st' = fst (shared (session_run router_fill rl_rsp (router_dispatch env) evs c0)) in
    (\<forall>c. c \<noteq> cid \<longrightarrow> cid_vid_map st' c = cid_vid_map (fst s) c) \<and>
    (\<forall>v. cid_vid_map (fst s) cid = Some v \<longrightarrow> cid_vid_map st' cid = Some v) \<and>
    (\<forall>v n. vid_nid_map_cache (fst s) v = Some n \<longrightarrow> vid_nid_map_cache st' v = Some n)"
proof -
  obtain l where l: "router_open env path = Some l" "c0 = start_conn True l s"
    using assms(3) by (auto simp: router_thread_def)
  then have "router_linv (locals c0)" and "rl_cid (locals c0) = cid" and "shared c0 = s"
    using router_open_linv [OF l(1)] assms(1,2) by (auto simp: start_conn_def open_conn_def router_open_def Let_def)
  then have "others_kept cid (fst s) (fst (shared (session_run router_fill rl_rsp (router_dispatch env) evs c0)))"
    using router_run_others [of c0 evs env] assms(4) by simp
  then show ?thesis
    by (simp add: others_kept_def)
qed

text \<open>A request of four bytes, the code of \<open>join\<close>, on a router that knows another container.\<close>

theorem connection_touches_own_container_witness:
  "\<forall>sock w. \<exists>c0. router_thread (idle_env sock) (Some ''/var/tmp/abcdef04242'')
       (routing_init\<lparr>cid_vid_map := [''/other'' \<mapsto> 7]\<rparr>, w) = Some c0 \<and>
     cid_vid_map (fst (shared (session_run router_fill rl_rsp (router_dispatch (idle_env sock))
       [(Recv_Data [2, 0, 0, 0], True)] c0))) ''/other'' = Some 7"
proof (intro allI)
  fix sock :: "'a socket_api" and w :: 'a
  let ?s = "(routing_init\<lparr>cid_vid_map := [''/other'' \<mapsto> 7]\<rparr>, w)"
  let ?c0 = "start_conn True \<lparr>rl_req = replicate 280 0, rl_rsp = replicate 24 0, rl_cid = ''/abcde''\<rparr> ?s"
  have nc: "\<not> re_no_container (idle_env sock)" and cid: "router_cid ''/var/tmp/abcdef04242'' = Some ''/abcde''"
    by (simp_all add: idle_env_def router_cid_def substr_def)
  then have t: "router_thread (idle_env sock) (Some ''/var/tmp/abcdef04242'') ?s = Some ?c0"
    by (simp add: router_thread_def router_open_def sizeofs Let_def)
  show "\<exists>c0. router_thread (idle_env sock) (Some ''/var/tmp/abcdef04242'') ?s = Some c0 \<and>
     cid_vid_map (fst (shared (session_run router_fill rl_rsp (router_dispatch (idle_env sock))
       [(Recv_Data [2, 0, 0, 0], True)] c0))) ''/other'' = Some 7"
    using connection_touches_own_container [OF nc cid t, of "[(Recv_Data [2, 0, 0, 0], True)]"] t
    by (auto simp: Let_def recv_fits_def simp del: session_run.simps)
qed

end
