(* ===== verification/Client_Threads.thy ===== *)
theory Client_Threads
  imports Remote_Calls
begin

text \<open>
  Several threads of one process call the client library, as in \<open>client/test_rpc.c\<close> and
  \<open>client/test_latency.c\<close>. They share the socket of \<open>client/lib/rpc.c\<close> without a lock, so the
  \<open>send\<close> and the \<open>recv\<close> of a call are separate steps, and the steps of the threads come in any order.
\<close>

section \<open>Orders of steps\<close>

text \<open>A thread sends the request of its call, or receives into the response object of its call.\<close>

datatype lib_op = Lib_send nat "byte list" | Lib_recv nat "byte list"

text \<open>Each thread does so in turn; \<open>B\<close> are the threads that have sent and not yet received.\<close>

fun in_order :: "nat set \<Rightarrow> lib_op list \<Rightarrow> bool" where
  "in_order B [] = True"
| "in_order B (Lib_send t req # ops) = (t \<notin> B \<and> length req = 280 \<and> in_order (insert t B) ops)"
| "in_order B (Lib_recv t buf # ops) = (t \<in> B \<and> length buf = 24 \<and> in_order (B - {t}) ops)"

text \<open>The results of the calls in the order in which they return: thread, error code, response.\<close>

fun lib_run ::
  "'w client_env \<Rightarrow> lib_op list \<Rightarrow> 'w client_shared \<Rightarrow> (nat \<times> int \<times> byte list) list \<times> 'w client_shared" where
  "lib_run env [] s = ([], s)"
| "lib_run env (Lib_send t req # ops) s =
     (case rpc_request env req s of (r, s1) \<Rightarrow>
        case lib_run env ops s1 of (outs, s2) \<Rightarrow> (if r < 0 then (t, r, []) # outs else outs, s2))"
| "lib_run env (Lib_recv t buf # ops) s =
     (case rpc_response env buf s of (r, rsp, s1) \<Rightarrow>
        case lib_run env ops s1 of (outs, s2) \<Rightarrow> ((t, r, rsp) # outs, s2))"

text \<open>Without another thread in between the two steps are the call.\<close>

lemma lib_run_alone:
  assumes "rpc_handler env req buf s = (r, rsp, s')" and "\<not> fst (rpc_request env req s) < 0"
  shows "lib_run env [Lib_send t req, Lib_recv t buf] s = ([(t, r, rsp)], s')"
  using assms by (auto simp: rpc_handler_halves split: prod.splits)

fun requests :: "lib_op list \<Rightarrow> byte list list" where
  "requests [] = []"
| "requests (Lib_send t req # ops) = req # requests ops"
| "requests (Lib_recv t buf # ops) = requests ops"

fun senders :: "lib_op list \<Rightarrow> nat list" where
  "senders [] = []"
| "senders (Lib_send t req # ops) = t # senders ops"
| "senders (Lib_recv t buf # ops) = senders ops"

fun receivers :: "lib_op list \<Rightarrow> nat list" where
  "receivers [] = []"
| "receivers (Lib_send t req # ops) = receivers ops"
| "receivers (Lib_recv t buf # ops) = t # receivers ops"

text \<open>What the router's thread answers to a sequence of requests, if it answers them all.\<close>

fun router_answers ::
  "'w router_env \<Rightarrow> byte list list \<Rightarrow> router_locals \<Rightarrow> 'w router_shared \<Rightarrow> byte list list option" where
  "router_answers renv [] l sh = Some []"
| "router_answers renv (req # reqs) l sh =
     (case router_dispatch renv (router_fill l req) sh of
        Respond l' sh' \<Rightarrow> map_option (Cons (rl_rsp l')) (router_answers renv reqs l' sh')
      | _ \<Rightarrow> None)"

section \<open>Who gets which answer\<close>

text \<open>A connection with answers that have not been read yet.\<close>

definition open_link :: "'w rlink client_shared \<Rightarrow> bool" where
  "open_link s = (client_sock (fst s) \<noteq> -1 \<and> status (sk_conn (snd s)) = Serving \<and>
     router_linv (locals (sk_conn (snd s))) \<and> sk_read (snd s) \<le> length (outbox (sk_conn (snd s))) \<and>
     (\<forall>out\<in>set (outbox (sk_conn (snd s))). length out = 24))"

definition unread :: "'w rlink \<Rightarrow> byte list list" where
  "unread l = drop (sk_read l) (outbox (sk_conn l))"

lemma request_sent:
  assumes "open_link (cs, l)" and "length req = 280"
    and "router_dispatch renv (router_fill (locals (sk_conn l)) req) (shared (sk_conn l)) = Respond l' sh'"
  obtains m where "rpc_request (on_router renv env) req (cs, l) = (0, (cs, m))" and "open_link (cs, m)"
    and "locals (sk_conn m) = l'" and "shared (sk_conn m) = sh'" and "unread m = unread l @ [rl_rsp l']"
proof -
  let ?m = "l\<lparr>sk_conn := (sk_conn l)\<lparr>locals := l', shared := sh', outbox := outbox (sk_conn l) @ [rl_rsp l']\<rparr>\<rparr>"
  have serving: "status (sk_conn l) = Serving" and linv: "router_linv (locals (sk_conn l))"
    using assms(1) by (simp_all add: open_link_def)
  have linv': "router_linv l'"
    using router_server.dispatch_linv [OF router_server.fill_linv [OF linv, of req] assms(3)] assms(2) by simp
  have send: "rpc_request (on_router renv env) req (cs, l) = (0, (cs, ?m))"
    using assms(1) router_link.session_serves [OF serving assms(2,3)]
    by (simp add: open_link_def rpc_request_def rpc_send_def on_router_def linked_def slink_api_def slink_send_def
        router_session_step_def)
  have "length (rl_rsp l') = 24"
    by (rule router_server.rsp_size [OF linv'])
  then have "open_link (cs, ?m)" and "unread ?m = unread l @ [rl_rsp l']"
    using assms(1) linv' by (auto simp: open_link_def unread_def)
  with send show thesis
    by (intro that [of ?m]) simp_all
qed

lemma response_taken:
  assumes "open_link (cs, l)" and "length buf = 24" and "unread l = out # outs"
  obtains m where "rpc_response (on_router renv env) buf (cs, l) = (0, out, (cs, m))" and "open_link (cs, m)"
    and "sk_conn m = sk_conn l" and "unread m = outs"
proof -
  let ?m = "l\<lparr>sk_read := Suc (sk_read l)\<rparr>"
  have lt: "sk_read l < length (outbox (sk_conn l))"
    using assms(3) by (cases "sk_read l < length (outbox (sk_conn l))") (simp_all add: unread_def)
  have hd: "outbox (sk_conn l) ! sk_read l = out"
    using assms(3) unfolding unread_def by (rule nth_via_drop)
  have "length out = 24"
    using assms(1) lt hd by (auto simp: open_link_def)
  then have "rpc_response (on_router renv env) buf (cs, l) = (0, out, (cs, ?m))"
    using lt hd assms(2)
    by (simp add: rpc_response_def on_router_def linked_def slink_api_def slink_recv_def sizeofs)
  moreover have "unread ?m = outs"
    using assms(3) by (simp add: unread_def drop_Suc tl_drop [symmetric])
  moreover have "open_link (cs, ?m)"
    using assms(1) lt by (simp add: open_link_def)
  ultimately show thesis
    by (intro that [of ?m]) simp_all
qed

lemma lib_run_answers:
  assumes "open_link (cs, l)" and "finite B" and "length (unread l) = card B" and "in_order B ops"
    and "router_answers renv (requests ops) (locals (sk_conn l)) (shared (sk_conn l)) = Some outs"
  shows "fst (lib_run (on_router renv env) ops (cs, l)) =
    map (\<lambda>(t, out). (t, 0, out)) (zip (receivers ops) (unread l @ outs))"
  using assms
proof (induction B ops arbitrary: l outs rule: in_order.induct)
  case (2 B t req ops)
  obtain l' sh' rest where d: "router_dispatch renv (router_fill (locals (sk_conn l)) req) (shared (sk_conn l)) = Respond l' sh'"
    and rest: "router_answers renv (requests ops) l' sh' = Some rest" and outs: "outs = rl_rsp l' # rest"
    using "2.prems"(5) by (auto split: switch_result.splits)
  obtain m where m: "rpc_request (on_router renv env) req (cs, l) = (0, (cs, m))" "open_link (cs, m)"
    "locals (sk_conn m) = l'" "shared (sk_conn m) = sh'" "unread m = unread l @ [rl_rsp l']"
    using "2.prems"(4) by (auto intro: request_sent [OF "2.prems"(1) _ d])
  show ?case
    using "2.IH" [OF m(2), of rest] "2.prems" m rest outs by (simp add: case_prod_beta)
next
  case (3 B t buf ops)
  then obtain out left where u: "unread l = out # left"
    by (cases "unread l") (auto simp: card_eq_0_iff)
  obtain m where m: "rpc_response (on_router renv env) buf (cs, l) = (0, out, (cs, m))" "open_link (cs, m)"
    "sk_conn m = sk_conn l" "unread m = left"
    using "3.prems"(4) by (auto intro: response_taken [OF "3.prems"(1) _ u])
  show ?case
    using "3.IH" [OF m(2), of outs] "3.prems" m u by (simp add: case_prod_beta)
qed simp

lemma ready_open:
  assumes "rlink_ready (cs, l)" and "\<forall>out\<in>set (outbox (sk_conn l)). length out = 24"
  shows "open_link (cs, l)" and "unread l = []"
  using assms by (simp_all add: open_link_def rlink_ready_def slink_ready_def unread_def)

text \<open>
  C13: answers go to whoever receives first. Let threads of one process call the library over a
  ready connection in any order of their steps, and let the router's thread answer all their requests.
  Then the \<open>k\<close>-th answer, in the order in which the requests were sent, is returned by the \<open>k\<close>-th
  call that receives, whichever thread that is. So all threads get their own answers only
  if they receive in the order in which they have sent, which nothing in the library ensures.
\<close>

theorem answers_in_order_of_sends:
  assumes "rlink_ready (cs, l)" and "\<forall>out\<in>set (outbox (sk_conn l)). length out = 24" and "in_order {} ops"
    and "router_answers renv (requests ops) (locals (sk_conn l)) (shared (sk_conn l)) = Some outs"
  shows "fst (lib_run (on_router renv env) ops (cs, l)) = map (\<lambda>(t, out). (t, 0, out)) (zip (receivers ops) outs)"
  using lib_run_answers [OF ready_open(1) [OF assms(1,2)] finite.emptyI _ assms(3,4), of env] ready_open(2) [OF assms(1,2)]
  by simp

text \<open>
  Thread 0 asks for its node, which is -1 before a join, and thread 1 queries port 7 of node 2, with
  result 0; thread 1 receives first.
\<close>

definition sample_query :: "byte list" where
  "sample_query = put_query_port_req \<lparr>qp_target_node = 2, qp_designed_port = 7\<rparr>
     (put_func_code FUNC_userspace_liteapi_query_port (stk_req sample_stack))"

definition sample_swap :: "lib_op list" where
  "sample_swap = [Lib_send 0 (req_get_node_id (stk_req sample_stack)), Lib_send 1 sample_query,
     Lib_recv 1 (stk_rsp sample_stack), Lib_recv 0 (stk_rsp sample_stack)]"

lemma sample_swap_answers:
  "\<exists>a b. router_answers sample_renv (requests sample_swap) (locals (sk_conn sample_link)) (shared (sk_conn sample_link)) =
     Some [a, b] \<and> get_int_rsp a = -1 \<and> get_int_rsp b = 0"
proof -
  have stk: "length (stk_req sample_stack) = 280"
    using sample_stack_ok by (simp only: stack_ok_def)
  let ?l = "locals (sk_conn sample_link)"
  have len: "length (rl_req ?l) = 280" "length (rl_rsp ?l) = 24"
    by (simp_all add: sample_link_def open_conn_def)
  have q: "length sample_query = 280" "get_func_code sample_query = FUNC_userspace_liteapi_query_port"
    "get_query_port_req sample_query = \<lparr>qp_target_node = 2, qp_designed_port = 7\<rparr>"
    using stk by (simp_all add: sample_query_def decoded)
  have n: "length (req_get_node_id (stk_req sample_stack)) = 280"
    "get_func_code (req_get_node_id (stk_req sample_stack)) = FUNC_userspace_liteapi_get_node_id"
    using stk by (simp_all add: req_get_node_id_def decoded)
  note r = sample_lookup [of sample_start]
  have k: "fst (lite_query_port sample_os 7 7 sample_start) = 0"
    by (simp add: lite_query_port_def int_syscall_def sample_os_def)
  show ?thesis
    using len n q r k
    by (simp add: sample_swap_def router_fill_full dispatch_cases do_get_node_id_def do_query_port_def world_call_def
        answer_def vcm_get_node_id_def rsp_fields Let_def case_prod_beta) (simp add: routing_init_def)
qed

theorem answers_in_order_of_sends_witness:
  "map (\<lambda>(t, r, rsp). (t, get_int_rsp rsp)) (fst (lib_run (on_router sample_renv sample_cenv) sample_swap
     (sample_client, sample_link))) = [(1, -1), (0, 0)]"
proof -
  obtain a b where "router_answers sample_renv (requests sample_swap) (locals (sk_conn sample_link))
      (shared (sk_conn sample_link)) = Some [a, b]" and "get_int_rsp a = -1" and "get_int_rsp b = 0"
    using sample_swap_answers by blast
  moreover have "in_order {} sample_swap"
    by (simp add: sample_swap_def sample_query_def sample_stack_def req_get_node_id_def decoded)
  moreover have "\<forall>out\<in>set (outbox (sk_conn sample_link)). length out = 24"
    by (simp add: sample_link_def open_conn_def)
  ultimately show ?thesis
    using answers_in_order_of_sends [OF sample_ready, of sample_swap sample_renv "[a, b]" sample_cenv]
    by (simp add: sample_swap_def)
qed

end
