(* ===== verification/Client_Facts.thy ===== *)
theory Client_Facts
  imports Samples Requests
begin

text \<open>
  The client side on its own: the socket paths by which the router tells containers apart,
  and what the stubs do when the connection fails.
\<close>

section \<open>Decimal numbers\<close>

definition dec_value :: "string \<Rightarrow> nat" where
  "dec_value s = foldl (\<lambda>a c. 10 * a + (of_char c - 48)) 0 s"

lemma of_char_digit: "of_char (digit d) = (48 + d mod 10 :: nat)"
  by (simp add: digit_def)

lemma dec_value_digits: "dec_value (dec_digits n) = n"
proof (induction n rule: dec_digits.induct)
  case (1 n)
  then show ?case
    by (subst dec_digits.simps) (auto simp: dec_value_def of_char_digit)
qed

lemma dec_value_zeros: "dec_value (replicate k (CHR ''0'') @ s) = dec_value s"
proof -
  have "foldl (\<lambda>a c. 10 * a + (of_char c - 48)) 0 (replicate k (CHR ''0'')) = (0 :: nat)"
    by (induction k) simp_all
  then show ?thesis
    by (simp add: dec_value_def)
qed

lemma fmt_05d_value: "dec_value (fmt_05d n) = n"
  by (simp add: fmt_05d_def dec_value_zeros dec_value_digits)

lemma length_dec_digits: "n < 10 ^ k \<Longrightarrow> 1 \<le> k \<Longrightarrow> length (dec_digits n) \<le> k"
proof (induction n arbitrary: k rule: dec_digits.induct)
  case (1 n)
  show ?case
  proof (cases "n < 10")
    case True
    then show ?thesis
      using "1.prems"(2) by (subst dec_digits.simps) simp
  next
    case False
    then obtain j where k: "k = Suc j" "1 \<le> j"
      using "1.prems" by (cases k; cases "k = 1") auto
    then have "n div 10 < 10 ^ j"
      using "1.prems"(1) by (simp add: less_mult_imp_div_less mult.commute)
    then show ?thesis
      using "1.IH" [OF False _ k(2)] False k(1) by (subst dec_digits.simps) simp
  qed
qed

lemma cstr_chars_exact: "CHR 0x00 \<notin> set s \<Longrightarrow> cstr_chars (s @ [CHR 0x00]) = s"
  by (induction s) (auto simp: cstr_chars_def)

lemma cstr_chars_shorter: "CHR 0x00 \<in> set s \<Longrightarrow> length (cstr_chars s) < length s"
  unfolding cstr_chars_def by (induction s) auto

section \<open>Socket paths\<close>

text \<open>
  Clients are told apart. In builds with containers, two clients whose six-character
  container ids or whose process ids differ never bind the same path.
\<close>

lemma client_path_inj:
  assumes "length cid = 6" and "length cid' = 6" and "CHR 0x00 \<notin> set cid" and "CHR 0x00 \<notin> set cid'"
    and "client_path False (cid @ [CHR 0x00]) pid = client_path False (cid' @ [CHR 0x00]) pid'"
  shows "cid = cid' \<and> pid = pid'"
proof -
  have "cid @ fmt_05d pid = cid' @ fmt_05d pid'"
    using assms by (simp add: client_path_def cstr_chars_exact)
  then have "cid = cid'" and "fmt_05d pid = fmt_05d pid'"
    using assms(1,2) by simp_all
  then show ?thesis
    using fmt_05d_value by metis
qed

text \<open>
  The path fits. For process ids below 2^22 the path has at most 22 characters, and its
  NUL fits in the 108 of \<open>sun_path\<close>.
\<close>

lemma client_path_fits:
  assumes "length cid = 7" and "CHR 0x00 \<in> set cid" and "pid < 4194304"
  shows "length (client_path nc cid pid) \<le> 22 \<and> length (client_path nc cid pid) + 1 \<le> 108"
proof -
  have "length (dec_digits pid) \<le> 7"
    using assms(3) by (intro length_dec_digits) simp_all
  then have "length (fmt_05d pid) \<le> 7"
    by (simp add: fmt_05d_def)
  moreover have "length (cstr_chars cid) < length cid"
    using assms(2) by (rule cstr_chars_shorter)
  ultimately show ?thesis
    using assms(1) by (simp add: client_path_def CLIENT_PATH_def)
qed

text \<open>
  C26: the router's container id is off by one. For a client in the container \<open>cid\<close>, the six
  characters the router takes from the path are a slash and the first five of \<open>cid\<close>, so
  containers that agree on five characters are the same to the router, although their paths
  differ.
\<close>

theorem router_cid_off_by_one:
  assumes "length cid = 6" and "CHR 0x00 \<notin> set cid" and "length cid' = 6" and "CHR 0x00 \<notin> set cid'"
    and "take 5 cid = take 5 cid'"
  shows "router_cid (client_path False (cid @ [CHR 0x00]) pid) = Some (CHR ''/'' # take 5 cid) \<and>
    router_cid (client_path False (cid' @ [CHR 0x00]) pid') = Some (CHR ''/'' # take 5 cid)"
  using assms by (simp add: router_cid_def substr_def client_path_def CLIENT_PATH_def cstr_chars_exact)

theorem router_cid_off_by_one_witness:
  "router_cid (client_path False (''abcdef'' @ [CHR 0x00]) 4242) =
   router_cid (client_path False (''abcdeX'' @ [CHR 0x00]) 17)"
  using router_cid_off_by_one [of "''abcdef''" "''abcdeX''" 4242 17] by simp

text \<open>
  C30: \<open>rpc_conn\<close> reads the container id. With \<open>/proc/1/cpuset\<close> holding a path below
  \<open>/docker/\<close> and working socket calls, the client ends up connected, with the first six
  characters of the container's name as its id, and bound to the path made of them.
\<close>

theorem rpc_conn_container:
  assumes "\<not> ce_no_container env" and "so_socket (ce_sock env) w = (fd, w1)" and "0 \<le> fd"
    and "ce_cpuset env w1 = (Some (''/docker/'' @ name), w2)" and "6 \<le> length name"
    and "so_bind (ce_sock env) fd path (so_unlink (ce_sock env) path w2) = (b, w3)" and "0 \<le> b"
    and "so_connect (ce_sock env) fd srv w3 = (c, w4)" and "0 \<le> c"
    and "path = client_path False (take 6 name @ [CHR 0x00]) (ce_pid env)"
  shows "rpc_conn env srv (cs, w) = (fd, (cs\<lparr>client_sock := fd, client_cid := take 6 name @ [CHR 0x00]\<rparr>, w4))"
proof -
  have "read_cid (''/docker/'' @ name) = (True, take 6 name @ [CHR 0x00])"
    using assms(5) by (simp add: read_cid_def)
  then show ?thesis
    using assms by (simp add: rpc_conn_def conn_cid_def Let_def)
qed

theorem rpc_conn_container_witness:
  "rpc_conn sample_cenv SERVER_PATH (client_init, sample_link) =
     (3, (\<lparr>client_sock = 3, client_cid = ''abcdef'' @ [CHR 0x00]\<rparr>, sample_link))"
proof -
  have so: "so_socket (ce_sock sample_cenv) sample_link = (3, sample_link)"
    and cp: "ce_cpuset sample_cenv sample_link = (Some (''/docker/'' @ ''abcdef0123456789''), sample_link)"
    and bd: "so_bind (ce_sock sample_cenv) 3 p (so_unlink (ce_sock sample_cenv) p sample_link) = (0, sample_link)"
    and cn: "so_connect (ce_sock sample_cenv) 3 SERVER_PATH sample_link = (0, sample_link)" for p
    by (simp_all add: sample_cenv_def slink_api_def)
  show ?thesis
    using rpc_conn_container [OF _ so _ cp _ bd _ cn _ refl, of client_init]
    by (simp add: sample_cenv_def client_init_def)
qed

section \<open>Failures\<close>

text \<open>
  C31: outside a container the client keeps a dead socket. When \<open>/proc/1/cpuset\<close> cannot be
  read as expected, the first call fails, but the unconnected descriptor stays in
  \<open>client_sock\<close>: the next call does not connect, it sends on that descriptor.
\<close>

theorem failed_conn_keeps_socket:
  assumes "client_sock cs = -1" and "so_socket (ce_sock env) w = (fd, w1)" and "0 \<le> fd"
    and "conn_cid env (cs\<lparr>client_sock := fd\<rparr>, w1) = (False, (cs1, w2))"
  shows "rpc_handler env req rsp (cs, w) = (-1, rsp, (cs1, w2)) \<and> client_sock cs1 = fd \<and>
    rpc_handler env req2 rsp2 (cs1, w2) = rpc_exchange env req2 rsp2 (cs1, w2)"
proof -
  have "client_sock cs1 = fd"
    using assms(4) by (auto simp: conn_cid_def split: if_splits prod.splits option.splits)
  then show ?thesis
    using assms by (simp add: rpc_handler_def rpc_conn_def Let_def)
qed

theorem failed_conn_keeps_socket_witness:
  "let env = sample_cenv\<lparr>ce_cpuset := (\<lambda>w. (Some ''/'', w))\<rparr> in
   \<exists>cs1. rpc_handler env [] [1] (client_init, sample_link) = (-1, [1], (cs1, sample_link)) \<and>
     client_sock cs1 = 3 \<and> rpc_handler env [2] [3] (cs1, sample_link) = rpc_exchange env [2] [3] (cs1, sample_link)"
proof -
  let ?env = "sample_cenv\<lparr>ce_cpuset := (\<lambda>w. (Some ''/'', w))\<rparr>"
  have so: "so_socket (ce_sock ?env) sample_link = (3, sample_link)"
    by (simp add: sample_cenv_def slink_api_def)
  have cid: "conn_cid ?env (client_init\<lparr>client_sock := 3\<rparr>, sample_link) =
      (False, (client_init\<lparr>client_sock := 3, client_cid := replicate 7 (CHR 0x00)\<rparr>, sample_link))"
    by (simp add: conn_cid_def sample_cenv_def read_cid_def)
  show ?thesis
    using failed_conn_keeps_socket [OF _ so _ cid, of "[]" "[1]" "[2]" "[3]"] by (simp add: client_init_def Let_def)
qed

text \<open>
  A failed call returns what was on the stack. When \<open>rpc_handler\<close> fails, the stubs
  ignore it and return the uninitialised response object: the result is the four bytes that
  the object's place on the stack held before.
\<close>

lemma failed_call_returns_garbage:
  assumes "rpc_handler env req rsp s = (r, rsp', s')" and "r < 0"
  shows "call_int env req rsp s = (get_int_rsp rsp, s')"
proof -
  have "rsp' = rsp"
    using assms by (auto simp: rpc_handler_def rpc_exchange_def split: if_splits prod.splits recv_result.splits)
  then show ?thesis
    using assms(1) by (simp add: call_int_def)
qed

text \<open>
  A failed \<open>mmap\<close> is reported as success. When the router has allocated the object and
  the client's \<open>mmap\<close> returns \<open>MAP_FAILED\<close>, \<open>alloc_local_mem\<close> stores \<open>MAP_FAILED\<close> as the local
  address and returns the router's result, which is not negative: the test looks at the
  address of the caller's variable.
\<close>

lemma mmap_failure_unnoticed:
  assumes "local_addr \<noteq> MAP_FAILED" and "0 \<le> sint (get_int_rsp rsp)"
    and "sh_open (ce_shm env) nm False (snd s) = (fd, w1)" and "0 \<le> fd"
    and "sh_mmap (ce_shm env) sz fd w1 = (MAP_FAILED, w2)"
  shows "\<exists>out. alloc_local_mem_tail env nm sz local_addr rsp s = (out, (fst s, w2)) \<and>
    ao_local out = Some MAP_FAILED \<and> ao_ret out = get_int_rsp rsp \<and> 0 \<le> sint (ao_ret out)"
  using assms by (simp add: alloc_local_mem_tail_def)

section \<open>The request of join\<close>

text \<open>
  C29: what the router reads from a join. An address of up to 16 bytes arrives padded with
  NUL bytes, next to the two ports. One of 20 bytes or more runs over \<open>eth_port\<close>: the
  \<open>strncpy\<close> is bounded by the length of its source, so the port that arrives is made of the
  bytes 16 to 19 of the address.
\<close>

theorem join_request_on_the_wire:
  assumes "length stk = 280" and "length input_str \<le> 272"
    and "req_join input_str eth ib stk = Some req"
  shows "(length input_str \<le> 16 \<longrightarrow> get_join_req req =
      \<lparr>jo_input_str = input_str @ replicate (16 - length input_str) 0, jo_eth_port = eth, jo_ib_port = ib\<rparr>) \<and>
    (20 \<le> length input_str \<longrightarrow> jo_eth_port (get_join_req req) = word_of_nat (le_nat (chunk 16 4 input_str)))"
  using req_join_decodes [OF assms(1) _ assms(3)] req_join_overflow [OF assms(1) _ assms(2), of eth ib] assms(3)
  by auto

theorem join_request_on_the_wire_witness:
  "\<exists>req. req_join (replicate 20 0x31) 18500 1 (replicate 280 0) = Some req \<and>
    jo_eth_port (get_join_req req) = 0x31313131"
proof -
  obtain req where req: "req_join (replicate 20 0x31) 18500 1 (replicate 280 0) = Some req"
    using req_join_overflow [of "replicate 280 0" "replicate 20 0x31" 18500 1] by auto
  have "replicate 4 (0x31 :: byte) = [0x31, 0x31, 0x31, 0x31]"
    by (simp add: numeral_eq_Suc)
  then have "word_of_nat (le_nat (chunk 16 4 (replicate 20 0x31))) = (0x31313131 :: c_int)"
    by (simp add: chunk_def)
  then show ?thesis
    using join_request_on_the_wire [OF _ _ req] req by simp
qed

end
