(* ===== verification/Worlds.thy ===== *)
theory Worlds
  imports Remote_Calls Client_Facts
begin

text \<open>
  Putting the parts together: operations that act on one half of a pair of worlds (the
  router's connection to the vcm and its kernel), and a client process that connects on its
  first call (\<open>dial_api\<close>): \<open>rpc_handler\<close> finds no socket, \<open>rpc_conn\<close> reads the container id and
  binds the path, and the router starts a thread for the path it sees. After that, the
  process is a client on the link of \<open>Rpc_Link\<close>.
\<close>

section \<open>Operations on one half of a world\<close>

definition with_fst :: "('a \<Rightarrow> 'r \<times> 'a) \<Rightarrow> 'a \<times> 'b \<Rightarrow> 'r \<times> 'a \<times> 'b" where
  "with_fst f p = (case f (fst p) of (r, a) \<Rightarrow> (r, (a, snd p)))"

definition with_snd :: "('b \<Rightarrow> 'r \<times> 'b) \<Rightarrow> 'a \<times> 'b \<Rightarrow> 'r \<times> 'a \<times> 'b" where
  "with_snd f p = (case f (snd p) of (r, b) \<Rightarrow> (r, (fst p, b)))"

definition sock_fst :: "'a socket_api \<Rightarrow> ('a \<times> 'b) socket_api" where
  "sock_fst api = \<lparr>so_socket = with_fst (so_socket api),
     so_unlink = (\<lambda>n p. (so_unlink api n (fst p), snd p)),
     so_bind = (\<lambda>fd n. with_fst (so_bind api fd n)),
     so_connect = (\<lambda>fd n. with_fst (so_connect api fd n)), so_inet_pton = so_inet_pton api,
     so_send = (\<lambda>fd d. with_fst (so_send api fd d)), so_recv = (\<lambda>fd n. with_fst (so_recv api fd n)),
     so_close = (\<lambda>fd p. (so_close api fd (fst p), snd p))\<rparr>"

definition os_snd :: "'b lite_os \<Rightarrow> ('a \<times> 'b) lite_os" where
  "os_snd os = \<lparr>os_syscall = (\<lambda>nr args. with_snd (os_syscall os nr args)),
     os_load64 = (\<lambda>a. with_snd (os_load64 os a)), os_store64 = (\<lambda>a v p. (fst p, os_store64 os a v (snd p))),
     os_store32 = (\<lambda>a v p. (fst p, os_store32 os a v (snd p))), os_load32 = (\<lambda>a. with_snd (os_load32 os a)),
     os_usleep = (\<lambda>p. (fst p, os_usleep os (snd p))), os_open_lite_mmap = with_snd (os_open_lite_mmap os),
     os_mmap_private = (\<lambda>n fd. with_snd (os_mmap_private os n fd))\<rparr>"

definition shm_snd :: "'b shm_api \<Rightarrow> ('a \<times> 'b) shm_api" where
  "shm_snd api = \<lparr>sh_open = (\<lambda>n c. with_snd (sh_open api n c)),
     sh_ftruncate = (\<lambda>fd n. with_snd (sh_ftruncate api fd n)), sh_mmap = (\<lambda>n fd. with_snd (sh_mmap api n fd)),
     sh_munmap = (\<lambda>a n. with_snd (sh_munmap api a n)), sh_unlink = (\<lambda>n. with_snd (sh_unlink api n))\<rparr>"

definition shm_fst :: "'a shm_api \<Rightarrow> ('a \<times> 'b) shm_api" where
  "shm_fst api = \<lparr>sh_open = (\<lambda>n c. with_fst (sh_open api n c)),
     sh_ftruncate = (\<lambda>fd n. with_fst (sh_ftruncate api fd n)), sh_mmap = (\<lambda>n fd. with_fst (sh_mmap api n fd)),
     sh_munmap = (\<lambda>a n. with_fst (sh_munmap api a n)), sh_unlink = (\<lambda>n. with_fst (sh_unlink api n))\<rparr>"

lemma vcm_handler_fst:
  "vcm_handler (sock_fst api) msg st (a, b) =
     (case vcm_handler api msg st a of (r, m, st', a') \<Rightarrow> (r, m, st', (a', b)))"
  by (simp add: vcm_handler_def vcm_disconn_def sock_fst_def with_fst_def split: prod.split recv_result.split)

lemma vcm_join_fst:
  "vcm_join (sock_fst api) nid cid st (a, b) =
     (case vcm_join api nid cid st a of (v, st', a') \<Rightarrow> (v, st', (a', b)))"
  by (simp add: vcm_join_def vcm_handler_fst Let_def split: prod.split option.split)

lemma vcm_vid_nid_fst:
  "vcm_vid_nid (sock_fst api) v st (a, b) =
     (case vcm_vid_nid api v st a of (n, st', a') \<Rightarrow> (n, st', (a', b)))"
  by (simp add: vcm_vid_nid_def vcm_handler_fst split: prod.split option.split)

lemma int_syscall_snd [simp]: "int_syscall (os_snd os) nr args = with_snd (int_syscall os nr args)"
  by (simp add: fun_eq_iff int_syscall_def os_snd_def with_snd_def split: prod.split)

text \<open>The wrappers that make one system call act on the kernel's half alone.\<close>

lemma wrappers_snd:
  "lite_rdma_write (os_snd os) h ad sz off pw = with_snd (lite_rdma_write os h ad sz off pw)"
  "lite_rdma_read (os_snd os) h ad sz off pw = with_snd (lite_rdma_read os h ad sz off pw)"
  "lite_dist_barrier (os_snd os) num = with_snd (lite_dist_barrier os num)"
  "lite_alloc_remote_mem (os_snd os) n sz fl pw = with_snd (lite_alloc_remote_mem os n sz fl pw)"
  "lite_query_port (os_snd os) n port = with_snd (lite_query_port os n port)"
  "lite_reply_message (os_snd os) ad sz d = with_snd (lite_reply_message os ad sz d)"
  "lite_register_application (os_snd os) port mx mu nm len = with_snd (lite_register_application os port mx mu nm len)"
  by (simp_all add: lite_register_application_def lite_rdma_write_def lite_rdma_read_def lite_dist_barrier_def lite_alloc_remote_mem_def
      lite_query_port_def lite_reply_message_def reply_message_call_def fun_eq_iff with_snd_def)

lemma alloc_shm_mem_snd:
  "alloc_shm_mem (shm_snd api) nm sz (a, b) =
     (case alloc_shm_mem api nm sz b of (r, addr, b') \<Rightarrow> (r, addr, (a, b')))"
  by (simp add: alloc_shm_mem_def open_or_create_def shm_snd_def with_snd_def split: prod.split)

lemma free_shm_mem_snd: "free_shm_mem (shm_snd api) nm sz addr = with_snd (free_shm_mem api nm sz addr)"
  by (simp add: fun_eq_iff free_shm_mem_def shm_snd_def with_snd_def split: prod.split)

section \<open>A process that connects on its first call\<close>

record process =
  pr_cpuset :: string
  pr_pid :: nat

text \<open>The path of a container below \<open>/proc/1/cpuset\<close> has its fourteen characters and no NUL.\<close>

definition proc_ok :: "process \<Rightarrow> bool" where
  "proc_ok pr = (14 \<le> length (pr_cpuset pr) \<and> CHR 0x00 \<notin> set (pr_cpuset pr))"

definition proc_cid :: "process \<Rightarrow> string" where
  "proc_cid pr = take 6 (drop 8 (pr_cpuset pr))"

text \<open>What the router takes for the container id: a slash and five of the six characters.\<close>

definition proc_ident :: "process \<Rightarrow> string" where
  "proc_ident pr = CHR ''/'' # take 5 (drop 8 (pr_cpuset pr))"

definition proc_path :: "process \<Rightarrow> string" where
  "proc_path pr = client_path False (proc_cid pr @ [CHR 0x00]) (pr_pid pr)"

text \<open>
  The client's socket: its name is kept where \<open>bind\<close> puts it, and \<open>connect\<close> makes the router
  start a thread for a peer of this name.
\<close>

type_synonym 'w dialed = "'w rlink \<times> string"

definition dial_link :: "'w router_env \<Rightarrow> string \<Rightarrow> 'w rlink \<Rightarrow> 'w rlink" where
  "dial_link renv path l =
     (case router_thread renv (Some path) (shared (sk_conn l)) of
        None \<Rightarrow> l
      | Some c \<Rightarrow> \<lparr>sk_conn = c, sk_read = 0\<rparr>)"

definition dial_api :: "'w router_env \<Rightarrow> 'w dialed socket_api" where
  "dial_api renv = (sock_fst (slink_api (router_session_step renv)))
     \<lparr>so_bind := (\<lambda>_ path p. (0, (fst p, path))),
      so_connect := (\<lambda>_ _ p. (0, (dial_link renv (snd p) (fst p), snd p)))\<rparr>"

definition proc_env :: "'w router_env \<Rightarrow> 'w rlink shm_api \<Rightarrow> process \<Rightarrow> 'w dialed client_env" where
  "proc_env renv shm pr = \<lparr>ce_sock = dial_api renv, ce_shm = shm_fst shm,
     ce_cpuset = (\<lambda>w. (Some (pr_cpuset pr), w)), ce_pid = pr_pid pr, ce_no_container = False\<rparr>"

text \<open>The state of a process once it is connected.\<close>

definition proc_conn ::
  "'w router_env \<Rightarrow> process \<Rightarrow> client_state \<times> 'w dialed \<Rightarrow> client_state \<times> 'w dialed" where
  "proc_conn renv pr s =
     (if client_sock (fst s) = -1
      then (\<lparr>client_sock = 3, client_cid = proc_cid pr @ [CHR 0x00]\<rparr>,
            (dial_link renv (proc_path pr) (fst (snd s)), proc_path pr))
      else s)"

lemma rpc_conn_dials:
  assumes "proc_ok pr"
  shows "rpc_conn (proc_env renv shm pr) SERVER_PATH (cs, (l, p)) =
    (3, (\<lparr>client_sock = 3, client_cid = proc_cid pr @ [CHR 0x00]\<rparr>,
         (dial_link renv (proc_path pr) l, proc_path pr)))"
proof -
  have "read_cid (pr_cpuset pr) = (True, proc_cid pr @ [CHR 0x00])"
    using assms by (auto simp: read_cid_def proc_ok_def proc_cid_def Let_def min_absorb2)
  then show ?thesis
    by (simp add: rpc_conn_def conn_cid_def proc_env_def dial_api_def sock_fst_def with_fst_def slink_api_def
        proc_path_def Let_def)
qed

lemma rpc_exchange_dialed:
  "rpc_exchange (proc_env renv shm pr) req buf (cs, (l, p)) =
     (case rpc_exchange (on_router renv env) req buf (cs, l) of (r, out, (cs', l')) \<Rightarrow> (r, out, (cs', (l', p))))"
  by (simp add: rpc_exchange_def rpc_disconn_def proc_env_def dial_api_def sock_fst_def with_fst_def on_router_def
      linked_def split: prod.split recv_result.split)

text \<open>A call of a process is the call of the connected client.\<close>

lemma rpc_handler_dialed:
  assumes "proc_ok pr" and "proc_conn renv pr s = (cs, (l, p))"
  shows "rpc_handler (proc_env renv shm pr) req buf s =
     (case rpc_handler (on_router renv env) req buf (cs, l) of (r, out, (cs', l')) \<Rightarrow> (r, out, (cs', (l', p))))"
proof (cases "client_sock (fst s) = -1")
  case True
  obtain cs0 l0 p0 where s: "s = (cs0, (l0, p0))"
    by (metis prod.exhaust)
  have "client_sock cs \<noteq> -1"
    using assms(2) True by (auto simp: proc_conn_def)
  then show ?thesis
    using assms(2) True rpc_exchange_dialed [of renv shm pr req buf cs l p env]
    by (auto simp: s rpc_handler_def rpc_conn_dials [OF assms(1)] proc_conn_def)
next
  case False
  then have "s = (cs, (l, p))"
    using assms(2) by (simp add: proc_conn_def)
  then show ?thesis
    using False by (simp add: rpc_handler_def rpc_exchange_dialed)
qed

text \<open>The thread the router starts for a process, and the container it takes it for.\<close>

lemma dial_ready:
  assumes "proc_ok pr" and "\<not> re_no_container renv"
  shows "rlink_ready (\<lparr>client_sock = 3, client_cid = proc_cid pr @ [CHR 0x00]\<rparr>, dial_link renv (proc_path pr) l)"
    and "rl_cid (locals (sk_conn (dial_link renv (proc_path pr) l))) = proc_ident pr"
    and "shared (sk_conn (dial_link renv (proc_path pr) l)) = shared (sk_conn l)"
proof -
  have nul: "CHR 0x00 \<notin> set (proc_cid pr)"
    using assms(1) by (auto simp: proc_ok_def proc_cid_def dest: in_set_takeD in_set_dropD)
  have "length (proc_cid pr) = 6"
    using assms(1) by (auto simp: proc_ok_def proc_cid_def min_absorb2)
  then have "router_cid (proc_path pr) = Some (proc_ident pr)"
    using nul by (simp add: router_cid_def substr_def proc_path_def client_path_def CLIENT_PATH_def
        cstr_chars_exact proc_ident_def proc_cid_def take_drop)
  then have "router_thread renv (Some (proc_path pr)) s = Some (open_conn
      \<lparr>rl_req = replicate 280 0, rl_rsp = replicate 24 0, rl_cid = proc_ident pr\<rparr> s)" for s
    using assms(2) by (simp add: router_thread_def router_open_def start_conn_def sizeofs Let_def)
  then show "rlink_ready (\<lparr>client_sock = 3, client_cid = proc_cid pr @ [CHR 0x00]\<rparr>, dial_link renv (proc_path pr) l)"
    and "rl_cid (locals (sk_conn (dial_link renv (proc_path pr) l))) = proc_ident pr"
    and "shared (sk_conn (dial_link renv (proc_path pr) l)) = shared (sk_conn l)"
    by (simp_all add: dial_link_def rlink_ready_def slink_ready_def router_linv_def open_conn_def)
qed

end
