(* ===== verification/Vcm.thy ===== *)
theory Vcm
  imports Wire Server_Loop
begin

text \<open>
  The virtual cluster manager, \<open>vcm/vcm.cpp\<close>: it numbers virtual nodes and remembers on
  which physical node each of them lives. The state is the counter \<open>vid\<close> and the map
  \<open>vid_nid_map\<close>; its operations are \<open>get_new_vid\<close> and \<open>get_nid_by_vid\<close>; the switch of
  \<open>server_accept_request\<close> is \<open>vcm_dispatch\<close>. The abstract view of the state is the list
  of the nodes registered so far: the virtual node \<open>k\<close> is its \<open>k\<close>-th entry.
\<close>

section \<open>State and operations\<close>

record vcm_state =
  vcm_vid :: c_int
  vid_nid_map :: "c_int \<rightharpoonup> c_int"

definition vcm_init :: vcm_state where
  "vcm_init = \<lparr>vcm_vid = 0, vid_nid_map = Map.empty\<rparr>"

definition get_new_vid :: "c_int \<Rightarrow> vcm_state \<Rightarrow> c_int \<times> vcm_state" where
  "get_new_vid nid st =
     (let v = vcm_vid st + 1
      in (v, st\<lparr>vcm_vid := v, vid_nid_map := umap_insert v nid (vid_nid_map st)\<rparr>))"

definition get_nid_by_vid :: "c_int \<Rightarrow> vcm_state \<Rightarrow> c_int" where
  "get_nid_by_vid v st = (case vid_nid_map st v of None \<Rightarrow> -1 | Some nid \<Rightarrow> nid)"

text \<open>The switch on \<open>msg.func_code\<close>: the answer is written over \<open>msg.id\<close>.\<close>

definition vcm_dispatch :: "byte list \<Rightarrow> vcm_state \<Rightarrow> (byte list, vcm_state) switch_result" where
  "vcm_dispatch msg st =
     (if vm_func_code (decode_vcm_msg msg) = VID_NID
      then Respond (put32 4 (get_nid_by_vid (vm_id (decode_vcm_msg msg)) st) msg) st
      else if vm_func_code (decode_vcm_msg msg) = NID_VID
      then (case get_new_vid (vm_id (decode_vcm_msg msg)) st of
              (v, st') \<Rightarrow> Respond (put32 4 v msg) st')
      else Unknown_Code)"

definition vcm_fill :: "byte list \<Rightarrow> byte list \<Rightarrow> byte list" where
  "vcm_fill msg data = recv_into data msg"

definition vcm_rsp :: "byte list \<Rightarrow> byte list" where
  "vcm_rsp msg = msg"

text \<open>One turn of the loop of \<open>server_accept_request\<close>, and the connection at its start.\<close>

definition vcm_session_step ::
  "session_event \<Rightarrow> (byte list, vcm_state) conn \<Rightarrow> (byte list, vcm_state) conn" where
  "vcm_session_step = session_step vcm_fill vcm_rsp vcm_dispatch"

definition vcm_open :: "vcm_state \<Rightarrow> (byte list, vcm_state) conn" where
  "vcm_open st = open_conn (replicate sizeof_vcm_msg 0) st"

definition vcm_thread :: "bool \<Rightarrow> vcm_state \<Rightarrow> (byte list, vcm_state) conn" where
  "vcm_thread peer_ok st = start_conn peer_ok (replicate sizeof_vcm_msg 0) st"

lemma decode_put_id [simp]:
  "length msg = 8 \<Longrightarrow> decode_vcm_msg (put32 4 v msg) = \<lparr>vm_func_code = get32 0 msg, vm_id = v\<rparr>"
  by (simp add: decode_vcm_msg_def layout_simps)

lemma vcm_dispatch_length:
  "length msg = 8 \<Longrightarrow> vcm_dispatch msg st = Respond msg' st' \<Longrightarrow> length msg' = 8"
  by (auto simp: vcm_dispatch_def layout_simps split: if_splits prod.splits)

interpretation vcm_server: session_server vcm_fill vcm_rsp vcm_dispatch "\<lambda>msg. length msg = 8" 8 8
  by unfold_locales (auto simp: vcm_fill_def vcm_rsp_def intro: vcm_dispatch_length)

section \<open>The registry invariant\<close>

definition vcm_inv :: "vcm_state \<Rightarrow> bool" where
  "vcm_inv st = (unat (vcm_vid st) < 2 ^ 31 \<and>
     (\<forall>k. vid_nid_map st k \<noteq> None \<longleftrightarrow> 1 \<le> unat k \<and> unat k \<le> unat (vcm_vid st)))"

text \<open>One more identifier can be issued before \<open>++vid\<close> leaves the range of \<open>int\<close>.\<close>

definition vcm_room :: "vcm_state \<Rightarrow> bool" where
  "vcm_room st = (Suc (unat (vcm_vid st)) < 2 ^ 31)"

lemma vcm_inv_init [simp]: "vcm_inv vcm_init"
  by (auto simp: vcm_inv_def vcm_init_def)

lemma vcm_room_unat: "vcm_room st \<Longrightarrow> unat (vcm_vid st + 1) = Suc (unat (vcm_vid st))"
  by (simp add: vcm_room_def unat_word_ariths)

lemma vcm_next_fresh: "\<lbrakk>vcm_inv st; vcm_room st\<rbrakk> \<Longrightarrow> vid_nid_map st (vcm_vid st + 1) = None"
  by (metis vcm_inv_def vcm_room_unat not_less_eq_eq order_refl)

lemma get_new_vid_eq:
  "\<lbrakk>vcm_inv st; vcm_room st\<rbrakk> \<Longrightarrow> get_new_vid nid st =
     (vcm_vid st + 1, \<lparr>vcm_vid = vcm_vid st + 1, vid_nid_map = (vid_nid_map st)(vcm_vid st + 1 \<mapsto> nid)\<rparr>)"
  using vcm_next_fresh [of st] by (cases st) (simp add: get_new_vid_def Let_def)

lemma get_new_vid_inv:
  assumes "vcm_inv st" and "vcm_room st" and "get_new_vid nid st = (v, st')"
  shows "vcm_inv st'"
proof -
  have "unat k \<le> Suc (unat (vcm_vid st)) \<longleftrightarrow> unat k \<le> unat (vcm_vid st) \<or> k = vcm_vid st + 1" for k
    using vcm_room_unat [OF assms(2)] by (metis le_Suc_eq word_unat_eq_iff)
  then show ?thesis
    using assms vcm_room_unat [OF assms(2)]
    by (auto simp: get_new_vid_eq vcm_inv_def vcm_room_def split: if_splits)
qed

lemma get_new_vid_lookup:
  assumes "vcm_inv st" and "vcm_room st" and "get_new_vid nid st = (v, st')"
  shows "get_nid_by_vid k st' = (if k = v then nid else get_nid_by_vid k st)"
    and "vid_nid_map st v = None"
    and "vid_nid_map st' = (vid_nid_map st)(v \<mapsto> nid)"
  using assms vcm_next_fresh [OF assms(1,2)] by (auto simp: get_new_vid_eq get_nid_by_vid_def)

lemma get_new_vid_counter:
  assumes "vcm_inv st" and "vcm_room st" and "get_new_vid nid st = (v, st')"
  shows "vcm_vid st' = v" and "unat v = Suc (unat (vcm_vid st))"
  using assms vcm_room_unat [OF assms(2)] by (auto simp: get_new_vid_eq)

section \<open>Refinement to the list of registered nodes\<close>

definition vcm_abs :: "vcm_state \<Rightarrow> c_int list" where
  "vcm_abs st = map (\<lambda>i. get_nid_by_vid (word_of_nat (Suc i)) st) [0..<unat (vcm_vid st)]"

definition spec_register :: "c_int \<Rightarrow> c_int list \<Rightarrow> nat \<times> c_int list" where
  "spec_register nid ns = (Suc (length ns), ns @ [nid])"

definition spec_resolve :: "nat \<Rightarrow> c_int list \<Rightarrow> c_int" where
  "spec_resolve k ns = (if 1 \<le> k \<and> k \<le> length ns then ns ! (k - 1) else -1)"

lemma length_vcm_abs [simp]: "length (vcm_abs st) = unat (vcm_vid st)"
  by (simp add: vcm_abs_def)

lemma get_nid_by_vid_refines:
  assumes "vcm_inv st"
  shows "get_nid_by_vid k st = spec_resolve (unat k) (vcm_abs st)"
proof (cases "1 \<le> unat k \<and> unat k \<le> unat (vcm_vid st)")
  case True
  then have "Suc (unat k - 1) = unat k" and "unat k - 1 < unat (vcm_vid st)"
    by auto
  then show ?thesis
    using True by (simp add: spec_resolve_def vcm_abs_def del: One_nat_def)
next
  case False
  then have "vid_nid_map st k = None"
    using assms unfolding vcm_inv_def by blast
  then show ?thesis
    using False by (auto simp: spec_resolve_def get_nid_by_vid_def)
qed

lemma get_new_vid_abs:
  assumes "vcm_inv st" and "vcm_room st" and "get_new_vid nid st = (v, st')"
  shows "(unat v, vcm_abs st') = spec_register nid (vcm_abs st)"
proof -
  have v: "v = vcm_vid st + 1" "vcm_vid st' = v" "unat v = Suc (unat (vcm_vid st))"
    using assms vcm_room_unat [OF assms(2)] by (auto simp: get_new_vid_eq)
  have "word_of_nat (Suc i) \<noteq> v" if "i < unat (vcm_vid st)" for i
  proof -
    have "Suc i < 2 ^ 32"
      using that unat_c_int_less [of "vcm_vid st"] by simp
    then have "unat (word_of_nat (Suc i) :: c_int) = Suc i"
      by (simp add: unat_of_nat del: of_nat_Suc)
    with that v(3) show ?thesis
      by (auto simp del: of_nat_Suc)
  qed
  moreover have "word_of_nat (Suc (unat (vcm_vid st))) = v"
    using v(1) by simp
  ultimately have "vcm_abs st' = vcm_abs st @ [nid]"
    using v get_new_vid_lookup(1) [OF assms]
    by (simp add: vcm_abs_def del: of_nat_Suc)
  with v(3) show ?thesis
    by (simp add: spec_register_def)
qed

section \<open>Many routers: identifiers are issued once\<close>

definition vcm_net_run ::
  "(nat \<times> session_event) list \<Rightarrow> (byte list, vcm_state) net \<Rightarrow> (byte list, vcm_state) net" where
  "vcm_net_run = net_run vcm_fill vcm_rsp vcm_dispatch"

definition vcm_net_init :: "(byte list, vcm_state) net" where
  "vcm_net_init = open_net (replicate sizeof_vcm_msg 0) vcm_init"

text \<open>The identifiers a connection has been given: the answers to its \<open>NID_VID\<close> requests.\<close>

definition issued :: "('l, 's) conn \<Rightarrow> c_int list" where
  "issued c = map vm_id (filter (\<lambda>m. vm_func_code m = NID_VID) (map decode_vcm_msg (outbox c)))"

definition vcm_net_inv :: "(byte list, vcm_state) net \<Rightarrow> bool" where
  "vcm_net_inv n = (vcm_inv (net_shared n) \<and>
     (\<forall>i. length (locals (net_conns n i)) = 8 \<and> distinct (issued (net_conns n i)) \<and>
          (\<forall>v\<in>set (issued (net_conns n i)). unat v \<le> unat (vcm_vid (net_shared n)))) \<and>
     (\<forall>i j. i \<noteq> j \<longrightarrow> set (issued (net_conns n i)) \<inter> set (issued (net_conns n j)) = {}))"

lemma vcm_session_step_effect:
  assumes "length (locals c) = 8" and "recv_fits 8 ev"
  defines "c' \<equiv> session_step vcm_fill vcm_rsp vcm_dispatch ev c"
  shows "length (locals c') = 8 \<and>
    (shared c' = shared c \<and> issued c' = issued c \<or>
     (\<exists>nid v. get_new_vid nid (shared c) = (v, shared c') \<and>
        (issued c' = issued c @ [v] \<or> issued c' = issued c)))"
proof (cases "status c = Serving")
  case True
  show ?thesis
  proof (cases "fst ev")
    case Recv_Error
    then show ?thesis
      using assms(1) True by (simp add: c'_def session_step_def hangup_def issued_def)
  next
    case (Recv_Data data)
    define msg where "msg = vcm_fill (locals c) data"
    have len: "length msg = 8"
      using assms(1,2) Recv_Data by (simp add: msg_def vcm_fill_def recv_fits_def)
    have fc: "get32 0 msg = vm_func_code (decode_vcm_msg msg)"
      by (simp add: decode_vcm_msg_def)
    show ?thesis
      using Recv_Data True assms(1) len fc
      by (auto simp: c'_def session_step_def hangup_def issued_def vcm_dispatch_def vcm_rsp_def
          VID_NID_def NID_VID_def layout_simps simp flip: msg_def split: prod.splits)
  qed
qed (use assms in \<open>simp add: c'_def\<close>)

lemma vcm_net_inv_issue:
  assumes inv: "vcm_net_inv n" and st': "vcm_inv st'" "vcm_vid st' = v"
    and v: "unat v = Suc (unat (vcm_vid (net_shared n)))"
    and c: "length (locals c) = 8"
      "issued c = issued (net_conns n i) @ [v] \<or> issued c = issued (net_conns n i)"
  shows "vcm_net_inv (n\<lparr>net_shared := st', net_conns := (net_conns n)(i := c)\<rparr>)"
proof -
  have below: "unat w \<le> unat v \<and> w \<noteq> v" if "w \<in> set (issued (net_conns n j))" for w j
  proof -
    have "unat w \<le> unat (vcm_vid (net_shared n))"
      using inv that by (simp add: vcm_net_inv_def)
    then show ?thesis
      using v by auto
  qed
  have disj: "\<And>j k. j \<noteq> k \<Longrightarrow> set (issued (net_conns n j)) \<inter> set (issued (net_conns n k)) = {}"
    and dist: "\<And>j. length (locals (net_conns n j)) = 8 \<and> distinct (issued (net_conns n j))"
    using inv by (simp_all add: vcm_net_inv_def)
  have sub: "set (issued c) \<subseteq> insert v (set (issued (net_conns n i)))"
    using c(2) by auto
  have "distinct (issued c)"
    using c(2) dist [of i] below [of v i] by auto
  moreover have "set (issued c) \<inter> set (issued (net_conns n k)) = {}" if "k \<noteq> i" for k
    using sub disj [of k i] below [of v k] that by blast
  moreover have "unat w \<le> unat v" if "w \<in> set (issued c)" for w
    using sub below [of w i] that by auto
  ultimately show ?thesis
    using st' c(1) dist disj below by (auto simp: vcm_net_inv_def)
qed

lemma vcm_net_step_inv:
  assumes inv: "vcm_net_inv n" and room: "vcm_room (net_shared n)" and fits: "recv_fits 8 (snd ie)"
  defines "n' \<equiv> net_step vcm_fill vcm_rsp vcm_dispatch ie n"
  shows "vcm_net_inv n' \<and> unat (vcm_vid (net_shared n')) \<le> Suc (unat (vcm_vid (net_shared n)))"
proof -
  let ?c = "(net_conns n (fst ie))\<lparr>shared := net_shared n\<rparr>"
  define c' where "c' = session_step vcm_fill vcm_rsp vcm_dispatch (snd ie) ?c"
  have n': "n' = n\<lparr>net_shared := shared c', net_conns := (net_conns n)(fst ie := c')\<rparr>"
    by (simp add: n'_def net_step_def Let_def c'_def)
  have iss: "issued ?c = issued (net_conns n (fst ie))"
    by (simp add: issued_def)
  have "length (locals ?c) = 8"
    using inv by (simp add: vcm_net_inv_def)
  from vcm_session_step_effect [OF this fits] have len': "length (locals c') = 8"
    and eff: "shared c' = net_shared n \<and> issued c' = issued (net_conns n (fst ie)) \<or>
      (\<exists>nid v. get_new_vid nid (net_shared n) = (v, shared c') \<and>
        (issued c' = issued (net_conns n (fst ie)) @ [v] \<or> issued c' = issued (net_conns n (fst ie))))"
    by (simp_all add: c'_def iss)
  from eff consider "shared c' = net_shared n" "issued c' = issued (net_conns n (fst ie))"
    | nid v where "get_new_vid nid (net_shared n) = (v, shared c')"
        "issued c' = issued (net_conns n (fst ie)) @ [v] \<or> issued c' = issued (net_conns n (fst ie))"
    by blast
  then show ?thesis
  proof cases
    case 1
    then show ?thesis
      using inv len' by (auto simp: vcm_net_inv_def n')
  next
    case (2 nid v)
    have inv0: "vcm_inv (net_shared n)"
      using inv by (simp add: vcm_net_inv_def)
    show ?thesis
      using vcm_net_inv_issue [OF inv get_new_vid_inv [OF inv0 room 2(1)]
          get_new_vid_counter [OF inv0 room 2(1)] len' 2(2)]
        get_new_vid_counter [OF inv0 room 2(1)]
      by (simp add: n')
  qed
qed

lemma vcm_net_run_inv:
  assumes "vcm_net_inv n" and "unat (vcm_vid (net_shared n)) + length ies < 2 ^ 31"
    and "list_all (recv_fits 8 \<circ> snd) ies"
  shows "vcm_net_inv (vcm_net_run ies n)"
  using assms
proof (induction ies arbitrary: n)
  case (Cons ie ies)
  let ?n' = "net_step vcm_fill vcm_rsp vcm_dispatch ie n"
  have "vcm_room (net_shared n)"
    using Cons.prems(2) by (simp add: vcm_room_def)
  then have "vcm_net_inv ?n'" and "unat (vcm_vid (net_shared ?n')) \<le> Suc (unat (vcm_vid (net_shared n)))"
    using vcm_net_step_inv [of n ie] Cons.prems(1,3) by simp_all
  then show ?case
    using Cons.IH [of ?n'] Cons.prems(2,3) by (simp add: vcm_net_run_def)
qed (simp add: vcm_net_run_def)

lemma vcm_net_inv_init: "vcm_net_inv vcm_net_init"
  by (simp add: vcm_net_inv_def vcm_net_init_def open_net_def open_conn_def issued_def sizeofs)

section \<open>What the vcm promises\<close>

text \<open>
  C11: the vcm implements the list of registered nodes: a registration returns the number of
  the new last entry and appends the node, and afterwards a lookup of any \<open>int\<close> is the lookup
  of that entry, -1 outside the list.
\<close>

theorem vcm_refines_registry:
  assumes "vcm_inv st" and "vcm_room st" and "get_new_vid nid st = (v, st')"
  shows "vcm_inv st' \<and> (unat v, vcm_abs st') = spec_register nid (vcm_abs st) \<and>
    (\<forall>k. get_nid_by_vid k st' = spec_resolve (unat k) (vcm_abs st'))"
  using get_new_vid_inv [OF assms] get_new_vid_abs [OF assms] get_nid_by_vid_refines by blast

theorem vcm_refines_registry_witness:
  "get_new_vid 9 vcm_init = (1, \<lparr>vcm_vid = 1, vid_nid_map = [1 \<mapsto> 9]\<rparr>) \<and>
   get_nid_by_vid 1 \<lparr>vcm_vid = 1, vid_nid_map = [1 \<mapsto> 9]\<rparr> = 9 \<and>
   get_nid_by_vid 7 \<lparr>vcm_vid = 1, vid_nid_map = [1 \<mapsto> 9]\<rparr> = -1"
proof -
  have new: "get_new_vid 9 vcm_init = (1, \<lparr>vcm_vid = 1, vid_nid_map = [1 \<mapsto> 9]\<rparr>)"
    by (simp add: get_new_vid_def vcm_init_def)
  have "vcm_room vcm_init"
    by (simp add: vcm_room_def vcm_init_def)
  note p = vcm_refines_registry [OF vcm_inv_init this new]
  have empty: "vcm_abs vcm_init = []"
    by (simp add: vcm_abs_def vcm_init_def)
  then have "vcm_abs \<lparr>vcm_vid = 1, vid_nid_map = [1 \<mapsto> 9]\<rparr> = [9]"
    using p by (simp add: spec_register_def)
  with p new show ?thesis
    by (simp add: spec_resolve_def)
qed

text \<open>
  Virtual node ids are issued once. However the requests of any number of routers
  interleave (fewer than 2^31 events), the ids that the vcm has answered on its connections
  are pairwise distinct, on one connection and between two.
\<close>

lemma vcm_ids_issued_once:
  assumes "list_all (recv_fits 8 \<circ> snd) ies" and "length ies < 2 ^ 31"
  shows "distinct (issued (net_conns (vcm_net_run ies vcm_net_init) i)) \<and>
    (i \<noteq> j \<longrightarrow> set (issued (net_conns (vcm_net_run ies vcm_net_init) i)) \<inter>
                set (issued (net_conns (vcm_net_run ies vcm_net_init) j)) = {})"
proof -
  have "unat (vcm_vid (net_shared vcm_net_init)) = 0"
    by (simp add: vcm_net_init_def open_net_def vcm_init_def)
  then have "vcm_net_inv (vcm_net_run ies vcm_net_init)"
    using assms by (intro vcm_net_run_inv vcm_net_inv_init) simp_all
  then show ?thesis
    by (simp add: vcm_net_inv_def)
qed

text \<open>Two routers ask in turn: the first is given 1 and 3, the second 2.\<close>

definition two_routers :: "(nat \<times> session_event) list" where
  "two_routers =
     [(0, Recv_Data (encode_vcm_msg \<lparr>vm_func_code = NID_VID, vm_id = 4\<rparr>), True),
      (1, Recv_Data (encode_vcm_msg \<lparr>vm_func_code = NID_VID, vm_id = 5\<rparr>), True),
      (0, Recv_Data (encode_vcm_msg \<lparr>vm_func_code = NID_VID, vm_id = 4\<rparr>), True)]"

text \<open>
  A connection of the vcm: whatever arrives (at most the size of a message at a time),
  every answer has 8 bytes, there is at most one for each receive, and the socket is closed
  exactly once, when the thread ends.
\<close>

lemma vcm_thread_answers:
  assumes "list_all (recv_fits 8) evs"
  shows "let c = session_run vcm_fill vcm_rsp vcm_dispatch evs (vcm_thread peer_ok st) in
    (\<forall>m\<in>set (outbox c). length m = 8) \<and> length (outbox c) \<le> length evs \<and>
    closes c = (if status c = Closed then 1 else 0) \<and> status c \<noteq> Stuck"
proof -
  have "status (session_run vcm_fill vcm_rsp vcm_dispatch evs c) \<noteq> Stuck" if "status c \<noteq> Stuck"
    for c :: "(byte list, vcm_state) conn"
    using that
  proof (induction evs arbitrary: c)
    case (Cons ev evs)
    have "status (session_step vcm_fill vcm_rsp vcm_dispatch ev c) \<noteq> Stuck"
      using Cons.prems by (auto simp: session_step_def hangup_def vcm_dispatch_def
          split: recv_result.split switch_result.splits prod.splits)
    then show ?case
      using Cons.IH by simp
  qed simp
  moreover have "status (vcm_thread peer_ok st) \<noteq> Stuck"
    by (simp add: vcm_thread_def start_conn_def open_conn_def hangup_def)
  ultimately show ?thesis
    using vcm_server.answers [of "replicate sizeof_vcm_msg 0" evs peer_ok st] assms
    by (simp add: Let_def vcm_thread_def sizeofs)
qed

end
