(* ===== verification/Cluster.thy ===== *)
theory Cluster
  imports Vcm Routing
begin

text \<open>
  Routers and the vcm together. \<open>link_api\<close> are the socket calls of a router whose socket
  is connected to a thread of the vcm: what the router sends is one event of that thread's
  loop, what it receives are the answers of the thread in order. A link may lose a request
  (\<open>send\<close> fails) or an answer (\<open>recv\<close> fails). A cluster is the vcm's state and any number
  of routers with their links; the locale \<open>vid_directory\<close> is what the routers rely on, and
  proves that their maps agree with the directory.
\<close>

section \<open>The directory a router relies on\<close>

text \<open>
  The router with number \<open>i\<close> runs on the node \<open>nids i\<close>. Its containers are registered for
  its own node, no two containers of the cluster share a virtual node, and a cached
  resolution is either negative or the registered one.
\<close>

definition cids_registered ::
  "(c_int \<rightharpoonup> c_int) \<Rightarrow> (nat \<Rightarrow> c_int) \<Rightarrow> (nat \<Rightarrow> routing_state) \<Rightarrow> bool" where
  "cids_registered look nids rts =
     (\<forall>i cid v. cid_vid_map (rts i) cid = Some v \<longrightarrow> look v = Some (nids i))"

definition vids_unique :: "(nat \<Rightarrow> routing_state) \<Rightarrow> bool" where
  "vids_unique rts =
     (\<forall>i j cid cid' v. cid_vid_map (rts i) cid = Some v \<longrightarrow> cid_vid_map (rts j) cid' = Some v \<longrightarrow>
        i = j \<and> cid = cid')"

definition cache_sound :: "(c_int \<rightharpoonup> c_int) \<Rightarrow> (nat \<Rightarrow> routing_state) \<Rightarrow> bool" where
  "cache_sound look rts =
     (\<forall>i v n. vid_nid_map_cache (rts i) v = Some n \<longrightarrow> n = -1 \<or> look v = Some n)"

definition coherent ::
  "(c_int \<rightharpoonup> c_int) \<Rightarrow> (nat \<Rightarrow> c_int) \<Rightarrow> (nat \<Rightarrow> routing_state) \<Rightarrow> bool" where
  "coherent look nids rts =
     (cids_registered look nids rts \<and> vids_unique rts \<and> cache_sound look rts)"

lemmas coherent_defs = coherent_def cids_registered_def vids_unique_def cache_sound_def

lemma coherent_same_maps:
  assumes "coherent look nids rts"
    and "cid_vid_map r = cid_vid_map (rts i)" and "vid_nid_map_cache r = vid_nid_map_cache (rts i)"
  shows "coherent look nids (rts(i := r))"
proof -
  have "cid_vid_map ((rts(i := r)) j) = cid_vid_map (rts j)"
    and "vid_nid_map_cache ((rts(i := r)) j) = vid_nid_map_cache (rts j)" for j
    using assms(2,3) by simp_all
  then show ?thesis
    using assms(1) by (simp only: coherent_defs)
qed

lemma coherent_resolve:
  assumes "coherent look nids rts" and "n = (case look v of None \<Rightarrow> -1 | Some m \<Rightarrow> m)"
  shows "coherent look nids (rts(i := (rts i)\<lparr>vid_nid_map_cache := (vid_nid_map_cache (rts i))(v \<mapsto> n)\<rparr>))"
  using assms by (auto simp: coherent_defs split: option.splits)

locale vid_directory =
  fixes dinv :: "'s \<Rightarrow> bool"
    and room :: "'s \<Rightarrow> bool"
    and register :: "c_int \<Rightarrow> 's \<Rightarrow> c_int \<times> 's"
    and look :: "'s \<Rightarrow> c_int \<rightharpoonup> c_int"
  assumes register_inv: "\<lbrakk>dinv s; room s; register n s = (v, s')\<rbrakk> \<Longrightarrow> dinv s'"
    and register_fresh: "\<lbrakk>dinv s; room s; register n s = (v, s')\<rbrakk> \<Longrightarrow> look s v = None"
    and register_look: "\<lbrakk>dinv s; room s; register n s = (v, s')\<rbrakk> \<Longrightarrow> look s' = (look s)(v \<mapsto> n)"
begin

text \<open>A registration whose answer is lost keeps the routers in agreement with the directory.\<close>

lemma coherent_grow:
  assumes "coherent (look s) nids rts" and "dinv s" and "room s" and "register n s = (v, s')"
  shows "coherent (look s') nids rts"
  using assms(1) register_fresh [OF assms(2-4)]
  by (auto simp: coherent_defs register_look [OF assms(2-4)]) (metis option.distinct(1))+

text \<open>So does a registration that the router enters in its maps.\<close>

lemma coherent_join:
  assumes coh: "coherent (look s) nids rts" and reg: "dinv s" "room s" "register (nids i) s = (v, s')"
    and new: "cid_vid_map (rts i) cid = None"
  shows "coherent (look s') nids (rts(i := (rts i)
     \<lparr>cid_vid_map := (cid_vid_map (rts i))(cid \<mapsto> v),
      vid_nid_map_cache := umap_insert v (nids i) (vid_nid_map_cache (rts i))\<rparr>))"
proof -
  have fresh: "cid_vid_map (rts j) c \<noteq> Some v" for j c
    using coh register_fresh [OF reg] by (auto simp: coherent_defs)
  have grown: "coherent (look s') nids rts"
    using coh reg by (rule coherent_grow)
  have lk: "look s' v = Some (nids i)"
    by (simp add: register_look [OF reg])
  show ?thesis
    using grown fresh lk new by (auto simp: coherent_defs umap_insert_apply)
qed

end

interpretation vcm_dir: vid_directory vcm_inv vcm_room get_new_vid vid_nid_map
  by unfold_locales (auto intro: get_new_vid_inv get_new_vid_lookup)

section \<open>A router connected to a thread of the vcm\<close>

record link =
  ln_conn :: "(byte list, vcm_state) conn"
  ln_read :: nat
  ln_drop_request :: bool
  ln_drop_answer :: bool

definition link_send :: "int \<Rightarrow> byte list \<Rightarrow> link \<Rightarrow> int \<times> link" where
  "link_send fd data l =
     (if ln_drop_request l then (-1, l)
      else (int (length data), l\<lparr>ln_conn := vcm_session_step (Recv_Data data, True) (ln_conn l)\<rparr>))"

definition link_recv :: "int \<Rightarrow> nat \<Rightarrow> link \<Rightarrow> recv_result \<times> link" where
  "link_recv fd n l =
     (if ln_drop_answer l then (Recv_Error, l)
      else if ln_read l < length (outbox (ln_conn l))
      then (Recv_Data (take n (outbox (ln_conn l) ! ln_read l)), l\<lparr>ln_read := Suc (ln_read l)\<rparr>)
      else (Recv_Data [], l))"

definition link_close :: "int \<Rightarrow> link \<Rightarrow> link" where
  "link_close fd l = l\<lparr>ln_conn := vcm_session_step (Recv_Data [], True) (ln_conn l)\<rparr>"

definition link_api :: "link socket_api" where
  "link_api = \<lparr>so_socket = (\<lambda>l. (3, l)), so_unlink = (\<lambda>_ l. l), so_bind = (\<lambda>_ _ l. (0, l)),
     so_connect = (\<lambda>_ _ l. (0, l)), so_inet_pton = (\<lambda>_. 1), so_send = link_send,
     so_recv = link_recv, so_close = link_close\<rparr>"

definition link_ok :: "link \<Rightarrow> bool" where
  "link_ok l = (status (ln_conn l) = Serving \<and> length (locals (ln_conn l)) = 8 \<and>
     ln_read l = length (outbox (ln_conn l)))"

definition link_new :: "vcm_state \<Rightarrow> link" where
  "link_new st = \<lparr>ln_conn = vcm_open st, ln_read = 0, ln_drop_request = False, ln_drop_answer = False\<rparr>"

lemma link_ok_new [simp]: "link_ok (link_new st)"
  by (simp add: link_ok_def link_new_def vcm_open_def open_conn_def sizeofs)

text \<open>A request delivered to a serving thread is switched on as it was sent.\<close>

lemma vcm_serves:
  assumes "status c = Serving" and "length (locals c) = 8"
    and "vcm_dispatch (encode_vcm_msg msg) (shared c) = Respond m s'"
  shows "vcm_session_step (Recv_Data (encode_vcm_msg msg), True) c =
    c\<lparr>locals := m, shared := s', outbox := outbox c @ [m]\<rparr>"
proof -
  have "vcm_fill (locals c) (encode_vcm_msg msg) = encode_vcm_msg msg"
    using assms(2) by (simp add: vcm_fill_def)
  moreover have "encode_vcm_msg msg \<noteq> []"
    by simp
  ultimately show ?thesis
    using assms by (simp add: vcm_session_step_def session_step_def vcm_rsp_def)
qed

lemma vcm_handler_link:
  assumes ok: "link_ok l" and sock: "vcm_sock st \<noteq> -1"
    and disp: "vcm_dispatch (encode_vcm_msg msg) (shared (ln_conn l)) = Respond m s'"
    and h: "vcm_handler link_api msg st l = (r, msg', st', l')"
  shows "r = 0 \<and> msg' = decode_vcm_msg m \<and> st' = st \<and> shared (ln_conn l') = s' \<and> link_ok l' \<or>
    r = -1 \<and> vcm_sock st' = -1 \<and> (shared (ln_conn l') = shared (ln_conn l) \<or> shared (ln_conn l') = s')"
proof -
  have m8: "length m = 8"
    using disp by (rule vcm_dispatch_length [rotated]) simp
  have served: "vcm_session_step (Recv_Data (encode_vcm_msg msg), True) (ln_conn l) =
      (ln_conn l)\<lparr>locals := m, shared := s', outbox := outbox (ln_conn l) @ [m]\<rparr>"
    using ok disp by (intro vcm_serves) (simp_all add: link_ok_def)
  have closed: "shared (vcm_session_step (Recv_Data [], True) c) = shared c" for c
    by (simp add: vcm_session_step_def session_step_def hangup_def)
  have read: "ln_read l = length (outbox (ln_conn l))"
    using ok by (simp add: link_ok_def)
  show ?thesis
    using h sock ok m8
    by (auto simp: vcm_handler_def link_api_def link_send_def link_recv_def link_close_def served closed
        read vcm_disconn_def link_ok_def sizeofs nth_append recv_into_def split: if_splits)
qed

text \<open>On a link that loses nothing the request is delivered and answered.\<close>

lemma vcm_handler_delivers:
  assumes "link_ok l" and "\<not> ln_drop_request l" and "\<not> ln_drop_answer l" and "vcm_sock st \<noteq> -1"
    and disp: "vcm_dispatch (encode_vcm_msg msg) (shared (ln_conn l)) = Respond m s'"
  shows "\<exists>l'. vcm_handler link_api msg st l = (0, decode_vcm_msg m, st, l') \<and> shared (ln_conn l') = s'"
proof -
  have m8: "length m = 8"
    using disp by (rule vcm_dispatch_length [rotated]) simp
  have served: "vcm_session_step (Recv_Data (encode_vcm_msg msg), True) (ln_conn l) =
      (ln_conn l)\<lparr>locals := m, shared := s', outbox := outbox (ln_conn l) @ [m]\<rparr>"
    using assms(1) disp by (intro vcm_serves) (simp_all add: link_ok_def)
  show ?thesis
    using assms(1-4) m8
    by (simp add: vcm_handler_def link_api_def link_send_def link_recv_def served link_ok_def sizeofs
        nth_append recv_into_def)
qed

lemma vcm_dispatch_register:
  "get_new_vid n s = (v, s') \<Longrightarrow> \<exists>m. vcm_dispatch (encode_vcm_msg \<lparr>vm_func_code = NID_VID, vm_id = n\<rparr>) s
     = Respond m s' \<and> decode_vcm_msg m = \<lparr>vm_func_code = NID_VID, vm_id = v\<rparr>"
proof -
  assume "get_new_vid n s = (v, s')"
  moreover have "get32 0 (encode_vcm_msg \<lparr>vm_func_code = NID_VID, vm_id = n\<rparr>) = NID_VID"
    using decode_encode_vcm_msg [of "\<lparr>vm_func_code = NID_VID, vm_id = n\<rparr>"]
    by (simp add: decode_vcm_msg_def)
  ultimately show ?thesis
    by (simp add: vcm_dispatch_def VID_NID_def NID_VID_def)
qed

lemma vcm_dispatch_lookup:
  "\<exists>m. vcm_dispatch (encode_vcm_msg \<lparr>vm_func_code = VID_NID, vm_id = v\<rparr>) s
     = Respond m s \<and> decode_vcm_msg m = \<lparr>vm_func_code = VID_NID, vm_id = get_nid_by_vid v s\<rparr>"
proof -
  have "get32 0 (encode_vcm_msg \<lparr>vm_func_code = VID_NID, vm_id = v\<rparr>) = VID_NID"
    using decode_encode_vcm_msg [of "\<lparr>vm_func_code = VID_NID, vm_id = v\<rparr>"]
    by (simp add: decode_vcm_msg_def)
  then show ?thesis
    by (simp add: vcm_dispatch_def)
qed

section \<open>The cluster\<close>

record cluster =
  cl_vcm :: vcm_state
  cl_nids :: "nat \<Rightarrow> c_int"
  cl_rts :: "nat \<Rightarrow> routing_state"
  cl_links :: "nat \<Rightarrow> link"

datatype cluster_event = Join nat string | Resolve nat c_int | Faults nat bool bool

definition attach :: "nat \<Rightarrow> cluster \<Rightarrow> link" where
  "attach i cl = (cl_links cl i)\<lparr>ln_conn := (ln_conn (cl_links cl i))\<lparr>shared := cl_vcm cl\<rparr>\<rparr>"

definition settle :: "nat \<Rightarrow> routing_state \<Rightarrow> link \<Rightarrow> cluster \<Rightarrow> cluster" where
  "settle i st l cl = cl\<lparr>cl_vcm := shared (ln_conn l), cl_rts := (cl_rts cl)(i := st),
     cl_links := (cl_links cl)(i := l)\<rparr>"

fun cluster_step :: "cluster_event \<Rightarrow> cluster \<Rightarrow> cluster" where
  "cluster_step (Join i cid) cl =
     (case vcm_join link_api (cl_nids cl i) cid (cl_rts cl i) (attach i cl) of
        (_, st, l) \<Rightarrow> settle i st l cl)"
| "cluster_step (Resolve i v) cl =
     (case vcm_vid_nid link_api v (cl_rts cl i) (attach i cl) of (_, st, l) \<Rightarrow> settle i st l cl)"
| "cluster_step (Faults i q a) cl =
     cl\<lparr>cl_links := (cl_links cl)(i := (cl_links cl i)\<lparr>ln_drop_request := q, ln_drop_answer := a\<rparr>)\<rparr>"

fun cluster_run :: "cluster_event list \<Rightarrow> cluster \<Rightarrow> cluster" where
  "cluster_run [] cl = cl"
| "cluster_run (e # es) cl = cluster_run es (cluster_step e cl)"

text \<open>The start: an empty vcm and routers that have just connected to it.\<close>

definition cluster_init :: "(nat \<Rightarrow> c_int) \<Rightarrow> cluster" where
  "cluster_init nids = \<lparr>cl_vcm = vcm_init, cl_nids = nids,
     cl_rts = (\<lambda>_. routing_init\<lparr>vcm_sock := 3\<rparr>), cl_links = (\<lambda>_. link_new vcm_init)\<rparr>"

lemma vcm_conn_link: "vcm_conn link_api ip st l = (3, st\<lparr>vcm_sock := 3\<rparr>, l)"
  by (simp add: vcm_conn_def link_api_def)

definition cluster_inv :: "cluster \<Rightarrow> bool" where
  "cluster_inv cl = (vcm_inv (cl_vcm cl) \<and>
     coherent (vid_nid_map (cl_vcm cl)) (cl_nids cl) (cl_rts cl) \<and>
     (\<forall>i. vcm_sock (cl_rts cl i) \<noteq> -1 \<longrightarrow> link_ok (cl_links cl i)))"

lemma cluster_inv_init: "cluster_inv (cluster_init nids)"
  by (simp add: cluster_inv_def cluster_init_def routing_init_def coherent_defs)

text \<open>How an operation of one router moves the whole cluster.\<close>

lemma cluster_inv_settle:
  assumes inv: "cluster_inv cl" and v: "vcm_inv (shared (ln_conn l))"
    and coh: "coherent (vid_nid_map (shared (ln_conn l))) (cl_nids cl) ((cl_rts cl)(i := st))"
    and ok: "vcm_sock st \<noteq> -1 \<Longrightarrow> link_ok l"
  shows "cluster_inv (settle i st l cl)"
  using assms by (auto simp: cluster_inv_def settle_def)

lemma link_ok_attach: "cluster_inv cl \<Longrightarrow> vcm_sock (cl_rts cl i) \<noteq> -1 \<Longrightarrow> link_ok (attach i cl)"
  by (simp add: cluster_inv_def link_ok_def attach_def)

lemma shared_attach [simp]: "shared (ln_conn (attach i cl)) = cl_vcm cl"
  by (simp add: attach_def)

lemma cluster_join_inv:
  assumes inv: "cluster_inv cl" and room: "vcm_room (cl_vcm cl)"
  shows "cluster_inv (cluster_step (Join i cid) cl)"
proof -
  let ?st = "cl_rts cl i" and ?n = "cl_nids cl i"
  obtain v st' l' where j: "vcm_join link_api ?n cid ?st (attach i cl) = (v, st', l')"
    by (metis prod_cases3)
  then have step: "cluster_step (Join i cid) cl = settle i st' l' cl"
    by simp
  have v0: "vcm_inv (cl_vcm cl)"
    and c0: "coherent (vid_nid_map (cl_vcm cl)) (cl_nids cl) (cl_rts cl)"
    using inv by (simp_all add: cluster_inv_def)
  obtain u s' where new: "get_new_vid ?n (cl_vcm cl) = (u, s')"
    by (metis prod.exhaust)
  obtain m where d: "vcm_dispatch (encode_vcm_msg \<lparr>vm_func_code = NID_VID, vm_id = ?n\<rparr>) (cl_vcm cl) = Respond m s'"
    and dec: "decode_vcm_msg m = \<lparr>vm_func_code = NID_VID, vm_id = u\<rparr>"
    using vcm_dispatch_register [OF new] by blast
  note v1 = get_new_vid_inv [OF v0 room new]
  note grown = vcm_dir.coherent_grow [OF c0 v0 room new]
  from j show ?thesis
  proof (cases rule: vcm_join_cases)
    case known
    then show ?thesis
      unfolding step using inv v0 c0 link_ok_attach [OF inv]
      by (auto intro!: cluster_inv_settle coherent_same_maps)
  next
    case failed
    have "shared (ln_conn l') = cl_vcm cl \<or> shared (ln_conn l') = s'"
    proof (cases "vcm_sock ?st = -1")
      case True
      then show ?thesis
        using j failed by (auto simp: vcm_join_def vcm_handler_no_socket)
    next
      case False
      obtain r m' st1 l1 where h: "vcm_handler link_api \<lparr>vm_func_code = NID_VID, vm_id = ?n\<rparr> ?st (attach i cl) = (r, m', st1, l1)"
        by (metis prod_cases4)
      have "l1 = l'"
        using j failed h by (auto simp: vcm_join_def Let_def split: if_splits)
      then show ?thesis
        using vcm_handler_link [OF link_ok_attach [OF inv False] False _ h] d by auto
    qed
    then show ?thesis
      unfolding step using inv v0 c0 v1 grown failed
      by (auto intro!: cluster_inv_settle coherent_same_maps)
  next
    case (joined m')
    have sock: "vcm_sock ?st \<noteq> -1"
      using joined(2) by (auto simp: vcm_handler_no_socket)
    have eff: "m' = decode_vcm_msg m" "shared (ln_conn l') = s'" "link_ok l'"
      using vcm_handler_link [OF link_ok_attach [OF inv sock] sock _ joined(2)] d by auto
    then have "v = u"
      using joined(3) dec by simp
    then show ?thesis
      unfolding step using inv v1 eff vcm_dir.coherent_join [OF c0 v0 room new joined(1)] joined(4)
      by (auto intro!: cluster_inv_settle)
  qed
qed

lemma cluster_resolve_inv:
  assumes inv: "cluster_inv cl"
  shows "cluster_inv (cluster_step (Resolve i v) cl) \<and>
    cl_vcm (cluster_step (Resolve i v) cl) = cl_vcm cl"
proof -
  let ?st = "cl_rts cl i"
  obtain n st' l' where r: "vcm_vid_nid link_api v ?st (attach i cl) = (n, st', l')"
    by (metis prod_cases3)
  then have step: "cluster_step (Resolve i v) cl = settle i st' l' cl"
    by simp
  have v0: "vcm_inv (cl_vcm cl)"
    and c0: "coherent (vid_nid_map (cl_vcm cl)) (cl_nids cl) (cl_rts cl)"
    using inv by (simp_all add: cluster_inv_def)
  obtain m where d: "vcm_dispatch (encode_vcm_msg \<lparr>vm_func_code = VID_NID, vm_id = v\<rparr>) (cl_vcm cl) = Respond m (cl_vcm cl)"
    and dec: "decode_vcm_msg m = \<lparr>vm_func_code = VID_NID, vm_id = get_nid_by_vid v (cl_vcm cl)\<rparr>"
    using vcm_dispatch_lookup by blast
  have vs: "cl_vcm (settle i st' l' cl) = shared (ln_conn l')"
    by (simp add: settle_def)
  from r have "shared (ln_conn l') = cl_vcm cl \<and> cluster_inv (settle i st' l' cl)"
  proof (cases rule: vcm_vid_nid_cases)
    case known
    then show ?thesis
      using inv v0 c0 link_ok_attach [OF inv]
      by (auto intro!: cluster_inv_settle coherent_same_maps)
  next
    case failed
    have "shared (ln_conn l') = cl_vcm cl"
    proof (cases "vcm_sock ?st = -1")
      case True
      then show ?thesis
        using r failed by (auto simp: vcm_vid_nid_def vcm_handler_no_socket)
    next
      case False
      obtain rr m' st1 l1 where h: "vcm_handler link_api \<lparr>vm_func_code = VID_NID, vm_id = v\<rparr> ?st (attach i cl) = (rr, m', st1, l1)"
        by (metis prod_cases4)
      have "l1 = l'"
        using r failed h by (auto simp: vcm_vid_nid_def split: if_splits)
      then show ?thesis
        using vcm_handler_link [OF link_ok_attach [OF inv False] False _ h] d by auto
    qed
    then show ?thesis
      using inv v0 c0 failed by (auto intro!: cluster_inv_settle coherent_same_maps)
  next
    case (resolved m')
    have sock: "vcm_sock ?st \<noteq> -1"
      using resolved(2) by (auto simp: vcm_handler_no_socket)
    have eff: "m' = decode_vcm_msg m" "shared (ln_conn l') = cl_vcm cl" "link_ok l'"
      using vcm_handler_link [OF link_ok_attach [OF inv sock] sock _ resolved(2)] d by auto
    then have "n = (case vid_nid_map (cl_vcm cl) v of None \<Rightarrow> -1 | Some m \<Rightarrow> m)"
      using resolved(3) dec by (simp add: get_nid_by_vid_def)
    then show ?thesis
      using inv v0 eff coherent_resolve [OF c0] resolved(4)
      by (auto intro!: cluster_inv_settle)
  qed
  then show ?thesis
    unfolding step vs by simp
qed

lemma cluster_faults_inv:
  "cluster_inv cl \<Longrightarrow> cluster_inv (cluster_step (Faults i q a) cl)"
  by (simp add: cluster_inv_def link_ok_def)

text \<open>An event issues at most one identifier.\<close>

lemma cluster_step_vid:
  assumes inv: "cluster_inv cl" and room: "vcm_room (cl_vcm cl)"
  shows "unat (vcm_vid (cl_vcm (cluster_step e cl))) \<le> Suc (unat (vcm_vid (cl_vcm cl)))"
proof (cases e)
  case (Join i cid)
  let ?st = "cl_rts cl i" and ?n = "cl_nids cl i"
  have v0: "vcm_inv (cl_vcm cl)"
    using inv by (simp add: cluster_inv_def)
  obtain u s' where new: "get_new_vid ?n (cl_vcm cl) = (u, s')"
    by (metis prod.exhaust)
  obtain r m' st1 l1 where h: "vcm_handler link_api \<lparr>vm_func_code = NID_VID, vm_id = ?n\<rparr> ?st (attach i cl) = (r, m', st1, l1)"
    by (metis prod_cases4)
  have "shared (ln_conn l1) = cl_vcm cl \<or> shared (ln_conn l1) = s'"
  proof (cases "vcm_sock ?st = -1")
    case True
    then have "l1 = attach i cl"
      using h by (simp add: vcm_handler_no_socket)
    then show ?thesis
      by simp
  next
    case False
    then show ?thesis
      using vcm_handler_link [OF link_ok_attach [OF inv False] False _ h] vcm_dispatch_register [OF new]
      by auto
  qed
  then show ?thesis
    using Join h get_new_vid_counter [OF v0 room new]
    by (auto simp: vcm_join_def settle_def Let_def split: option.split)
next
  case (Resolve i v)
  then show ?thesis
    using cluster_resolve_inv [OF inv, of i v] by simp
qed simp

lemma cluster_step_inv:
  "\<lbrakk>cluster_inv cl; vcm_room (cl_vcm cl)\<rbrakk> \<Longrightarrow> cluster_inv (cluster_step e cl)"
  using cluster_join_inv cluster_resolve_inv cluster_faults_inv by (cases e) metis+

lemma cluster_run_inv:
  assumes "cluster_inv cl" and "unat (vcm_vid (cl_vcm cl)) + length es < 2 ^ 31"
  shows "cluster_inv (cluster_run es cl)"
  using assms
proof (induction es arbitrary: cl)
  case (Cons e es)
  have "vcm_room (cl_vcm cl)"
    using Cons.prems(2) by (simp add: vcm_room_def)
  then show ?case
    using Cons.IH [OF cluster_step_inv [OF Cons.prems(1)]] cluster_step_vid [OF Cons.prems(1), of e]
      Cons.prems(2) by simp
qed simp

lemma cluster_step_nids [simp]: "cl_nids (cluster_step e cl) = cl_nids cl"
  by (cases e) (auto simp: settle_def split: prod.splits)

lemma cluster_run_nids [simp]: "cl_nids (cluster_run es cl) = cl_nids cl"
  by (induction es arbitrary: cl) auto

section \<open>What the cluster promises\<close>

lemma cluster_run_init_inv:
  "length es < 2 ^ 31 \<Longrightarrow> cluster_inv (cluster_run es (cluster_init nids))"
  by (intro cluster_run_inv cluster_inv_init) (simp add: cluster_init_def vcm_init_def)

text \<open>
  C9: two containers of the cluster never share a virtual node. In any run of joins,
  resolutions and lost messages from the start (fewer than 2^31 events), two containers with
  the same virtual node are one container of one router, and the vcm has registered this
  node for the router the container is on.
\<close>

theorem cluster_vids_unique:
  assumes "length es < 2 ^ 31" and "cl = cluster_run es (cluster_init nids)"
    and "cid_vid_map (cl_rts cl i) cid = Some v" and "cid_vid_map (cl_rts cl j) cid' = Some v"
  shows "i = j \<and> cid = cid' \<and> vid_nid_map (cl_vcm cl) v = Some (nids i)"
proof -
  have "cluster_inv cl" and "cl_nids cl = nids"
    using cluster_run_init_inv [OF assms(1), of nids] assms(2) by (simp_all add: cluster_init_def)
  then have "coherent (vid_nid_map (cl_vcm cl)) nids (cl_rts cl)"
    by (simp add: cluster_inv_def)
  then show ?thesis
    using assms(3,4) unfolding coherent_defs by blast
qed

text \<open>Two joins, a lost answer in between (its number is burnt), and a resolution.\<close>

definition sample_nids :: "nat \<Rightarrow> c_int" where
  "sample_nids i = (if i = 0 then 4 else 5)"

definition sample_run :: "cluster_event list" where
  "sample_run = [Join 0 ''/aaaa'', Faults 2 False True, Join 2 ''/cccc'', Join 1 ''/aaaa'', Resolve 0 3]"

theorem cluster_vids_unique_witness:
  "cid_vid_map (cl_rts (cluster_run sample_run (cluster_init sample_nids)) 1) ''/aaaa'' = Some 3 \<and>
   vid_nid_map (cl_vcm (cluster_run sample_run (cluster_init sample_nids))) 3 = Some 5 \<and>
   cid_vid_map (cl_rts (cluster_run sample_run (cluster_init sample_nids)) 0) ''/aaaa'' \<noteq> Some 3"
proof -
  have v: "cid_vid_map (cl_rts (cluster_run sample_run (cluster_init sample_nids)) 1) ''/aaaa'' = Some 3"
    by code_simp
  have len: "length sample_run < 2 ^ 31"
    by (simp add: sample_run_def)
  note p = cluster_vids_unique [OF len refl v]
  have "vid_nid_map (cl_vcm (cluster_run sample_run (cluster_init sample_nids))) 3 = Some 5"
    using p [OF v] by (simp add: sample_nids_def)
  moreover have "cid_vid_map (cl_rts (cluster_run sample_run (cluster_init sample_nids)) 0) ''/aaaa'' \<noteq> Some 3"
    using p [of 0 "''/aaaa''"] by auto
  ultimately show ?thesis
    using v by blast
qed

text \<open>
  C10: a positive entry of a router's cache is the truth. In any such run, what a router has
  cached for a virtual node is either -1 or the node that the vcm has on record for it.
\<close>

theorem cluster_cache_sound:
  assumes "length es < 2 ^ 31" and "cl = cluster_run es (cluster_init nids)"
    and "vid_nid_map_cache (cl_rts cl i) v = Some n"
  shows "n = -1 \<or> vid_nid_map (cl_vcm cl) v = Some n"
proof -
  have "cluster_inv cl"
    using cluster_run_init_inv [OF assms(1)] assms(2) by simp
  then have "coherent (vid_nid_map (cl_vcm cl)) (cl_nids cl) (cl_rts cl)"
    by (simp add: cluster_inv_def)
  then show ?thesis
    using assms(3) unfolding coherent_defs by blast
qed

theorem cluster_cache_sound_witness:
  "vid_nid_map_cache (cl_rts (cluster_run sample_run (cluster_init sample_nids)) 0) 3 = Some 5 \<and>
   vid_nid_map (cl_vcm (cluster_run sample_run (cluster_init sample_nids))) 3 = Some 5"
proof -
  have c: "vid_nid_map_cache (cl_rts (cluster_run sample_run (cluster_init sample_nids)) 0) 3 = Some 5"
    by code_simp
  have len: "length sample_run < 2 ^ 31"
    by (simp add: sample_run_def)
  show ?thesis
    using cluster_cache_sound [OF len refl c] c by simp
qed

text \<open>A cached resolution, positive or not, is never replaced.\<close>

lemma vcm_join_keeps_cache:
  "\<lbrakk>vid_nid_map_cache st v = Some n; vcm_join api nid cid st w = (u, st', w')\<rbrakk> \<Longrightarrow>
   vid_nid_map_cache st' v = Some n"
  by (erule vcm_join_cases) (auto simp: umap_insert_apply)

lemma vcm_vid_nid_keeps_cache:
  "\<lbrakk>vid_nid_map_cache st v = Some n; vcm_vid_nid api u st w = (m, st', w')\<rbrakk> \<Longrightarrow>
   vid_nid_map_cache st' v = Some n"
  by (erule vcm_vid_nid_cases) auto

lemma cluster_step_keeps_cache:
  "vid_nid_map_cache (cl_rts cl i) v = Some n \<Longrightarrow> vid_nid_map_cache (cl_rts (cluster_step e cl) i) v = Some n"
  by (cases e)
     (auto simp: settle_def split: prod.split dest: vcm_join_keeps_cache vcm_vid_nid_keeps_cache)

lemma cluster_run_keeps_cache:
  "vid_nid_map_cache (cl_rts cl i) v = Some n \<Longrightarrow> vid_nid_map_cache (cl_rts (cluster_run es cl) i) v = Some n"
  by (induction es arbitrary: cl) (auto intro: cluster_step_keeps_cache)

text \<open>Neither is an entry of the vcm.\<close>

lemma vcm_step_keeps_entry:
  "vid_nid_map (shared c) v = Some n \<Longrightarrow> vid_nid_map (shared (vcm_session_step ev c)) v = Some n"
  by (auto simp: vcm_session_step_def session_step_def hangup_def vcm_dispatch_def get_new_vid_def
      Let_def umap_insert_apply split: recv_result.split prod.splits)

lemma vcm_handler_keeps_entry:
  "\<lbrakk>vid_nid_map (shared (ln_conn l)) v = Some n; vcm_handler link_api msg st l = (r, m, st', l')\<rbrakk> \<Longrightarrow>
   vid_nid_map (shared (ln_conn l')) v = Some n"
  by (auto simp: vcm_handler_def vcm_disconn_def link_api_def link_send_def link_recv_def link_close_def
      vcm_step_keeps_entry split: if_splits prod.splits recv_result.splits)

lemma cluster_step_keeps_entry:
  assumes "vid_nid_map (cl_vcm cl) v = Some n"
  shows "vid_nid_map (cl_vcm (cluster_step e cl)) v = Some n"
  using assms vcm_handler_keeps_entry [of "attach i cl" v n for i]
  by (cases e)
     (auto simp: settle_def vcm_join_def vcm_vid_nid_def Let_def split: prod.split option.split)

lemma cluster_run_keeps_entry:
  "vid_nid_map (cl_vcm cl) v = Some n \<Longrightarrow> vid_nid_map (cl_vcm (cluster_run es cl)) v = Some n"
  by (induction es arbitrary: cl) (auto intro: cluster_step_keeps_entry)

lemma cluster_run_append: "cluster_run (xs @ ys) cl = cluster_run ys (cluster_run xs cl)"
  by (induction xs arbitrary: cl) auto

text \<open>
  A router that will never find a virtual node: -1 is cached for it, or nothing is and the connection
  to the vcm is gone.
\<close>

definition given_up_on :: "c_int \<Rightarrow> routing_state \<Rightarrow> bool" where
  "given_up_on v st = (vid_nid_map_cache st v = Some (-1) \<or> (vid_nid_map_cache st v = None \<and> vcm_sock st = -1))"

lemma given_up_on_resolves: "given_up_on v st \<Longrightarrow> fst (vcm_vid_nid api v st w) = -1"
  by (auto simp: given_up_on_def vcm_vid_nid_def vcm_handler_no_socket)

lemma given_up_on_join: "\<lbrakk>given_up_on v st; vcm_join api nid cid st w = (u, st', w')\<rbrakk> \<Longrightarrow> given_up_on v st'"
  by (erule vcm_join_cases) (auto simp: given_up_on_def umap_insert_apply vcm_handler_no_socket)

lemma given_up_on_resolve: "\<lbrakk>given_up_on v st; vcm_vid_nid api u st w = (n, st', w')\<rbrakk> \<Longrightarrow> given_up_on v st'"
  by (erule vcm_vid_nid_cases) (auto simp: given_up_on_def vcm_handler_no_socket)

lemma cluster_step_given_up:
  "given_up_on v (cl_rts cl i) \<Longrightarrow> given_up_on v (cl_rts (cluster_step e cl) i)"
  by (cases e) (auto simp: settle_def split: prod.split dest: given_up_on_join given_up_on_resolve)

lemma cluster_run_given_up:
  "given_up_on v (cl_rts cl i) \<Longrightarrow> given_up_on v (cl_rts (cluster_run es cl) i)"
  by (induction es arbitrary: cl) (auto intro: cluster_step_given_up)

text \<open>A node that is asked for before it is registered is given up on.\<close>

lemma early_resolve_gives_up:
  assumes inv: "cluster_inv cl" and new: "vid_nid_map (cl_vcm cl) v = None"
  shows "fst (vcm_vid_nid link_api v (cl_rts cl i) (attach i cl)) = -1 \<and>
    given_up_on v (cl_rts (cluster_step (Resolve i v) cl) i)"
proof -
  let ?st = "cl_rts cl i"
  obtain n st' l' where r: "vcm_vid_nid link_api v ?st (attach i cl) = (n, st', l')"
    by (rule prod_cases3)
  obtain m where d: "vcm_dispatch (encode_vcm_msg \<lparr>vm_func_code = VID_NID, vm_id = v\<rparr>) (cl_vcm cl) = Respond m (cl_vcm cl)"
    and dec: "decode_vcm_msg m = \<lparr>vm_func_code = VID_NID, vm_id = -1\<rparr>"
    using vcm_dispatch_lookup [of v "cl_vcm cl"] new by (auto simp: get_nid_by_vid_def)
  from r have "n = -1 \<and> given_up_on v st'"
  proof (cases rule: vcm_vid_nid_cases)
    case known
    have "cache_sound (vid_nid_map (cl_vcm cl)) (cl_rts cl)"
      using inv by (simp add: cluster_inv_def coherent_def)
    then have "n = -1"
      using known(1) new unfolding cache_sound_def by fastforce
    then show ?thesis
      using known by (simp add: given_up_on_def)
  next
    case failed
    then show ?thesis
      by (simp add: given_up_on_def)
  next
    case (resolved m')
    have sock: "vcm_sock ?st \<noteq> -1"
      using resolved(2) by (auto simp: vcm_handler_no_socket)
    have "m' = decode_vcm_msg m"
      using vcm_handler_link [OF link_ok_attach [OF inv sock] sock _ resolved(2)] d by auto
    then show ?thesis
      using resolved(3,4) dec by (simp add: given_up_on_def)
  qed
  then show ?thesis
    using r by (simp add: settle_def)
qed

text \<open>
  C23: an early question is answered wrongly for good. After any run, when a router resolves a
  virtual node that is not registered yet, it gets -1, and whatever happens afterwards it
  goes on resolving the node to -1, although the vcm has the right node on record from
  the moment of its registration on.
\<close>

theorem stale_negative_cache:
  assumes "length es < 2 ^ 31" and "cl = cluster_run es (cluster_init nids)"
    and "vid_nid_map (cl_vcm cl) v = None" and "asked = cluster_step (Resolve i v) cl"
  shows "fst (vcm_vid_nid link_api v (cl_rts cl i) (attach i cl)) = -1 \<and>
    (\<forall>es'. fst (vcm_vid_nid link_api v (cl_rts (cluster_run es' asked) i) (attach i (cluster_run es' asked))) = -1) \<and>
    (\<forall>es1 es2 n. vid_nid_map (cl_vcm (cluster_run es1 asked)) v = Some n \<longrightarrow>
       vid_nid_map (cl_vcm (cluster_run (es1 @ es2) asked)) v = Some n)"
proof -
  have "cluster_inv cl"
    using cluster_run_init_inv [OF assms(1)] assms(2) by simp
  note gone = early_resolve_gives_up [OF this assms(3), of i]
  have "fst (vcm_vid_nid link_api v (cl_rts (cluster_run es' asked) i) (attach i (cluster_run es' asked))) = -1" for es'
    using gone unfolding assms(4) by (intro given_up_on_resolves cluster_run_given_up) simp
  then show ?thesis
    using gone by (simp add: cluster_run_append cluster_run_keeps_entry)
qed

text \<open>Router 1 asks for the second virtual node after the first join; the second join is on router 2.\<close>

theorem stale_negative_cache_witness:
  "let later = cluster_run [Join 2 ''/bbbb''] (cluster_step (Resolve 1 2) (cluster_run [Join 0 ''/aaaa''] (cluster_init sample_nids)))
   in vid_nid_map (cl_vcm later) 2 = Some 5 \<and> fst (vcm_vid_nid link_api 2 (cl_rts later 1) (attach 1 later)) = -1"
proof -
  have n: "vid_nid_map (cl_vcm (cluster_run [Join 0 ''/aaaa''] (cluster_init sample_nids))) 2 = None"
    by code_simp
  have r: "vid_nid_map (cl_vcm (cluster_run [Join 2 ''/bbbb'']
      (cluster_step (Resolve 1 2) (cluster_run [Join 0 ''/aaaa''] (cluster_init sample_nids))))) 2 = Some 5"
    by (simp add: cluster_init_def vcm_vid_nid_def vcm_join_def vcm_handler_def link_api_def link_send_def
        link_recv_def link_new_def vcm_open_def vcm_init_def routing_init_def attach_def settle_def
        vcm_session_step_def session_step_def open_conn_def vcm_fill_def vcm_rsp_def sizeofs
        vcm_dispatch_def VID_NID_def NID_VID_def get_nid_by_vid_def get_new_vid_def Let_def
        recv_into_def layout_simps sample_nids_def)
  have len: "length [Join 0 ''/aaaa''] < 2 ^ 31"
    by simp
  show ?thesis
    using stale_negative_cache [OF len refl n refl, of 1] r unfolding Let_def by blast
qed

end
