(* ===== verification/Service.thy ===== *)
theory Service
  imports Cluster
begin

text \<open>
  What the cluster promises to its containers, without caches, sockets and messages: an
  abstract service with a list of registered nodes, the number of every container, and for
  every router the numbers it has asked for in vain. The operations of \<open>Routing\<close>, run over
  the links of \<open>Cluster\<close>, refine it step by step (\<open>refines\<close>), lost messages included.
\<close>

section \<open>The abstract service\<close>

text \<open>
  \<open>sv_known\<close> are the numbers whose node a router has learnt, \<open>sv_early\<close> those it has asked for
  before they were given out; \<open>sv_lossy\<close> says whether a router's next exchange loses its
  request or its answer, \<open>sv_online\<close> whether the router still talks to the vcm.
\<close>

record service =
  sv_nodes :: "c_int list"
  sv_members :: "nat \<Rightarrow> string \<rightharpoonup> c_int"
  sv_known :: "nat \<Rightarrow> c_int set"
  sv_early :: "nat \<Rightarrow> c_int set"
  sv_online :: "nat \<Rightarrow> bool"
  sv_lossy :: "nat \<Rightarrow> bool \<times> bool"

definition svc_init :: service where
  "svc_init = \<lparr>sv_nodes = [], sv_members = (\<lambda>_. Map.empty), sv_known = (\<lambda>_. {}), sv_early = (\<lambda>_. {}),
     sv_online = (\<lambda>_. True), sv_lossy = (\<lambda>_. (False, False))\<rparr>"

definition svc_cut :: "nat \<Rightarrow> service \<Rightarrow> service" where
  "svc_cut i sv = sv\<lparr>sv_online := (sv_online sv)(i := False)\<rparr>"

definition svc_grow :: "c_int \<Rightarrow> service \<Rightarrow> service" where
  "svc_grow nid sv = sv\<lparr>sv_nodes := sv_nodes sv @ [nid]\<rparr>"

definition svc_learn :: "nat \<Rightarrow> c_int \<Rightarrow> service \<Rightarrow> service" where
  "svc_learn i v sv = sv\<lparr>sv_known := (sv_known sv)(i := insert v (sv_known sv i))\<rparr>"

definition svc_miss :: "nat \<Rightarrow> c_int \<Rightarrow> service \<Rightarrow> service" where
  "svc_miss i v sv = sv\<lparr>sv_early := (sv_early sv)(i := insert v (sv_early sv i))\<rparr>"

definition svc_enter :: "nat \<Rightarrow> string \<Rightarrow> c_int \<Rightarrow> service \<Rightarrow> service" where
  "svc_enter i cid v sv = sv\<lparr>sv_members := (sv_members sv)(i := (sv_members sv i)(cid \<mapsto> v))\<rparr>"

lemmas svc_updates = svc_cut_def svc_grow_def svc_learn_def svc_miss_def svc_enter_def

text \<open>A container asks for its number: the one it has, or the next one.\<close>

definition svc_join :: "c_int \<Rightarrow> nat \<Rightarrow> string \<Rightarrow> service \<Rightarrow> c_int \<times> service" where
  "svc_join nid i cid sv =
     (case sv_members sv i cid of
        Some v \<Rightarrow> (v, sv)
      | None \<Rightarrow>
          if \<not> sv_online sv i then (-1, sv)
          else if fst (sv_lossy sv i) then (-1, svc_cut i sv)
          else if snd (sv_lossy sv i) then (-1, svc_cut i (svc_grow nid sv))
          else (let v = word_of_nat (Suc (length (sv_nodes sv)))
                in (v, svc_enter i cid v (svc_learn i v (svc_grow nid sv)))))"

definition svc_number :: "nat \<Rightarrow> string \<Rightarrow> service \<Rightarrow> c_int" where
  "svc_number i cid sv = (case sv_members sv i cid of None \<Rightarrow> -1 | Some v \<Rightarrow> v)"

definition svc_issued :: "c_int \<Rightarrow> service \<Rightarrow> bool" where
  "svc_issued v sv = (1 \<le> unat v \<and> unat v \<le> length (sv_nodes sv))"

definition svc_node :: "c_int \<Rightarrow> service \<Rightarrow> c_int" where
  "svc_node v sv = spec_resolve (unat v) (sv_nodes sv)"

text \<open>A router is asked for the node of a number.\<close>

definition svc_resolve :: "nat \<Rightarrow> c_int \<Rightarrow> service \<Rightarrow> c_int \<times> service" where
  "svc_resolve i v sv =
     (if v \<in> sv_early sv i then (-1, sv)
      else if v \<in> sv_known sv i then (svc_node v sv, sv)
      else if \<not> sv_online sv i then (-1, sv)
      else if fst (sv_lossy sv i) \<or> snd (sv_lossy sv i) then (-1, svc_cut i sv)
      else if svc_issued v sv then (svc_node v sv, svc_learn i v sv)
      else (-1, svc_miss i v sv))"

definition svc_loss :: "nat \<Rightarrow> bool \<Rightarrow> bool \<Rightarrow> service \<Rightarrow> service" where
  "svc_loss i q a sv = sv\<lparr>sv_lossy := (sv_lossy sv)(i := (q, a))\<rparr>"

section \<open>The refinement relation\<close>

text \<open>What a router's cache holds for a number, seen from the service.\<close>

definition svc_view :: "nat \<Rightarrow> service \<Rightarrow> c_int \<rightharpoonup> c_int" where
  "svc_view i sv v =
     (if v \<in> sv_early sv i then Some (-1)
      else if v \<in> sv_known sv i then Some (svc_node v sv) else None)"

definition router_refines :: "routing_state \<Rightarrow> link \<Rightarrow> nat \<Rightarrow> service \<Rightarrow> bool" where
  "router_refines st l i sv =
     (cid_vid_map st = sv_members sv i \<and> vid_nid_map_cache st = svc_view i sv \<and>
      (vcm_sock st \<noteq> -1 \<longleftrightarrow> sv_online sv i) \<and> (sv_online sv i \<longrightarrow> link_ok l) \<and>
      sv_lossy sv i = (ln_drop_request l, ln_drop_answer l) \<and>
      (\<forall>v\<in>sv_known sv i. svc_issued v sv))"

definition refines :: "cluster \<Rightarrow> service \<Rightarrow> bool" where
  "refines cl sv =
     (vcm_inv (cl_vcm cl) \<and> vcm_abs (cl_vcm cl) = sv_nodes sv \<and>
      (\<forall>i. router_refines (cl_rts cl i) (cl_links cl i) i sv))"

lemma refines_init: "refines (cluster_init nids) svc_init"
proof -
  have "vcm_abs vcm_init = []"
    by (simp add: vcm_abs_def vcm_init_def)
  moreover have "svc_view i svc_init = Map.empty" for i
    by (simp add: svc_view_def svc_init_def fun_eq_iff)
  ultimately show ?thesis
    by (simp add: refines_def router_refines_def cluster_init_def svc_init_def routing_init_def link_new_def
        link_ok_def vcm_open_def open_conn_def sizeofs)
qed

lemma svc_fields [simp]:
  "sv_nodes (svc_cut i sv) = sv_nodes sv" "sv_members (svc_cut i sv) = sv_members sv"
  "sv_known (svc_cut i sv) = sv_known sv" "sv_early (svc_cut i sv) = sv_early sv"
  "sv_online (svc_cut i sv) = (sv_online sv)(i := False)" "sv_lossy (svc_cut i sv) = sv_lossy sv"
  "sv_nodes (svc_grow n sv) = sv_nodes sv @ [n]" "sv_members (svc_grow n sv) = sv_members sv"
  "sv_known (svc_grow n sv) = sv_known sv" "sv_early (svc_grow n sv) = sv_early sv"
  "sv_online (svc_grow n sv) = sv_online sv" "sv_lossy (svc_grow n sv) = sv_lossy sv"
  "sv_nodes (svc_learn i v sv) = sv_nodes sv" "sv_members (svc_learn i v sv) = sv_members sv"
  "sv_known (svc_learn i v sv) = (sv_known sv)(i := insert v (sv_known sv i))"
  "sv_early (svc_learn i v sv) = sv_early sv"
  "sv_online (svc_learn i v sv) = sv_online sv" "sv_lossy (svc_learn i v sv) = sv_lossy sv"
  "sv_nodes (svc_miss i v sv) = sv_nodes sv" "sv_members (svc_miss i v sv) = sv_members sv"
  "sv_known (svc_miss i v sv) = sv_known sv"
  "sv_early (svc_miss i v sv) = (sv_early sv)(i := insert v (sv_early sv i))"
  "sv_online (svc_miss i v sv) = sv_online sv" "sv_lossy (svc_miss i v sv) = sv_lossy sv"
  "sv_nodes (svc_enter i c v sv) = sv_nodes sv"
  "sv_members (svc_enter i c v sv) = (sv_members sv)(i := (sv_members sv i)(c \<mapsto> v))"
  "sv_known (svc_enter i c v sv) = sv_known sv" "sv_early (svc_enter i c v sv) = sv_early sv"
  "sv_online (svc_enter i c v sv) = sv_online sv" "sv_lossy (svc_enter i c v sv) = sv_lossy sv"
  "sv_nodes (svc_loss i q a sv) = sv_nodes sv" "sv_members (svc_loss i q a sv) = sv_members sv"
  "sv_known (svc_loss i q a sv) = sv_known sv" "sv_early (svc_loss i q a sv) = sv_early sv"
  "sv_online (svc_loss i q a sv) = sv_online sv"
  "sv_lossy (svc_loss i q a sv) = (sv_lossy sv)(i := (q, a))"
  by (simp_all add: svc_updates svc_loss_def)

text \<open>What the relation says of a router depends on the part of the service that is its own.\<close>

lemma svc_nodes_only:
  assumes "sv_nodes sv' = sv_nodes sv"
  shows "svc_issued v sv' = svc_issued v sv" and "svc_node v sv' = svc_node v sv"
  using assms by (simp_all add: svc_issued_def svc_node_def)

lemma svc_nodes_kept [simp]:
  "svc_node v (svc_cut i sv) = svc_node v sv" "svc_issued v (svc_cut i sv) = svc_issued v sv"
  "svc_node v (svc_learn i u sv) = svc_node v sv" "svc_issued v (svc_learn i u sv) = svc_issued v sv"
  "svc_node v (svc_miss i u sv) = svc_node v sv" "svc_issued v (svc_miss i u sv) = svc_issued v sv"
  "svc_node v (svc_enter i c u sv) = svc_node v sv" "svc_issued v (svc_enter i c u sv) = svc_issued v sv"
  "svc_node v (svc_loss i q a sv) = svc_node v sv" "svc_issued v (svc_loss i q a sv) = svc_issued v sv"
  by (simp_all add: svc_node_def svc_issued_def)

lemma router_refines_own:
  assumes "sv_nodes sv' = sv_nodes sv" and "sv_members sv' i = sv_members sv i"
    and "sv_known sv' i = sv_known sv i" and "sv_early sv' i = sv_early sv i"
    and "sv_online sv' i = sv_online sv i" and "sv_lossy sv' i = sv_lossy sv i"
  shows "router_refines st l i sv' = router_refines st l i sv"
proof -
  have "svc_view i sv' = svc_view i sv"
    using assms by (simp add: svc_view_def fun_eq_iff svc_nodes_only [OF assms(1)])
  then show ?thesis
    using assms by (simp add: router_refines_def svc_nodes_only [OF assms(1)])
qed

text \<open>More nodes on the list change no number that has been given out.\<close>

lemma svc_node_grow: "svc_issued v sv \<Longrightarrow> svc_node v (svc_grow nid sv) = svc_node v sv"
  by (auto simp: svc_node_def svc_issued_def spec_resolve_def nth_append)

lemma svc_issued_grow: "svc_issued v sv \<Longrightarrow> svc_issued v (svc_grow nid sv)"
  by (simp add: svc_issued_def)

lemma router_refines_grow:
  assumes "router_refines st l i sv"
  shows "router_refines st l i (svc_grow nid sv)"
proof -
  have known: "svc_issued v sv" if "v \<in> sv_known sv i" for v
    using assms that by (simp add: router_refines_def)
  then have "svc_view i (svc_grow nid sv) = svc_view i sv"
    by (auto simp: svc_view_def fun_eq_iff svc_node_grow)
  then show ?thesis
    using assms known by (auto simp: router_refines_def svc_issued_grow)
qed

text \<open>How one router's operation moves the relation: the others only see the list grow.\<close>

lemma refines_settle:
  assumes ref: "refines cl sv" and inv: "vcm_inv (shared (ln_conn l'))"
    and abs: "vcm_abs (shared (ln_conn l')) = sv_nodes sv'"
    and own: "router_refines st' l' i sv'"
    and rest: "sv_nodes sv' = sv_nodes sv \<or> (\<exists>n. sv_nodes sv' = sv_nodes sv @ [n])"
      "\<And>j. j \<noteq> i \<Longrightarrow> sv_members sv' j = sv_members sv j \<and> sv_known sv' j = sv_known sv j \<and>
        sv_early sv' j = sv_early sv j \<and> sv_online sv' j = sv_online sv j \<and> sv_lossy sv' j = sv_lossy sv j"
  shows "refines (settle i st' l' cl) sv'"
proof -
  have "router_refines (cl_rts cl j) (cl_links cl j) j sv'" if "j \<noteq> i" for j
  proof -
    have r: "router_refines (cl_rts cl j) (cl_links cl j) j sv"
      using ref by (simp add: refines_def)
    from rest(1) show ?thesis
    proof
      assume "sv_nodes sv' = sv_nodes sv"
      then show ?thesis
        using r rest(2) [OF that] router_refines_own [of sv' sv j] by simp
    next
      assume "\<exists>n. sv_nodes sv' = sv_nodes sv @ [n]"
      then obtain n where "sv_nodes sv' = sv_nodes (svc_grow n sv)"
        by auto
      then show ?thesis
        using router_refines_grow [OF r, of n] rest(2) [OF that] router_refines_own [of sv' "svc_grow n sv" j] by simp
    qed
  qed
  then show ?thesis
    using inv abs own by (simp add: refines_def settle_def)
qed

section \<open>One exchange with the vcm\<close>

text \<open>What an exchange does, as a function of what the link loses.\<close>

lemma vcm_handler_exact:
  assumes ok: "link_ok l" and sock: "vcm_sock st \<noteq> -1"
    and disp: "vcm_dispatch (encode_vcm_msg msg) (shared (ln_conn l)) = Respond m s'"
  shows "\<exists>l'. vcm_handler link_api msg st l =
      (if ln_drop_request l \<or> ln_drop_answer l then (-1, msg, st\<lparr>vcm_sock := -1\<rparr>, l')
       else (0, decode_vcm_msg m, st, l')) \<and>
    shared (ln_conn l') = (if ln_drop_request l then shared (ln_conn l) else s') \<and>
    ln_drop_request l' = ln_drop_request l \<and> ln_drop_answer l' = ln_drop_answer l \<and>
    (\<not> ln_drop_request l \<and> \<not> ln_drop_answer l \<longrightarrow> link_ok l')"
proof -
  have m8: "length m = 8"
    using disp by (rule vcm_dispatch_length [rotated]) simp
  have served: "vcm_session_step (Recv_Data (encode_vcm_msg msg), True) (ln_conn l) =
      (ln_conn l)\<lparr>locals := m, shared := s', outbox := outbox (ln_conn l) @ [m]\<rparr>"
    using ok disp by (intro vcm_serves) (simp_all add: link_ok_def)
  have closed: "shared (vcm_session_step (Recv_Data [], True) c) = shared c" for c
    by (simp add: vcm_session_step_def session_step_def hangup_def)
  obtain r msg' st' l' where h: "vcm_handler link_api msg st l = (r, msg', st', l')"
    by (metis prod_cases4)
  show ?thesis
    using h sock ok m8
    by (intro exI [of _ l'])
      (auto simp: vcm_handler_def link_api_def link_send_def link_recv_def link_close_def served closed
        vcm_disconn_def link_ok_def sizeofs nth_append recv_into_def split: if_splits)
qed

section \<open>The operations refine the service\<close>

lemma refines_router: "refines cl sv \<Longrightarrow> router_refines (cl_rts cl i) (attach i cl) i sv"
  by (auto simp: refines_def router_refines_def attach_def link_ok_def)

lemma refines_same: "refines cl sv \<Longrightarrow> refines (settle i (cl_rts cl i) (attach i cl) cl) sv"
  by (rule refines_settle) (auto simp: refines_router, simp_all add: refines_def)

text \<open>A router that loses the connection keeps its maps.\<close>

lemma router_refines_cut:
  assumes "router_refines st l i sv" and "ln_drop_request l' = ln_drop_request l"
    and "ln_drop_answer l' = ln_drop_answer l"
  shows "router_refines (st\<lparr>vcm_sock := -1\<rparr>) l' i (svc_cut i sv)"
proof -
  have "svc_view i (svc_cut i sv) = svc_view i sv"
    by (simp add: svc_view_def fun_eq_iff)
  then show ?thesis
    using assms by (simp add: router_refines_def)
qed

text \<open>The exchange of a router that is online.\<close>

lemma router_exchange:
  assumes ref: "refines cl sv" and on: "sv_online sv i"
    and disp: "vcm_dispatch (encode_vcm_msg msg) (cl_vcm cl) = Respond m s'"
  obtains l' where
    "vcm_handler link_api msg (cl_rts cl i) (attach i cl) =
      (if fst (sv_lossy sv i) \<or> snd (sv_lossy sv i) then (-1, msg, (cl_rts cl i)\<lparr>vcm_sock := -1\<rparr>, l')
       else (0, decode_vcm_msg m, cl_rts cl i, l'))"
    and "shared (ln_conn l') = (if fst (sv_lossy sv i) then cl_vcm cl else s')"
    and "sv_lossy sv i = (ln_drop_request l', ln_drop_answer l')"
    and "\<not> fst (sv_lossy sv i) \<and> \<not> snd (sv_lossy sv i) \<longrightarrow> link_ok l'"
proof -
  note r = refines_router [OF ref, of i]
  have "link_ok (attach i cl)" "vcm_sock (cl_rts cl i) \<noteq> -1"
    and loss: "sv_lossy sv i = (ln_drop_request (attach i cl), ln_drop_answer (attach i cl))"
    using r on by (simp_all add: router_refines_def)
  then show thesis
    using vcm_handler_exact [of "attach i cl" "cl_rts cl i" msg m s'] disp that by auto
qed

lemma svc_next_unat:
  assumes ref: "refines cl sv" and room: "vcm_room (cl_vcm cl)"
  shows "vcm_vid (cl_vcm cl) + 1 = word_of_nat (Suc (length (sv_nodes sv)))"
    and "unat (vcm_vid (cl_vcm cl) + 1) = Suc (length (sv_nodes sv))"
proof -
  have "length (vcm_abs (cl_vcm cl)) = length (sv_nodes sv)"
    using ref by (simp add: refines_def)
  then have n: "unat (vcm_vid (cl_vcm cl)) = length (sv_nodes sv)"
    by simp
  then show "unat (vcm_vid (cl_vcm cl) + 1) = Suc (length (sv_nodes sv))"
    using vcm_room_unat [OF room] by simp
  have "word_of_nat (Suc (unat (vcm_vid (cl_vcm cl)))) = vcm_vid (cl_vcm cl) + 1"
    by simp
  then show "vcm_vid (cl_vcm cl) + 1 = word_of_nat (Suc (length (sv_nodes sv)))"
    by (simp only: n)
qed

text \<open>A number that has just been given out enters the maps of its router.\<close>

lemma router_refines_joined:
  assumes r: "router_refines st l i sv" and l': "link_ok l'" "ln_drop_request l' = ln_drop_request l"
      "ln_drop_answer l' = ln_drop_answer l"
    and on: "sv_online sv i" and v: "unat v = Suc (length (sv_nodes sv))"
  shows "router_refines (st\<lparr>cid_vid_map := (cid_vid_map st)(cid \<mapsto> v),
      vid_nid_map_cache := umap_insert v nid (vid_nid_map_cache st)\<rparr>) l' i
    (svc_enter i cid v (svc_learn i v (svc_grow nid sv)))" (is "router_refines _ _ _ ?sv'")
proof -
  have g: "router_refines st l i (svc_grow nid sv)"
    using r by (rule router_refines_grow)
  have unknown: "v \<notin> sv_known sv i"
    using r v by (auto simp: router_refines_def svc_issued_def)
  have node: "svc_node v (svc_grow nid sv) = nid" and issued: "svc_issued v (svc_grow nid sv)"
    using v by (simp_all add: svc_node_def svc_issued_def spec_resolve_def)
  have "umap_insert v nid (vid_nid_map_cache st) = svc_view i ?sv'"
  proof
    fix k
    show "umap_insert v nid (vid_nid_map_cache st) k = svc_view i ?sv' k"
      using g unknown node by (auto simp: router_refines_def svc_view_def umap_insert_apply split: if_splits)
  qed
  then show ?thesis
    using g l' on issued by (auto simp: router_refines_def)
qed

lemma svc_join_new:
  assumes ref: "refines cl sv" and room: "vcm_room (cl_vcm cl)"
    and new: "sv_members sv i cid = None" "sv_online sv i"
  shows "\<exists>st' l'. vcm_join link_api (cl_nids cl i) cid (cl_rts cl i) (attach i cl) =
      (fst (svc_join (cl_nids cl i) i cid sv), st', l') \<and>
    refines (settle i st' l' cl) (snd (svc_join (cl_nids cl i) i cid sv))"
proof -
  let ?st = "cl_rts cl i" and ?n = "cl_nids cl i"
  let ?lost = "fst (sv_lossy sv i) \<or> snd (sv_lossy sv i)"
  note r = refines_router [OF ref, of i]
  have inv: "vcm_inv (cl_vcm cl)" and abs: "vcm_abs (cl_vcm cl) = sv_nodes sv"
    using ref by (simp_all add: refines_def)
  have none: "cid_vid_map ?st cid = None"
    using r new(1) by (simp add: router_refines_def)
  obtain v s' where reg: "get_new_vid ?n (cl_vcm cl) = (v, s')"
    by (metis prod.exhaust)
  obtain m where d: "vcm_dispatch (encode_vcm_msg \<lparr>vm_func_code = NID_VID, vm_id = ?n\<rparr>) (cl_vcm cl) = Respond m s'"
    and dec: "decode_vcm_msg m = \<lparr>vm_func_code = NID_VID, vm_id = v\<rparr>"
    using vcm_dispatch_register [OF reg] by blast
  obtain l' where h: "vcm_handler link_api \<lparr>vm_func_code = NID_VID, vm_id = ?n\<rparr> ?st (attach i cl) =
      (if ?lost then (-1, \<lparr>vm_func_code = NID_VID, vm_id = ?n\<rparr>, ?st\<lparr>vcm_sock := -1\<rparr>, l')
       else (0, decode_vcm_msg m, ?st, l'))"
    and sh: "shared (ln_conn l') = (if fst (sv_lossy sv i) then cl_vcm cl else s')"
    and drops: "sv_lossy sv i = (ln_drop_request l', ln_drop_answer l')" and ok': "\<not> ?lost \<longrightarrow> link_ok l'"
    using router_exchange [OF ref new(2) d] by auto
  have v: "v = word_of_nat (Suc (length (sv_nodes sv)))" "unat v = Suc (length (sv_nodes sv))"
    using get_new_vid_eq [OF inv room, of ?n] reg svc_next_unat [OF ref room] by (metis prod.inject)+
  have s': "vcm_inv s'" "vcm_abs s' = sv_nodes sv @ [?n]"
    using get_new_vid_inv [OF inv room reg] get_new_vid_abs [OF inv room reg] abs by (simp_all add: spec_register_def)
  define st' where "st' = (if ?lost then ?st\<lparr>vcm_sock := -1\<rparr>
      else ?st\<lparr>cid_vid_map := (cid_vid_map ?st)(cid \<mapsto> v),
        vid_nid_map_cache := umap_insert v ?n (vid_nid_map_cache ?st)\<rparr>)"
  have "vcm_join link_api ?n cid ?st (attach i cl) = (fst (svc_join ?n i cid sv), st', l')"
    using none h dec new v(1) by (auto simp: vcm_join_def svc_join_def st'_def Let_def simp del: of_nat_Suc)
  moreover have own: "router_refines st' l' i (snd (svc_join ?n i cid sv))"
    using new drops ok' v router_refines_cut [OF r] router_refines_cut [OF router_refines_grow [OF r]]
      router_refines_joined [OF r _ _ _ new(2) v(2)] r
    by (auto simp: st'_def svc_join_def Let_def router_refines_def [of _ "attach i cl"] simp del: of_nat_Suc)
  moreover have "refines (settle i st' l' cl) (snd (svc_join ?n i cid sv))"
    by (rule refines_settle [OF ref _ _ own])
      (use sh inv abs s' new in \<open>auto simp: svc_join_def Let_def\<close>)
  ultimately show ?thesis
    by blast
qed

lemma svc_join_refines:
  assumes ref: "refines cl sv" and room: "vcm_room (cl_vcm cl)"
  shows "\<exists>st' l'. vcm_join link_api (cl_nids cl i) cid (cl_rts cl i) (attach i cl) =
      (fst (svc_join (cl_nids cl i) i cid sv), st', l') \<and>
    refines (settle i st' l' cl) (snd (svc_join (cl_nids cl i) i cid sv))"
proof (cases "sv_members sv i cid = None \<and> sv_online sv i")
  case True
  then show ?thesis
    using svc_join_new [OF assms] by blast
next
  case False
  then have "vcm_join link_api (cl_nids cl i) cid (cl_rts cl i) (attach i cl) =
      (fst (svc_join (cl_nids cl i) i cid sv), cl_rts cl i, attach i cl) \<and>
    snd (svc_join (cl_nids cl i) i cid sv) = sv"
    using refines_router [OF ref, of i]
    by (auto simp: router_refines_def vcm_join_def svc_join_def vcm_handler_no_socket split: option.split)
  then show ?thesis
    using refines_same [OF ref] by auto
qed

text \<open>An answer of the vcm enters the cache of the router that asked.\<close>

lemma router_refines_resolved:
  assumes r: "router_refines st l i sv" and l': "link_ok l'" "ln_drop_request l' = ln_drop_request l"
      "ln_drop_answer l' = ln_drop_answer l"
    and on: "sv_online sv i" and new: "v \<notin> sv_early sv i" "v \<notin> sv_known sv i"
  shows "router_refines (st\<lparr>vid_nid_map_cache := (vid_nid_map_cache st)(v \<mapsto> svc_node v sv)\<rparr>) l' i
    (if svc_issued v sv then svc_learn i v sv else svc_miss i v sv)" (is "router_refines _ _ _ ?sv'")
proof -
  have "svc_node v sv = -1" if "\<not> svc_issued v sv"
    using that by (auto simp: svc_node_def svc_issued_def spec_resolve_def)
  then have "(svc_view i sv)(v \<mapsto> svc_node v sv) = svc_view i ?sv'"
    using new by (auto simp: svc_view_def fun_eq_iff)
  then show ?thesis
    using r l' on by (auto simp: router_refines_def)
qed

lemma svc_resolve_new:
  assumes ref: "refines cl sv"
    and new: "v \<notin> sv_early sv i" "v \<notin> sv_known sv i" and on: "sv_online sv i"
  shows "\<exists>st' l'. vcm_vid_nid link_api v (cl_rts cl i) (attach i cl) = (fst (svc_resolve i v sv), st', l') \<and>
    refines (settle i st' l' cl) (snd (svc_resolve i v sv))"
proof -
  let ?st = "cl_rts cl i" and ?lost = "fst (sv_lossy sv i) \<or> snd (sv_lossy sv i)"
  note r = refines_router [OF ref, of i]
  have inv: "vcm_inv (cl_vcm cl)" and abs: "vcm_abs (cl_vcm cl) = sv_nodes sv"
    using ref by (simp_all add: refines_def)
  have node: "get_nid_by_vid v (cl_vcm cl) = svc_node v sv"
    using get_nid_by_vid_refines [OF inv] abs by (simp add: svc_node_def)
  have miss: "svc_node v sv = -1" if "\<not> svc_issued v sv"
    using that by (auto simp: svc_node_def svc_issued_def spec_resolve_def)
  have none: "vid_nid_map_cache ?st v = None"
    using r new by (simp add: router_refines_def svc_view_def)
  obtain m where d: "vcm_dispatch (encode_vcm_msg \<lparr>vm_func_code = VID_NID, vm_id = v\<rparr>) (cl_vcm cl) = Respond m (cl_vcm cl)"
    and dec: "decode_vcm_msg m = \<lparr>vm_func_code = VID_NID, vm_id = get_nid_by_vid v (cl_vcm cl)\<rparr>"
    using vcm_dispatch_lookup by blast
  obtain l' where h: "vcm_handler link_api \<lparr>vm_func_code = VID_NID, vm_id = v\<rparr> ?st (attach i cl) =
      (if ?lost then (-1, \<lparr>vm_func_code = VID_NID, vm_id = v\<rparr>, ?st\<lparr>vcm_sock := -1\<rparr>, l')
       else (0, decode_vcm_msg m, ?st, l'))"
    and sh: "shared (ln_conn l') = cl_vcm cl"
    and drops: "sv_lossy sv i = (ln_drop_request l', ln_drop_answer l')" and ok': "\<not> ?lost \<longrightarrow> link_ok l'"
    using router_exchange [OF ref on d] by auto
  define st' where "st' = (if ?lost then ?st\<lparr>vcm_sock := -1\<rparr>
      else ?st\<lparr>vid_nid_map_cache := (vid_nid_map_cache ?st)(v \<mapsto> svc_node v sv)\<rparr>)"
  have "vcm_vid_nid link_api v ?st (attach i cl) = (fst (svc_resolve i v sv), st', l')"
    using none h dec new on node miss by (auto simp: vcm_vid_nid_def svc_resolve_def st'_def)
  moreover have own: "router_refines st' l' i (snd (svc_resolve i v sv))"
    using new on drops ok' router_refines_cut [OF r] router_refines_resolved [OF r _ _ _ on new] r
    by (auto simp: st'_def svc_resolve_def router_refines_def [of _ "attach i cl"] split: if_splits)
  moreover have "refines (settle i st' l' cl) (snd (svc_resolve i v sv))"
    by (rule refines_settle [OF ref _ _ own]) (use sh inv abs in \<open>auto simp: svc_resolve_def\<close>)
  ultimately show ?thesis
    by blast
qed

lemma svc_resolve_refines:
  assumes ref: "refines cl sv"
  shows "\<exists>st' l'. vcm_vid_nid link_api v (cl_rts cl i) (attach i cl) = (fst (svc_resolve i v sv), st', l') \<and>
    refines (settle i st' l' cl) (snd (svc_resolve i v sv))"
proof (cases "v \<notin> sv_early sv i \<and> v \<notin> sv_known sv i \<and> sv_online sv i")
  case True
  then show ?thesis
    using svc_resolve_new [OF ref] by blast
next
  case False
  then have "vcm_vid_nid link_api v (cl_rts cl i) (attach i cl) =
      (fst (svc_resolve i v sv), cl_rts cl i, attach i cl) \<and> snd (svc_resolve i v sv) = sv"
    using refines_router [OF ref, of i]
    by (auto simp: router_refines_def vcm_vid_nid_def svc_resolve_def svc_view_def vcm_handler_no_socket
        split: option.split)
  then show ?thesis
    using refines_same [OF ref] by auto
qed

lemma svc_number_refines:
  "refines cl sv \<Longrightarrow> vcm_get_node_id cid (cl_rts cl i) = svc_number i cid sv"
  by (simp add: refines_def router_refines_def vcm_get_node_id_def svc_number_def)

lemma svc_loss_refines:
  assumes "refines cl sv"
  shows "refines (cluster_step (Faults i q a) cl) (svc_loss i q a sv)"
proof -
  have r: "router_refines (cl_rts cl j) (cl_links cl j) j sv" for j
    using assms by (simp add: refines_def)
  have "svc_view j (svc_loss i q a sv) = svc_view j sv" for j
    by (simp add: svc_view_def fun_eq_iff)
  then show ?thesis
    using assms r by (auto simp: refines_def router_refines_def link_ok_def)
qed

end
