(* ===== verification/System.thy ===== *)
theory System
  imports Worlds Service
begin

text \<open>
  The whole of freelite: one vcm, any number of routers, on every node any number of
  processes in containers that call the client library. A process connects to the router of
  its node with its first call. The state has the vcm, the routers with their links
  (\<open>cluster\<close>), the kernel module of all nodes as one parameter \<open>'k\<close>, and for each process its
  library state and the connection thread that the router runs for it. The specification is
  the abstract service of \<open>Service\<close> next to the same kernel; \<open>sys_ok\<close> relates the two, and
  every call keeps it.
\<close>

section \<open>Calls of the library\<close>

datatype lite_call =
    Call_join "byte list" c_int c_int
  | Call_node_id
  | Call_alloc c_int c_int bool c_int
  | Call_query c_int c_int
  | Call_write c_int c_ptr c_int c_int c_int
  | Call_read c_int c_ptr c_int c_int c_int
  | Call_reply c_ptr c_int c_long
  | Call_barrier c_int
  | Call_shm_alloc "byte list" c_long c_ptr
  | Call_shm_free "byte list" c_long c_ptr

text \<open>
  The result of \<open>alloc_local_mem\<close> is its return value; the third argument of the call is the
  address of the caller's variable.
\<close>

fun lite_stub ::
  "'w client_env \<Rightarrow> stack \<Rightarrow> lite_call \<Rightarrow> 'w client_shared \<Rightarrow> (c_int \<times> 'w client_shared) option" where
  "lite_stub env stk (Call_join addr eth ib) s = c_join env addr eth ib stk s"
| "lite_stub env stk Call_node_id s = Some (c_get_node_id env stk s)"
| "lite_stub env stk (Call_alloc v sz fl pw) s = Some (c_alloc_remote_mem env v sz fl pw stk s)"
| "lite_stub env stk (Call_query v port) s = Some (c_query_port env v port stk s)"
| "lite_stub env stk (Call_write h ad sz off pw) s = Some (c_rdma_write env h ad sz off pw stk s)"
| "lite_stub env stk (Call_read h ad sz off pw) s = Some (c_rdma_read env h ad sz off pw stk s)"
| "lite_stub env stk (Call_reply ad sz d) s = Some (c_reply_message env ad sz d stk s)"
| "lite_stub env stk (Call_barrier num) s = Some (c_dist_barrier env num stk s)"
| "lite_stub env stk (Call_shm_alloc nm sz la) s =
     map_option (\<lambda>(out, s'). (ao_ret out, s')) (c_alloc_local_mem env nm sz la stk s)"
| "lite_stub env stk (Call_shm_free nm sz ra) s = c_free_local_mem env nm sz ra stk s"

text \<open>
  The stub's objects have their sizes, the address of a join stays in the request, and names
  of shared memory have up to 255 bytes.
\<close>

fun call_ok :: "stack \<Rightarrow> lite_call \<Rightarrow> bool" where
  "call_ok stk (Call_join addr eth ib) = (stack_ok stk \<and> length addr \<le> 272)"
| "call_ok stk (Call_shm_alloc nm sz la) = (stack_ok stk \<and> is_cstr nm \<and> length nm < 256)"
| "call_ok stk (Call_shm_free nm sz ra) = (stack_ok stk \<and> is_cstr nm \<and> length nm < 256)"
| "call_ok stk _ = stack_ok stk"

lemma call_ok_stack: "call_ok stk c \<Longrightarrow> stack_ok stk"
  by (cases c) auto

section \<open>The system\<close>

record 'k config =
  cf_nid :: "nat \<Rightarrow> c_int"
  cf_os :: "nat \<Rightarrow> 'k lite_os"
  cf_shm :: "nat \<Rightarrow> 'k shm_api"
  cf_rsp_addr :: "nat \<Rightarrow> nat \<Rightarrow> c_ptr"
  cf_proc :: "nat \<Rightarrow> nat \<Rightarrow> process"

type_synonym 'k node_world = "link \<times> 'k"

definition node_env :: "'k config \<Rightarrow> nat \<Rightarrow> nat \<Rightarrow> 'k node_world router_env" where
  "node_env cfg i p = \<lparr>re_sock = sock_fst link_api, re_lite = os_snd (cf_os cfg i),
     re_shm = shm_snd (cf_shm cfg i), re_no_container = False, re_nid = cf_nid cfg i,
     re_rsp_addr = cf_rsp_addr cfg i p\<rparr>"

text \<open>A process and its router share the node's POSIX shared memory.\<close>

definition with_kernel ::
  "('k \<Rightarrow> 'r \<times> 'k) \<Rightarrow> 'k node_world rlink \<Rightarrow> 'r \<times> 'k node_world rlink" where
  "with_kernel f l =
     (case shared (sk_conn l) of (rt, (vl, k)) \<Rightarrow>
        case f k of (r, k') \<Rightarrow> (r, l\<lparr>sk_conn := (sk_conn l)\<lparr>shared := (rt, (vl, k'))\<rparr>\<rparr>))"

definition node_shm :: "'k shm_api \<Rightarrow> 'k node_world rlink shm_api" where
  "node_shm api = \<lparr>sh_open = (\<lambda>n c. with_kernel (sh_open api n c)),
     sh_ftruncate = (\<lambda>fd n. with_kernel (sh_ftruncate api fd n)),
     sh_mmap = (\<lambda>n fd. with_kernel (sh_mmap api n fd)),
     sh_munmap = (\<lambda>a n. with_kernel (sh_munmap api a n)), sh_unlink = (\<lambda>n. with_kernel (sh_unlink api n))\<rparr>"

definition box_env :: "'k config \<Rightarrow> nat \<Rightarrow> nat \<Rightarrow> 'k node_world dialed client_env" where
  "box_env cfg i p = proc_env (node_env cfg i p) (node_shm (cf_shm cfg i)) (cf_proc cfg i p)"

record 'k system =
  sy_cluster :: cluster
  sy_kernel :: 'k
  sy_clients :: "nat \<Rightarrow> nat \<Rightarrow> client_state \<times> 'k node_world dialed"

text \<open>A call runs on the state of its process, its router and what they share with the others.\<close>

definition sys_load :: "nat \<Rightarrow> nat \<Rightarrow> 'k system \<Rightarrow> client_state \<times> 'k node_world dialed" where
  "sys_load i p sy =
     (case sy_clients sy i p of (cs, (l, path)) \<Rightarrow>
        (cs, (l\<lparr>sk_conn := (sk_conn l)\<lparr>shared :=
               (cl_rts (sy_cluster sy) i, (attach i (sy_cluster sy), sy_kernel sy))\<rparr>\<rparr>, path)))"

definition sys_store :: "nat \<Rightarrow> nat \<Rightarrow> client_state \<times> 'k node_world dialed \<Rightarrow> 'k system \<Rightarrow> 'k system" where
  "sys_store i p s sy =
     (case shared (sk_conn (fst (snd s))) of (rt, (vl, k)) \<Rightarrow>
        \<lparr>sy_cluster = settle i rt vl (sy_cluster sy), sy_kernel = k,
         sy_clients = (sy_clients sy)(i := (sy_clients sy i)(p := s))\<rparr>)"

text \<open>
  A process that ends closes its socket, on which its thread leaves its loop; the next process
  in its place starts without a connection.
\<close>

definition proc_exit ::
  "'w router_env \<Rightarrow> client_state \<times> 'w dialed \<Rightarrow> client_state \<times> 'w dialed" where
  "proc_exit renv s =
     (client_init, if client_sock (fst s) = -1 then snd s
                   else so_close (dial_api renv) (client_sock (fst s)) (snd s))"

text \<open>\<open>Lose i q a\<close>: from now on the exchanges of router \<open>i\<close> lose their request (\<open>q\<close>) or answer (\<open>a\<close>).\<close>

datatype sys_event = Lite_Call nat nat stack lite_call | Exit nat nat | Lose nat bool bool

fun sys_step :: "'k config \<Rightarrow> sys_event \<Rightarrow> 'k system \<Rightarrow> c_int option \<times> 'k system" where
  "sys_step cfg (Lite_Call i p stk c) sy =
     (case lite_stub (box_env cfg i p) stk c (sys_load i p sy) of
        None \<Rightarrow> (None, sy)
      | Some (r, s) \<Rightarrow> (Some r, sys_store i p s sy))"
| "sys_step cfg (Exit i p) sy =
     (None, sy\<lparr>sy_clients := (sy_clients sy)(i := (sy_clients sy i)
        (p := proc_exit (node_env cfg i p) (sys_load i p sy)))\<rparr>)"
| "sys_step cfg (Lose i q a) sy =
     (None, sy\<lparr>sy_cluster := cluster_step (Faults i q a) (sy_cluster sy)\<rparr>)"

fun sys_run :: "'k config \<Rightarrow> sys_event list \<Rightarrow> 'k system \<Rightarrow> c_int option list \<times> 'k system" where
  "sys_run cfg [] sy = ([], sy)"
| "sys_run cfg (e # es) sy =
     (case sys_step cfg e sy of (r, sy1) \<Rightarrow>
        case sys_run cfg es sy1 of (rs, sy2) \<Rightarrow> (r # rs, sy2))"

text \<open>The start: connected routers, processes that have not called yet.\<close>

definition no_link :: "'k \<Rightarrow> 'k node_world rlink" where
  "no_link k = \<lparr>sk_conn = hangup (open_conn \<lparr>rl_req = replicate sizeof_rpc_req_msg 0,
       rl_rsp = replicate sizeof_rpc_rsp_msg 0, rl_cid = []\<rparr> (routing_init, (link_new vcm_init, k))),
     sk_read = 0\<rparr>"

definition sys_init :: "'k config \<Rightarrow> 'k \<Rightarrow> 'k system" where
  "sys_init cfg k = \<lparr>sy_cluster = cluster_init (cf_nid cfg), sy_kernel = k,
     sy_clients = (\<lambda>i p. (client_init, (no_link k, [])))\<rparr>"

section \<open>The specification\<close>

text \<open>A call that reaches the kernel of the caller's node, as it is or for a resolved node.\<close>

definition svc_kernel :: "('k \<Rightarrow> c_int \<times> 'k) \<Rightarrow> service \<times> 'k \<Rightarrow> c_int \<times> service \<times> 'k" where
  "svc_kernel f x = (case f (snd x) of (r, k) \<Rightarrow> (r, (fst x, k)))"

definition svc_remote ::
  "nat \<Rightarrow> c_int \<Rightarrow> (c_int \<Rightarrow> 'k \<Rightarrow> c_int \<times> 'k) \<Rightarrow> service \<times> 'k \<Rightarrow> c_int \<times> service \<times> 'k" where
  "svc_remote i v f x =
     (case svc_resolve i v (fst x) of (n, sv) \<Rightarrow> svc_kernel (f n) (sv, snd x))"

text \<open>
  Shared memory: the router creates, sizes and maps the object, then the process opens and
  maps it, on the shared memory of the same node.
\<close>

definition svc_shm_alloc ::
  "'k shm_api \<Rightarrow> byte list \<Rightarrow> c_long \<Rightarrow> c_ptr \<Rightarrow> 'k \<Rightarrow> c_int \<times> 'k" where
  "svc_shm_alloc api nm sz la k =
     (case alloc_shm_mem api nm sz k of (r, _, k1) \<Rightarrow>
        if r \<noteq> 0 then (-1, k1)
        else case sh_open api nm False k1 of (fd, k2) \<Rightarrow>
          if fd < 0 then (-1, k2)
          else case sh_mmap api sz fd k2 of (_, k3) \<Rightarrow> (if la = MAP_FAILED then -1 else 0, k3))"

fun svc_call ::
  "'k config \<Rightarrow> nat \<Rightarrow> string \<Rightarrow> lite_call \<Rightarrow> service \<times> 'k \<Rightarrow> c_int \<times> service \<times> 'k" where
  "svc_call cfg i cid (Call_join addr eth ib) x =
     (case svc_join (cf_nid cfg i) i cid (fst x) of (v, sv) \<Rightarrow> (v, (sv, snd x)))"
| "svc_call cfg i cid Call_node_id x = (svc_number i cid (fst x), x)"
| "svc_call cfg i cid (Call_alloc v sz fl pw) x =
     svc_remote i v (\<lambda>n. lite_alloc_remote_mem (cf_os cfg i) n sz fl pw) x"
| "svc_call cfg i cid (Call_query v port) x = svc_remote i v (\<lambda>n. lite_query_port (cf_os cfg i) n port) x"
| "svc_call cfg i cid (Call_write h ad sz off pw) x = svc_kernel (lite_rdma_write (cf_os cfg i) h ad sz off pw) x"
| "svc_call cfg i cid (Call_read h ad sz off pw) x = svc_kernel (lite_rdma_read (cf_os cfg i) h ad sz off pw) x"
| "svc_call cfg i cid (Call_reply ad sz d) x = svc_kernel (lite_reply_message (cf_os cfg i) ad sz d) x"
| "svc_call cfg i cid (Call_barrier num) x = svc_kernel (lite_dist_barrier (cf_os cfg i) num) x"
| "svc_call cfg i cid (Call_shm_alloc nm sz la) x = svc_kernel (svc_shm_alloc (cf_shm cfg i) nm sz la) x"
| "svc_call cfg i cid (Call_shm_free nm sz ra) x = svc_kernel (free_shm_mem (cf_shm cfg i) nm sz ra) x"

fun svc_step :: "'k config \<Rightarrow> sys_event \<Rightarrow> service \<times> 'k \<Rightarrow> c_int option \<times> service \<times> 'k" where
  "svc_step cfg (Lite_Call i p stk c) x =
     (case svc_call cfg i (proc_ident (cf_proc cfg i p)) c x of (r, x') \<Rightarrow> (Some r, x'))"
| "svc_step cfg (Exit i p) x = (None, x)"
| "svc_step cfg (Lose i q a) x = (None, (svc_loss i q a (fst x), snd x))"

fun svc_run :: "'k config \<Rightarrow> sys_event list \<Rightarrow> service \<times> 'k \<Rightarrow> c_int option list \<times> service \<times> 'k" where
  "svc_run cfg [] x = ([], x)"
| "svc_run cfg (e # es) x =
     (case svc_step cfg e x of (r, x1) \<Rightarrow> case svc_run cfg es x1 of (rs, x2) \<Rightarrow> (r # rs, x2))"

section \<open>The relation between the two\<close>

definition client_ok :: "process \<Rightarrow> client_state \<times> 'k node_world dialed \<Rightarrow> bool" where
  "client_ok pr s = (client_sock (fst s) = -1 \<or>
     rlink_ready (fst s, fst (snd s)) \<and> rl_cid (locals (sk_conn (fst (snd s)))) = proc_ident pr)"

definition sys_ok :: "'k config \<Rightarrow> 'k system \<Rightarrow> service \<times> 'k \<Rightarrow> bool" where
  "sys_ok cfg sy x =
     (refines (sy_cluster sy) (fst x) \<and> cl_nids (sy_cluster sy) = cf_nid cfg \<and> sy_kernel sy = snd x \<and>
      (\<forall>i p. client_ok (cf_proc cfg i p) (sy_clients sy i p)))"

fun event_ok :: "'k config \<Rightarrow> sys_event \<Rightarrow> bool" where
  "event_ok cfg (Lite_Call i p stk c) = (proc_ok (cf_proc cfg i p) \<and> call_ok stk c)"
| "event_ok cfg _ = True"

lemma sys_ok_init: "sys_ok cfg (sys_init cfg k) (svc_init, k)"
  by (simp add: sys_ok_def sys_init_def refines_init client_ok_def client_init_def)
    (simp add: cluster_init_def)

text \<open>A stub of a process is the stub of the client it is once connected.\<close>

lemma call_int_dialed:
  assumes "proc_ok pr" and "proc_conn renv pr s = (cs, (l, p))"
  shows "call_int (proc_env renv shm pr) req buf s =
     (case call_int (on_router renv env) req buf (cs, l) of (r, (cs', l')) \<Rightarrow> (r, (cs', (l', p))))"
  by (simp add: call_int_def rpc_handler_dialed [OF assms, of shm req buf env] split: prod.split)

lemma alloc_tail_dialed:
  "alloc_local_mem_tail (proc_env renv (ce_shm env) pr) nm sz la rsp (cs, (l, p)) =
     (case alloc_local_mem_tail (on_router renv env) nm sz la rsp (cs, l) of (out, (cs', l')) \<Rightarrow> (out, (cs', (l', p))))"
  by (simp add: alloc_local_mem_tail_def proc_env_def shm_fst_def with_fst_def on_router_def linked_def
      split: prod.split)

lemma alloc_local_dialed:
  assumes "proc_ok pr" and "proc_conn renv pr s = (cs, (l, p))"
  shows "c_alloc_local_mem (proc_env renv (ce_shm env) pr) nm sz la stk s =
     map_option (\<lambda>(out, (cs', l')). (out, (cs', (l', p)))) (c_alloc_local_mem (on_router renv env) nm sz la stk (cs, l))"
proof (cases "req_alloc_local_mem nm sz (stk_req stk)")
  case (Some req)
  obtain r out cs1 l1 where "rpc_handler (on_router renv env) req (stk_rsp stk) (cs, l) = (r, out, (cs1, l1))"
    by (metis prod.exhaust)
  then show ?thesis
    by (simp add: c_alloc_local_mem_def Some rpc_handler_dialed [OF assms, of "ce_shm env" _ _ env] alloc_tail_dialed)
qed (simp add: c_alloc_local_mem_def)

lemma lite_stub_dialed:
  assumes "proc_ok pr" and "proc_conn renv pr s = (cs, (l, p))"
  shows "lite_stub (proc_env renv (ce_shm env) pr) stk c s =
     map_option (\<lambda>(r, (cs', l')). (r, (cs', (l', p)))) (lite_stub (on_router renv env) stk c (cs, l))"
proof -
  note d = call_int_dialed [OF assms, of "ce_shm env" _ _ env]
  show ?thesis
    by (cases c)
      (simp_all add: c_join_def c_get_node_id_def c_alloc_remote_mem_def c_query_port_def c_rdma_write_def
        c_rdma_read_def c_reply_message_def c_dist_barrier_def c_free_local_mem_def alloc_local_dialed [OF assms] d
        option.map_comp comp_def case_prod_beta)
qed

section \<open>Every call refines its specification\<close>

text \<open>
  A call of a connected client delivers an outcome of the specification: its result, the
  kernel it leaves, and a router whose maps refine the service it leaves.
\<close>

definition delivers ::
  "('k node_world rlink client_shared \<Rightarrow> (c_int \<times> 'k node_world rlink client_shared) option) \<Rightarrow>
   client_state \<times> 'k node_world rlink \<Rightarrow> nat \<Rightarrow> cluster \<Rightarrow> c_int \<times> service \<times> 'k \<Rightarrow> bool" where
  "delivers stub s i cl out =
     (\<exists>l' rt vl. stub s = Some (fst out, (fst s, l')) \<and> rlink_ready (fst s, l') \<and>
        rl_cid (locals (sk_conn l')) = rl_cid (locals (sk_conn (snd s))) \<and>
        shared (sk_conn l') = (rt, (vl, snd (snd out))) \<and> refines (settle i rt vl cl) (fst (snd out)))"

lemma deliversI:
  assumes "stub (cs, l) = Some (r, (cs, l'))" and "rlink_ready (cs, l')"
    and "rl_cid (locals (sk_conn l')) = rl_cid (locals (sk_conn l))" and "shared (sk_conn l') = (rt, (vl, k))"
    and "refines (settle i rt vl cl) sv"
  shows "delivers stub (cs, l) i cl (r, (sv, k))"
  unfolding delivers_def using assms by (intro exI [of _ l'] exI [of _ rt] exI [of _ vl]) simp

lemma carried_delivers:
  assumes "carried stub (cs, l) rt (r, (vl, k))" and "refines (settle i rt vl cl) sv"
  shows "delivers (\<lambda>s. Some (stub s)) (cs, l) i cl (r, (sv, k))"
  using assms by (auto simp: carried_def delivers_def)

lemma lite_stub_fun:
  "lite_stub env stk (Call_join addr eth ib) = c_join env addr eth ib stk"
  "lite_stub env stk Call_node_id = (\<lambda>s. Some (c_get_node_id env stk s))"
  "lite_stub env stk (Call_alloc v sz fl pw) = (\<lambda>s. Some (c_alloc_remote_mem env v sz fl pw stk s))"
  "lite_stub env stk (Call_query v port) = (\<lambda>s. Some (c_query_port env v port stk s))"
  "lite_stub env stk (Call_write h ad sz off pw) = (\<lambda>s. Some (c_rdma_write env h ad sz off pw stk s))"
  "lite_stub env stk (Call_read h ad sz off pw) = (\<lambda>s. Some (c_rdma_read env h ad sz off pw stk s))"
  "lite_stub env stk (Call_reply ad sz d) = (\<lambda>s. Some (c_reply_message env ad sz d stk s))"
  "lite_stub env stk (Call_barrier num) = (\<lambda>s. Some (c_dist_barrier env num stk s))"
  "lite_stub env stk (Call_shm_alloc nm len la) =
     (\<lambda>s. map_option (\<lambda>(out, s'). (ao_ret out, s')) (c_alloc_local_mem env nm len la stk s))"
  "lite_stub env stk (Call_shm_free nm len ra) = c_free_local_mem env nm len ra stk"
  by (simp_all add: fun_eq_iff)

lemma kernel_delivers:
  assumes c: "carried stub (cs, l) rt (with_snd f (vl, k))" and ref: "refines (settle i rt vl cl) sv"
  shows "delivers (\<lambda>s. Some (stub s)) (cs, l) i cl (svc_kernel f (sv, k))"
proof -
  obtain r k' where f: "f k = (r, k')"
    by (metis prod.exhaust)
  then have "carried stub (cs, l) rt (r, (vl, k'))"
    using c by (simp add: with_snd_def)
  then have "delivers (\<lambda>s. Some (stub s)) (cs, l) i cl (r, (sv, k'))"
    using ref by (rule carried_delivers)
  then show ?thesis
    by (simp add: svc_kernel_def f)
qed

lemma node_env_simps [simp]:
  "\<not> re_no_container (node_env cfg i p)" "re_sock (node_env cfg i p) = sock_fst link_api"
  "re_lite (node_env cfg i p) = os_snd (cf_os cfg i)" "re_nid (node_env cfg i p) = cf_nid cfg i"
  by (simp_all add: node_env_def)

lemma resolve_node_refines:
  assumes "refines cl sv" and "svc_resolve i v sv = (n, sv')"
  shows "\<exists>rt vl. resolve_node (node_env cfg i p) v (cl_rts cl i, (attach i cl, k)) = (n, (rt, (vl, k))) \<and>
    refines (settle i rt vl cl) sv'"
  using svc_resolve_refines [OF assms(1), of v i] assms(2)
  by (auto simp: resolve_node_def vcm_vid_nid_fst)

lemma remote_delivers:
  assumes ref: "refines cl sv"
    and stub: "\<And>n rt vl. resolve_node (node_env cfg i p) v (cl_rts cl i, (attach i cl, k)) = (n, (rt, (vl, k))) \<Longrightarrow>
      carried stub (cs, l) rt (with_snd (f n) (vl, k))"
  shows "delivers (\<lambda>s. Some (stub s)) (cs, l) i cl (svc_remote i v f (sv, k))"
proof -
  obtain n sv' where sv': "svc_resolve i v sv = (n, sv')"
    by (metis prod.exhaust)
  obtain rt vl where r: "resolve_node (node_env cfg i p) v (cl_rts cl i, (attach i cl, k)) = (n, (rt, (vl, k)))"
    and ref': "refines (settle i rt vl cl) sv'"
    using resolve_node_refines [OF ref sv', of cfg p k] by blast
  show ?thesis
    using kernel_delivers [OF stub [OF r] ref'] by (simp add: svc_remote_def sv')
qed

lemma join_delivers:
  assumes ref: "refines cl sv" and room: "vcm_room (cl_vcm cl)" and nids: "cl_nids cl = cf_nid cfg"
    and ready: "rlink_ready (cs, l)" and stk: "stack_ok stk" and len: "length addr \<le> 272"
    and sh: "shared (sk_conn l) = (cl_rts cl i, (attach i cl, k))"
  shows "delivers (c_join (on_router (node_env cfg i p) env) addr eth ib stk) (cs, l) i cl
    (svc_call cfg i (rl_cid (locals (sk_conn l))) (Call_join addr eth ib) (sv, k))"
proof -
  let ?cid = "rl_cid (locals (sk_conn l))"
  obtain rt vl where j: "vcm_join link_api (cf_nid cfg i) ?cid (cl_rts cl i) (attach i cl) =
      (fst (svc_join (cf_nid cfg i) i ?cid sv), rt, vl)"
    and ref': "refines (settle i rt vl cl) (snd (svc_join (cf_nid cfg i) i ?cid sv))"
    using svc_join_refines [OF ref room, of i ?cid] nids by auto
  have nc: "\<not> re_no_container (node_env cfg i p)"
    and j': "vcm_join (re_sock (node_env cfg i p)) (re_nid (node_env cfg i p)) ?cid (cl_rts cl i) (attach i cl, k) =
      (fst (svc_join (cf_nid cfg i) i ?cid sv), rt, (vl, k))"
    by (simp_all add: vcm_join_fst j)
  obtain l' where "c_join (on_router (node_env cfg i p) env) addr eth ib stk (cs, l) =
      Some (fst (svc_join (cf_nid cfg i) i ?cid sv), (cs, l'))"
    and "rlink_ready (cs, l')" and "shared (sk_conn l') = (rt, (vl, k))"
    and "rl_cid (locals (sk_conn l')) = ?cid"
    by (rule carried_join [OF ready stk sh nc len j'])
  then show ?thesis
    using ref' by (auto simp: delivers_def split: prod.split)
qed

lemma node_id_delivers:
  assumes ref: "refines cl sv" and ready: "rlink_ready (cs, l)" and stk: "stack_ok stk"
    and sh: "shared (sk_conn l) = (cl_rts cl i, (attach i cl, k))"
  shows "delivers (\<lambda>s. Some (c_get_node_id (on_router (node_env cfg i p) env) stk s)) (cs, l) i cl
    (svc_number i (rl_cid (locals (sk_conn l))) sv, (sv, k))"
  using carried_get_node_id [OF ready stk sh, of "node_env cfg i p" env] refines_same [OF ref, of i]
    svc_number_refines [OF ref, of "rl_cid (locals (sk_conn l))" i]
  by (intro carried_delivers) auto

text \<open>What the client does after the router's answer, on the shared memory of the node.\<close>

lemma alloc_tail_on_node:
  assumes sh: "shared (sk_conn l) = (rt, (vl, k))" and env: "ce_shm env = node_shm api"
    and out: "get_int_rsp out = 0"
    and o: "(case sh_open api nm False k of (fd, k2) \<Rightarrow>
      if fd < 0 then (-1, k2) else case sh_mmap api sz fd k2 of (_, k3) \<Rightarrow> (if la = MAP_FAILED then -1 else 0, k3)) =
      (r', k')"
  shows "\<exists>ao. alloc_local_mem_tail (on_router renv env) nm sz la out (cs, l) =
      (ao, (cs, l\<lparr>sk_conn := (sk_conn l)\<lparr>shared := (rt, (vl, k'))\<rparr>\<rparr>)) \<and> ao_ret ao = r'"
proof -
  have "ce_shm (on_router renv env) = node_shm api"
    by (simp add: on_router_def linked_def env)
  then show ?thesis
    using o sh out by (auto simp: alloc_local_mem_tail_def node_shm_def with_kernel_def split: prod.splits if_splits)
qed

lemma shm_alloc_delivers:
  assumes ref: "refines cl sv" and ready: "rlink_ready (cs, l)" and ok: "call_ok stk (Call_shm_alloc nm sz la)"
    and sh: "shared (sk_conn l) = (cl_rts cl i, (attach i cl, k))" and env: "ce_shm env = node_shm (cf_shm cfg i)"
  shows "delivers (\<lambda>s. map_option (\<lambda>(out, s'). (ao_ret out, s'))
      (c_alloc_local_mem (on_router (node_env cfg i p) env) nm sz la stk s)) (cs, l) i cl
    (svc_kernel (svc_shm_alloc (cf_shm cfg i) nm sz la) (sv, k))"
proof -
  have stk: "stack_ok stk" and nm: "is_cstr nm" "length nm < 256"
    using ok by auto
  obtain r a k1 where al: "alloc_shm_mem (cf_shm cfg i) nm sz k = (r, a, k1)"
    by (metis prod_cases3)
  then have al': "alloc_shm_mem (re_shm (node_env cfg i p)) nm sz (attach i cl, k) = (r, a, (attach i cl, k1))"
    by (simp add: node_env_def alloc_shm_mem_snd)
  obtain req where req: "req_alloc_local_mem nm sz (stk_req stk) = Some req"
    using stk nm(2) by (auto simp: req_alloc_local_mem_def strncpy_into_def decoded stack_ok_def)
  obtain out l1 where h: "rpc_handler (on_router (node_env cfg i p) env) req (stk_rsp stk) (cs, l) = (0, out, (cs, l1))"
    and r: "get_int_rsp out = r" and l1: "rlink_ready (cs, l1)" "shared (sk_conn l1) = (cl_rts cl i, (attach i cl, k1))"
      "rl_cid (locals (sk_conn l1)) = rl_cid (locals (sk_conn l))"
    using served_alloc_local [OF ready stk sh nm al' req, of env] by (elim exE conjE) (rule that)
  have out: "get_int_rsp out = 0" if "r = 0"
    using r that by simp
  have "r = 0 \<or> r = -1"
    using alloc_shm_mem_result [OF al] by auto
  then show ?thesis
  proof
    assume "r = -1"
    then have "alloc_local_mem_tail (on_router (node_env cfg i p) env) nm sz la out (cs, l1) =
        (\<lparr>ao_ret = -1, ao_local = None, ao_remote = None\<rparr>, (cs, l1))"
      and "svc_kernel (svc_shm_alloc (cf_shm cfg i) nm sz la) (sv, k) = (-1, (sv, k1))"
      using r by (simp_all add: alloc_local_mem_tail_def svc_kernel_def svc_shm_alloc_def al)
    then show ?thesis
      using deliversI [OF _ l1(1,3,2) refines_same [OF ref]] by (simp add: c_alloc_local_mem_def req h)
  next
    assume "r = 0"
    obtain r' k' where o: "(case sh_open (cf_shm cfg i) nm False k1 of (fd, k2) \<Rightarrow>
        if fd < 0 then (-1 :: c_int, k2) else case sh_mmap (cf_shm cfg i) sz fd k2 of (_, k3) \<Rightarrow>
          (if la = MAP_FAILED then -1 else 0, k3)) = (r', k')"
      by (rule prod.exhaust)
    let ?l' = "l1\<lparr>sk_conn := (sk_conn l1)\<lparr>shared := (cl_rts cl i, (attach i cl, k'))\<rparr>\<rparr>"
    obtain ao where tail: "alloc_local_mem_tail (on_router (node_env cfg i p) env) nm sz la out (cs, l1) = (ao, (cs, ?l'))"
      and ao: "ao_ret ao = r'"
      using alloc_tail_on_node [OF l1(2) env out [OF \<open>r = 0\<close>] o, of "node_env cfg i p" cs]
      by (elim exE conjE) (rule that)
    have "svc_shm_alloc (cf_shm cfg i) nm sz la k = (r', k')"
      unfolding o [symmetric] by (simp add: svc_shm_alloc_def al \<open>r = 0\<close>)
    then have spec: "svc_kernel (svc_shm_alloc (cf_shm cfg i) nm sz la) (sv, k) = (r', (sv, k'))"
      by (simp add: svc_kernel_def)
    have "rlink_ready (cs, ?l')" and "rl_cid (locals (sk_conn ?l')) = rl_cid (locals (sk_conn l))"
      using l1(1,3) by (simp_all add: rlink_ready_def slink_ready_def)
    then show ?thesis
      unfolding spec by (intro deliversI [where l' = ?l', OF _ _ _ _ refines_same [OF ref]])
        (simp_all add: c_alloc_local_mem_def req h tail ao)
  qed
qed

lemma shm_free_delivers:
  assumes ref: "refines cl sv" and ready: "rlink_ready (cs, l)" and ok: "call_ok stk (Call_shm_free nm sz ra)"
    and sh: "shared (sk_conn l) = (cl_rts cl i, (attach i cl, k))"
  shows "delivers (c_free_local_mem (on_router (node_env cfg i p) env) nm sz ra stk) (cs, l) i cl
    (svc_kernel (free_shm_mem (cf_shm cfg i) nm sz ra) (sv, k))"
proof -
  have stk: "stack_ok stk" and nm: "is_cstr nm" "length nm < 256"
    using ok by auto
  obtain req where req: "req_free_local_mem nm sz ra (stk_req stk) = Some req"
    and c: "carried (call_int (on_router (node_env cfg i p) env) req (stk_rsp stk)) (cs, l) (cl_rts cl i)
      (free_shm_mem (re_shm (node_env cfg i p)) nm sz ra (attach i cl, k))"
    by (rule carried_free_local [OF ready stk sh nm])
  have "carried (call_int (on_router (node_env cfg i p) env) req (stk_rsp stk)) (cs, l) (cl_rts cl i)
      (with_snd (free_shm_mem (cf_shm cfg i) nm sz ra) (attach i cl, k))"
    using c by (simp add: node_env_def free_shm_mem_snd)
  then have "delivers (\<lambda>s. Some (call_int (on_router (node_env cfg i p) env) req (stk_rsp stk) s)) (cs, l) i cl
      (svc_kernel (free_shm_mem (cf_shm cfg i) nm sz ra) (sv, k))"
    using refines_same [OF ref] by (rule kernel_delivers)
  then show ?thesis
    by (simp add: delivers_def c_free_local_mem_def req)
qed

lemma call_delivers:
  assumes ref: "refines cl sv" and room: "vcm_room (cl_vcm cl)" and nids: "cl_nids cl = cf_nid cfg"
    and ready: "rlink_ready (cs, l)" and ok: "call_ok stk c"
    and sh: "shared (sk_conn l) = (cl_rts cl i, (attach i cl, k))" and env: "ce_shm env = node_shm (cf_shm cfg i)"
  shows "delivers (lite_stub (on_router (node_env cfg i p) env) stk c) (cs, l) i cl
    (svc_call cfg i (rl_cid (locals (sk_conn l))) c (sv, k))"
proof -
  note stk = call_ok_stack [OF ok] and same = refines_same [OF ref, of i]
  note carry = carried_wrappers [OF ready stk sh, of "node_env cfg i p" env, unfolded node_env_simps wrappers_snd]
  show ?thesis
  proof (cases c)
    case (Call_join addr eth ib)
    with ok show ?thesis
      using join_delivers [OF ref room nids ready stk _ sh, where p = p]
      by (simp add: lite_stub_fun)
  next
    case Call_node_id
    then show ?thesis
      using node_id_delivers [OF ref ready stk sh] by (simp add: lite_stub_fun)
  next
    case (Call_alloc v sz fl pw)
    have "carried (c_alloc_remote_mem (on_router (node_env cfg i p) env) v sz fl pw stk) (cs, l) rt
        (with_snd (lite_alloc_remote_mem (cf_os cfg i) n sz fl pw) (vl, k))"
      if "resolve_node (node_env cfg i p) v (cl_rts cl i, (attach i cl, k)) = (n, (rt, (vl, k)))" for n rt vl
      using carried_alloc_remote_mem [OF ready stk sh that] by (simp add: wrappers_snd)
    from remote_delivers [OF ref, where f = "\<lambda>n. lite_alloc_remote_mem (cf_os cfg i) n sz fl pw", OF this]
    show ?thesis
      by (simp add: lite_stub_fun Call_alloc)
  next
    case (Call_query v port)
    have "carried (c_query_port (on_router (node_env cfg i p) env) v port stk) (cs, l) rt
        (with_snd (lite_query_port (cf_os cfg i) n port) (vl, k))"
      if "resolve_node (node_env cfg i p) v (cl_rts cl i, (attach i cl, k)) = (n, (rt, (vl, k)))" for n rt vl
      using carried_query_port [OF ready stk sh that] by (simp add: wrappers_snd)
    from remote_delivers [OF ref, where f = "\<lambda>n. lite_query_port (cf_os cfg i) n port", OF this]
    show ?thesis
      by (simp add: lite_stub_fun Call_query)
  next
    case (Call_shm_alloc nm sz la)
    then show ?thesis
      using shm_alloc_delivers [OF ref ready _ sh env] ok by (simp add: lite_stub_fun)
  next
    case (Call_shm_free nm sz ra)
    then show ?thesis
      using shm_free_delivers [OF ref ready _ sh] ok by (simp add: lite_stub_fun)
  qed (simp_all add: lite_stub_fun kernel_delivers [OF carry(1) same] kernel_delivers [OF carry(2) same]
      kernel_delivers [OF carry(3) same] kernel_delivers [OF carry(4) same])
qed

section \<open>Runs\<close>

text \<open>A process that calls is connected, to a thread that takes it for its container.\<close>

lemma load_ready:
  assumes ok: "sys_ok cfg sy x" and pr: "proc_ok (cf_proc cfg i p)"
  obtains cs l path where "proc_conn (node_env cfg i p) (cf_proc cfg i p) (sys_load i p sy) = (cs, (l, path))"
    and "rlink_ready (cs, l)" and "rl_cid (locals (sk_conn l)) = proc_ident (cf_proc cfg i p)"
    and "shared (sk_conn l) = (cl_rts (sy_cluster sy) i, (attach i (sy_cluster sy), snd x))"
proof -
  obtain cs0 l0 p0 where c: "sy_clients sy i p = (cs0, (l0, p0))"
    by (metis prod.exhaust)
  let ?l = "l0\<lparr>sk_conn := (sk_conn l0)\<lparr>shared := (cl_rts (sy_cluster sy) i, (attach i (sy_cluster sy), snd x))\<rparr>\<rparr>"
  have load: "sys_load i p sy = (cs0, (?l, p0))"
    using ok by (simp add: sys_load_def c sys_ok_def)
  have "client_ok (cf_proc cfg i p) (cs0, (l0, p0))"
    using ok c by (metis sys_ok_def)
  then consider (fresh) "client_sock cs0 = -1"
    | (ready) "client_sock cs0 \<noteq> -1" "rlink_ready (cs0, l0)" "rl_cid (locals (sk_conn l0)) = proc_ident (cf_proc cfg i p)"
    by (auto simp: client_ok_def rlink_ready_def slink_ready_def)
  then show thesis
  proof cases
    case fresh
    then show thesis
      using that dial_ready [OF pr, of "node_env cfg i p" ?l] by (simp add: load proc_conn_def)
  next
    case ready
    then show thesis
      using that [of cs0 ?l p0] by (simp add: load proc_conn_def rlink_ready_def slink_ready_def)
  qed
qed

lemma refines_room: "refines cl sv \<Longrightarrow> Suc (length (sv_nodes sv)) < 2 ^ 31 \<Longrightarrow> vcm_room (cl_vcm cl)"
  by (metis refines_def length_vcm_abs vcm_room_def)

text \<open>A client that is connected already; its other calls of the operating system are not used.\<close>

definition link_env :: "'k config \<Rightarrow> nat \<Rightarrow> 'k node_world rlink client_env" where
  "link_env cfg i = \<lparr>ce_sock = slink_api (\<lambda>_ c. c), ce_shm = node_shm (cf_shm cfg i),
     ce_cpuset = (\<lambda>w. (None, w)), ce_pid = 0, ce_no_container = False\<rparr>"

lemma link_env_shm: "ce_shm (link_env cfg i) = node_shm (cf_shm cfg i)"
  by (simp add: link_env_def)

lemma sys_call_refines:
  assumes ok: "sys_ok cfg sy x" and ev: "event_ok cfg (Lite_Call i p stk c)"
    and room: "Suc (length (sv_nodes (fst x))) < 2 ^ 31"
    and step: "svc_call cfg i (proc_ident (cf_proc cfg i p)) c x = (r, x')"
  shows "\<exists>sy'. sys_step cfg (Lite_Call i p stk c) sy = (Some r, sy') \<and> sys_ok cfg sy' x'"
proof -
  let ?cl = "sy_cluster sy"
  have pr: "proc_ok (cf_proc cfg i p)" and call: "call_ok stk c"
    using ev by auto
  have ref: "refines ?cl (fst x)" and nids: "cl_nids ?cl = cf_nid cfg"
    and others: "\<And>j q. client_ok (cf_proc cfg j q) (sy_clients sy j q)"
    using ok by (auto simp: sys_ok_def)
  obtain cs l path where conn: "proc_conn (node_env cfg i p) (cf_proc cfg i p) (sys_load i p sy) = (cs, (l, path))"
    and ready: "rlink_ready (cs, l)" and cid: "rl_cid (locals (sk_conn l)) = proc_ident (cf_proc cfg i p)"
    and sh: "shared (sk_conn l) = (cl_rts ?cl i, (attach i ?cl, snd x))"
    by (rule load_ready [OF ok pr])
  let ?env = "link_env cfg i"
  have "delivers (lite_stub (on_router (node_env cfg i p) ?env) stk c) (cs, l) i ?cl (r, x')"
    using call_delivers [OF ref refines_room [OF ref room] nids ready call sh link_env_shm] cid step by simp
  then obtain l' rt vl where stub: "lite_stub (on_router (node_env cfg i p) ?env) stk c (cs, l) = Some (r, (cs, l'))"
    and l': "rlink_ready (cs, l')" "rl_cid (locals (sk_conn l')) = proc_ident (cf_proc cfg i p)"
      "shared (sk_conn l') = (rt, (vl, snd x'))"
    and ref': "refines (settle i rt vl ?cl) (fst x')"
    using cid by (auto simp: delivers_def)
  have "sys_step cfg (Lite_Call i p stk c) sy = (Some r, sys_store i p (cs, (l', path)) sy)"
    using lite_stub_dialed [OF pr conn, of ?env stk c] stub by (simp add: box_env_def link_env_shm)
  moreover have "sys_ok cfg (sys_store i p (cs, (l', path)) sy) x'"
    using ref' nids others l' by (simp add: sys_ok_def sys_store_def client_ok_def settle_def)
  ultimately show ?thesis
    by blast
qed

lemma sys_step_refines:
  assumes ok: "sys_ok cfg sy x" and ev: "event_ok cfg e" and room: "Suc (length (sv_nodes (fst x))) < 2 ^ 31"
    and step: "svc_step cfg e x = (r, x')"
  shows "\<exists>sy'. sys_step cfg e sy = (r, sy') \<and> sys_ok cfg sy' x'"
proof (cases e)
  case (Lite_Call i p stk c)
  then show ?thesis
    using sys_call_refines [OF ok _ room, of i p stk c] ev step by (auto split: prod.splits)
next
  case (Exit i p)
  have "client_ok (cf_proc cfg i p) (proc_exit (node_env cfg i p) (sys_load i p sy))"
    by (simp add: client_ok_def proc_exit_def client_init_def)
  then show ?thesis
    using ok step Exit by (auto simp: sys_ok_def)
next
  case (Lose i q a)
  then have "r = None" and x': "x' = (svc_loss i q a (fst x), snd x)"
    using step by auto
  have "refines (cluster_step (Faults i q a) (sy_cluster sy)) (svc_loss i q a (fst x))"
    using ok by (intro svc_loss_refines) (simp add: sys_ok_def)
  then show ?thesis
    using ok \<open>r = None\<close> x' Lose by (simp add: sys_ok_def)
qed

text \<open>A call gives out at most one number.\<close>

lemma svc_resolve_nodes: "sv_nodes (snd (svc_resolve i v sv)) = sv_nodes sv"
  by (simp add: svc_resolve_def)

lemma svc_kernel_fst [simp]: "fst (snd (svc_kernel f x)) = fst x"
  by (simp add: svc_kernel_def split: prod.split)

lemma svc_remote_fst [simp]: "fst (snd (svc_remote i v f x)) = snd (svc_resolve i v (fst x))"
  by (simp add: svc_remote_def split: prod.split)

lemma svc_call_fst:
  "fst (snd (svc_call cfg i cid c x)) =
     (case c of Call_join _ _ _ \<Rightarrow> snd (svc_join (cf_nid cfg i) i cid (fst x))
      | Call_alloc v _ _ _ \<Rightarrow> snd (svc_resolve i v (fst x))
      | Call_query v _ \<Rightarrow> snd (svc_resolve i v (fst x)) | _ \<Rightarrow> fst x)"
  by (cases c) (simp_all split: prod.split)

lemma svc_step_nodes:
  "length (sv_nodes (fst (snd (svc_step cfg e x)))) \<le> Suc (length (sv_nodes (fst x)))"
proof (cases e)
  case (Lite_Call i p stk c)
  have "length (sv_nodes (snd (svc_join n i cid sv))) \<le> Suc (length (sv_nodes sv))" for n cid sv
    by (auto simp: svc_join_def Let_def split: option.split)
  then have "length (sv_nodes (fst (snd (svc_call cfg i cid c x)))) \<le> Suc (length (sv_nodes (fst x)))" for cid
    by (simp add: svc_call_fst svc_resolve_nodes split: lite_call.split)
  from this [of "proc_ident (cf_proc cfg i p)"] show ?thesis
    using Lite_Call by (auto split: prod.splits)
qed simp_all

lemma sys_run_refines:
  assumes "sys_ok cfg sy x" and "list_all (event_ok cfg) es" and "length (sv_nodes (fst x)) + length es < 2 ^ 31"
    and "svc_run cfg es x = (rs, x')"
  shows "\<exists>sy'. sys_run cfg es sy = (rs, sy') \<and> sys_ok cfg sy' x'"
  using assms
proof (induction es arbitrary: sy x rs)
  case (Cons e es)
  obtain r x1 where s1: "svc_step cfg e x = (r, x1)"
    by (metis prod.exhaust)
  obtain rs1 where s2: "svc_run cfg es x1 = (rs1, x')" and rs: "rs = r # rs1"
    using Cons.prems(4) s1 by (auto split: prod.splits)
  obtain sy1 where y1: "sys_step cfg e sy = (r, sy1)" and ok1: "sys_ok cfg sy1 x1"
    using sys_step_refines [OF Cons.prems(1) _ _ s1] Cons.prems(2,3) by auto
  have "length (sv_nodes (fst x1)) + length es < 2 ^ 31"
    using svc_step_nodes [of cfg e x] s1 Cons.prems(3) by simp
  then obtain sy2 where "sys_run cfg es sy1 = (rs1, sy2)" and "sys_ok cfg sy2 x'"
    using Cons.IH [OF ok1 _ _ s2] Cons.prems(2) by auto
  then show ?case
    using y1 rs by auto
qed simp

text \<open>
  Without the calls that wait for the kernel: for any sequence of calls of any processes, with any
  messages to the vcm lost in between, every call returns what the abstract service returns,
  and the kernel is left the same. \<open>Threads_Facts\<close> adds the waiting calls.
\<close>

lemma system_refines_service:
  assumes "list_all (event_ok cfg) es" and "length es < 2 ^ 31"
  shows "fst (sys_run cfg es (sys_init cfg k)) = fst (svc_run cfg es (svc_init, k)) \<and>
    sy_kernel (snd (sys_run cfg es (sys_init cfg k))) = snd (snd (svc_run cfg es (svc_init, k)))"
proof -
  obtain rs x where s: "svc_run cfg es (svc_init, k) = (rs, x)"
    by (metis prod.exhaust)
  obtain sy where "sys_run cfg es (sys_init cfg k) = (rs, sy)" and "sys_ok cfg sy x"
    using sys_run_refines [OF sys_ok_init assms(1) _ s] assms(2) by (auto simp: svc_init_def)
  with s show ?thesis
    by (simp add: sys_ok_def)
qed

end
