(* ===== verification/Waiting.thy ===== *)
theory Waiting
  imports Lite_Facts Remote_Calls
begin

text \<open>
  The two calls that wait for the kernel, \<open>receive_message_fast\<close> and \<open>send_reply_imm_fast\<close>, in
  steps: what the thread does up to its first look at the polled word, and one step for every turn of
  a polling loop. The step functions are the atomic definitions of \<open>Lite_Lib\<close> and \<open>Router\<close> cut
  open where other threads can run; without other threads they are the same.
\<close>

section \<open>The wrappers in steps\<close>

text \<open>
  Where a waiting thread is, with the addresses of its descriptor and its \<open>ret_length\<close> and the
  result of the system call: in the busy loop with its counter, in the loop with the naps,
  behind the loops; in the loop of a send, behind it.
\<close>

datatype wait =
    Recv_spin c_ptr c_ptr c_int nat
  | Recv_sleep c_ptr c_ptr c_int
  | Recv_done c_ptr c_ptr c_int
  | Send_spin c_ptr
  | Send_done c_ptr

datatype 'w progress = Waits wait 'w | Returns c_int 'w

definition begin_receive ::
  "'w lite_os \<Rightarrow> c_int \<Rightarrow> c_ptr \<Rightarrow> c_int \<Rightarrow> c_ptr \<Rightarrow> c_ptr \<Rightarrow> c_int \<Rightarrow> 'w \<Rightarrow> 'w progress" where
  "begin_receive os port ret_addr receive_size descriptor ret_length block_call w =
     (case int_syscall os NR_lite_receive_message
        [A32 (pack_port receive_size port), A64 ret_addr, A64 descriptor, A64 ret_length,
         A32 block_call, A32 NULL_PRIORITY] (os_store64 os descriptor 0 w) of
        (ret, w1) \<Rightarrow> Waits (Recv_spin descriptor ret_length ret 0) w1)"

definition begin_send ::
  "'w lite_os \<Rightarrow> c_int \<Rightarrow> c_int \<Rightarrow> c_ptr \<Rightarrow> c_int \<Rightarrow> c_ptr \<Rightarrow> c_ptr \<Rightarrow> c_int \<Rightarrow> 'w \<Rightarrow> 'w progress" where
  "begin_send os target_node port addr sz ret_addr ret_length max_ret_size w =
     (if too_big sz \<or> too_big max_ret_size then Returns (-1) w
      else case int_syscall os NR_lite_send_reply_imm
          [A32 target_node, A32 (pack_port sz port), A64 addr, A64 ret_addr, A64 ret_length,
           A32 (pack_priority max_ret_size NULL_PRIORITY)] w of
        (ret, w1) \<Rightarrow> Waits (Send_spin ret_length) w1)"

fun poll :: "'w lite_os \<Rightarrow> wait \<Rightarrow> 'w \<Rightarrow> 'w progress" where
  "poll os (Recv_spin d lp ret i) w =
     (case os_load64 os d w of (v, w1) \<Rightarrow>
        Waits (if v = 0 \<and> i + 1 < CHECK_LENGTH then Recv_spin d lp ret (i + 1) else Recv_sleep d lp ret) w1)"
| "poll os (Recv_sleep d lp ret) w =
     (case os_load64 os d w of (v, w1) \<Rightarrow>
        if v = 0 then Waits (Recv_sleep d lp ret) (os_usleep os w1) else Waits (Recv_done d lp ret) w1)"
| "poll os (Recv_done d lp ret) w = (case finish_receive os ret d lp w of (r, w1) \<Rightarrow> Returns r w1)"
| "poll os (Send_spin lp) w =
     (case os_load32 os lp w of (v, w1) \<Rightarrow>
        Waits (if v = SEND_REPLY_WAIT then Send_spin lp else Send_done lp) w1)"
| "poll os (Send_done lp) w =
     (case finish_send os lp w of (r, w1) \<Rightarrow> Returns r w1)"

text \<open>\<open>k\<close> steps of a thread that runs alone.\<close>

fun polls :: "'w lite_os \<Rightarrow> nat \<Rightarrow> 'w progress \<Rightarrow> 'w progress" where
  "polls os 0 p = p"
| "polls os (Suc k) (Waits wt w) = polls os k (poll os wt w)"
| "polls os (Suc k) (Returns r w) = Returns r w"

section \<open>Steps and calls\<close>

text \<open>What the loops of \<open>Lite_Lib\<close> give from the place where the thread is.\<close>

fun wait_value :: "'w lite_os \<Rightarrow> wait \<Rightarrow> 'w \<Rightarrow> (c_int \<times> 'w) option" where
  "wait_value os (Recv_spin d lp ret i) w =
     map_option (finish_receive os ret d lp) (sleep_descriptor os d (spin_descriptor os d i w))"
| "wait_value os (Recv_sleep d lp ret) w = map_option (finish_receive os ret d lp) (sleep_descriptor os d w)"
| "wait_value os (Recv_done d lp ret) w = Some (finish_receive os ret d lp w)"
| "wait_value os (Send_spin lp) w = map_option (finish_send os lp) (wait_reply os lp w)"
| "wait_value os (Send_done lp) w = Some (finish_send os lp w)"

fun progress_value :: "'w lite_os \<Rightarrow> 'w progress \<Rightarrow> (c_int \<times> 'w) option" where
  "progress_value os (Waits wt w) = wait_value os wt w"
| "progress_value os (Returns r w) = Some (r, w)"

lemma poll_value: "progress_value os (poll os wt w) = wait_value os wt w"
proof (cases wt)
  case (Recv_spin d lp ret i)
  then show ?thesis
    by (simp add: spin_descriptor.simps [of os d i w] split: prod.split)
next
  case (Recv_sleep d lp ret)
  then show ?thesis
    by (simp add: sleep_descriptor.simps [of os d w] split: prod.split)
next
  case (Send_spin lp)
  then show ?thesis
    by (simp add: wait_reply.simps [of os lp w] split: prod.split)
qed (simp_all split: prod.split)

lemma polls_value: "progress_value os (polls os k p) = progress_value os p"
  by (induction os k p rule: polls.induct) (simp_all add: poll_value)

lemma polls_add: "polls os (m + k) p = polls os k (polls os m p)"
  by (induction os m p rule: polls.induct) (simp, simp, cases k, simp_all)

lemma polls_Suc_after: "polls os k p = Waits wt w \<Longrightarrow> polls os (Suc k) p = poll os wt w"
  using polls_add [of os k 1 p] by simp

text \<open>A loop that returns is left after some number of steps.\<close>

lemma done_returns: "\<exists>k r v. polls os k (Waits (Recv_done d lp ret) w) = Returns r v"
  by (rule exI [of _ 1]) (simp split: prod.split)

lemma poll_sleep:
  "poll os (Recv_sleep d lp ret) w =
     (if sees os d w then Waits (Recv_done d lp ret) (snd (os_load64 os d w)) else Waits (Recv_sleep d lp ret) (nap os d w))"
  by (simp add: sees_def nap_def split: prod.split)

lemma poll_send:
  "poll os (Send_spin lp) w =
     (if replied os lp w then Waits (Send_done lp) (reload os lp w) else Waits (Send_spin lp) (reload os lp w))"
  by (simp add: replied_def reload_def split: prod.split)

lemma polls_step: "poll os wt w = p \<Longrightarrow> \<exists>k r v. polls os k p = Returns r v \<Longrightarrow> \<exists>k r v. polls os k (Waits wt w) = Returns r v"
  by (metis polls.simps(2))

lemma sleep_returns:
  "sees os d ((nap os d ^^ j) w) \<Longrightarrow> \<exists>k r v. polls os k (Waits (Recv_sleep d lp ret) w) = Returns r v"
proof (induction j arbitrary: w)
  case 0
  then show ?case
    by (intro polls_step [OF poll_sleep]) (simp add: done_returns)
next
  case (Suc j)
  have "sees os d ((nap os d ^^ j) (nap os d w))"
    using Suc.prems by (simp only: funpow_Suc_right o_apply)
  then show ?case
    using Suc.IH [of "nap os d w"] by (intro polls_step [OF poll_sleep]) (simp add: done_returns)
qed

lemma spin_reaches_sleep:
  "i < CHECK_LENGTH \<Longrightarrow>
   \<exists>k. polls os k (Waits (Recv_spin d lp ret i) w) = Waits (Recv_sleep d lp ret) (spin_descriptor os d i w)"
proof (induction "CHECK_LENGTH - i" arbitrary: i w)
  case (Suc m)
  obtain v w1 where l: "os_load64 os d w = (v, w1)"
    by (rule prod.exhaust)
  show ?case
  proof (cases "v = 0 \<and> i + 1 < CHECK_LENGTH")
    case True
    have "m = CHECK_LENGTH - (i + 1)"
      using Suc.hyps(2) by simp
    then obtain k where "polls os k (Waits (Recv_spin d lp ret (i + 1)) w1) =
        Waits (Recv_sleep d lp ret) (spin_descriptor os d (i + 1) w1)"
      using Suc.hyps(1) [of "i + 1" w1] True by blast
    then show ?thesis
      using True l by (intro exI [of _ "Suc k"]) (simp add: spin_descriptor.simps [of os d i w])
  next
    case False
    then show ?thesis
      using l by (intro exI [of _ 1]) (auto simp: spin_descriptor.simps [of os d i w])
  qed
qed simp

lemma send_done_returns: "\<exists>k r v. polls os k (Waits (Send_done lp) w) = Returns r v"
  by (rule exI [of _ 1]) (simp split: prod.split)

lemma send_returns:
  "replied os lp ((reload os lp ^^ j) w) \<Longrightarrow> \<exists>k r v. polls os k (Waits (Send_spin lp) w) = Returns r v"
proof (induction j arbitrary: w)
  case 0
  then show ?case
    by (intro polls_step [OF poll_send]) (simp add: send_done_returns)
next
  case (Suc j)
  have "replied os lp ((reload os lp ^^ j) (reload os lp w))"
    using Suc.prems by (simp only: funpow_Suc_right o_apply)
  then show ?case
    using Suc.IH [of "reload os lp w"] by (intro polls_step [OF poll_send]) (simp add: send_done_returns)
qed

text \<open>So a thread that runs alone returns exactly what the call returns, and when it does.\<close>

lemma wait_value_returns:
  assumes "wait_value os wt w \<noteq> None" and "\<And>d lp ret i. wt = Recv_spin d lp ret i \<Longrightarrow> i < CHECK_LENGTH"
  shows "\<exists>k r v. polls os k (Waits wt w) = Returns r v"
proof (cases wt)
  case (Recv_spin d lp ret i)
  obtain k where k: "polls os k (Waits (Recv_spin d lp ret i) w) = Waits (Recv_sleep d lp ret) (spin_descriptor os d i w)"
    using spin_reaches_sleep [OF assms(2) [OF Recv_spin], of os d lp ret w]
    by (elim exE) (rule that)
  have "sleep_descriptor os d (spin_descriptor os d i w) \<noteq> None"
    using assms(1) Recv_spin by auto
  then obtain j where "sees os d ((nap os d ^^ j) (spin_descriptor os d i w))"
    using sleeping.returns_iff [of os d] by blast
  from sleep_returns [OF this, of lp ret] obtain m r v where
    "polls os m (polls os k (Waits (Recv_spin d lp ret i) w)) = Returns r v"
    unfolding k [symmetric] by (elim exE) (rule that)
  then show ?thesis
    unfolding polls_add [symmetric] Recv_spin by (intro exI)
next
  case (Recv_sleep d lp ret)
  then have "sleep_descriptor os d w \<noteq> None"
    using assms(1) by auto
  then obtain j where "sees os d ((nap os d ^^ j) w)"
    using sleeping.returns_iff [of os d w] by blast
  then show ?thesis
    unfolding Recv_sleep by (rule sleep_returns)
next
  case (Send_spin lp)
  then have "wait_reply os lp w \<noteq> None"
    using assms(1) by auto
  then obtain j where "replied os lp ((reload os lp ^^ j) w)"
    using waiting.returns_iff [of os lp w] by blast
  then show ?thesis
    unfolding Send_spin by (rule send_returns)
qed (simp_all add: done_returns send_done_returns)

lemma polls_returns_iff:
  assumes "\<And>d lp ret i w. p = Waits (Recv_spin d lp ret i) w \<Longrightarrow> i < CHECK_LENGTH"
  shows "(\<exists>k. polls os k p = Returns r w) \<longleftrightarrow> progress_value os p = Some (r, w)"
proof
  assume "\<exists>k. polls os k p = Returns r w"
  then show "progress_value os p = Some (r, w)"
    by (metis polls_value progress_value.simps(2))
next
  assume v: "progress_value os p = Some (r, w)"
  have "\<exists>k q v. polls os k p = Returns q v"
  proof (cases p)
    case (Waits wt w0)
    then show ?thesis
      using wait_value_returns [of os wt w0] v assms by simp
  qed (auto intro: exI [of _ 0])
  then obtain k q u where k: "polls os k p = Returns q u"
    by blast
  then have "Some (q, u) = Some (r, w)"
    using v by (metis polls_value progress_value.simps(2))
  with k show "\<exists>k. polls os k p = Returns r w"
    by auto
qed

lemma check_positive: "0 < CHECK_LENGTH"
  by (simp add: CHECK_LENGTH_def)

lemma begin_receive_value:
  "progress_value os (begin_receive os port ra sz d lp blk w) = lite_receive_message_fast os port ra sz d lp blk w"
  by (simp add: begin_receive_def lite_receive_message_fast_def Let_def split: prod.split option.split)

lemma begin_send_value:
  "progress_value os (begin_send os n port ad sz ra lp mx w) = lite_send_reply_imm_fast os n port ad sz ra lp mx w"
  by (simp add: begin_send_def lite_send_reply_imm_fast_def split: prod.split option.split)

lemma receive_in_steps:
  "(\<exists>k. polls os k (begin_receive os port ra sz d lp blk w) = Returns r v) \<longleftrightarrow>
   lite_receive_message_fast os port ra sz d lp blk w = Some (r, v)"
  unfolding begin_receive_value [symmetric]
  by (rule polls_returns_iff) (auto simp: begin_receive_def check_positive split: prod.splits)

lemma send_in_steps:
  "(\<exists>k. polls os k (begin_send os n port ad sz ra lp mx w) = Returns r v) \<longleftrightarrow>
   lite_send_reply_imm_fast os n port ad sz ra lp mx w = Some (r, v)"
  unfolding begin_send_value [symmetric]
  by (rule polls_returns_iff) (auto simp: begin_send_def split: prod.splits if_splits)

section \<open>The cases of the router in steps\<close>

definition code_waits :: "c_int \<Rightarrow> bool" where
  "code_waits c = (c = FUNC_userspace_liteapi_send_reply_imm_fast \<or> c = FUNC_userspace_liteapi_receive_message_fast)"

text \<open>
  A thread that has received such a request, up to its first look at the polled word: the state of
  the routing part and how far the call is. What follows the call writes the response.
\<close>

definition thread_begin ::
  "'w router_env \<Rightarrow> router_locals \<Rightarrow> 'w router_shared \<Rightarrow> routing_state \<times> 'w progress" where
  "thread_begin env l s =
     (if get_func_code (rl_req l) = FUNC_userspace_liteapi_receive_message_fast
      then (let r = get_receive_message_fast_req (rl_req l);
                os = re_lite env; dp = re_rsp_addr env + 8; lp = re_rsp_addr env + 16;
                w0 = os_store32 os lp (get_ret_length (rl_rsp l))
                       (os_store64 os dp (get_descriptor (rl_rsp l)) (snd s))
            in (fst s, begin_receive os (rm_port r) (rm_ret_addr r) (rm_receive_size r) dp lp (rm_block_call r) w0))
      else (let r = get_send_reply_imm_fast_req (rl_req l)
            in case resolve_node env (sr_target_node r) s of (nid, s1) \<Rightarrow>
              (fst s1, begin_send (re_lite env) nid (sr_port r) (sr_ret_addr r) (sr_size r)
                 (sr_ret_addr r) (sr_ret_length r) (sr_max_ret_size r) (snd s1))))"

definition thread_finish ::
  "'w router_env \<Rightarrow> router_locals \<Rightarrow> c_int \<Rightarrow> routing_state \<Rightarrow> 'w \<Rightarrow> (router_locals, 'w router_shared) switch_result" where
  "thread_finish env l v rt w =
     (if get_func_code (rl_req l) = FUNC_userspace_liteapi_receive_message_fast
      then case os_load64 (re_lite env) (re_rsp_addr env + 8) w of (d, w2) \<Rightarrow>
        case os_load32 (re_lite env) (re_rsp_addr env + 16) w2 of (len, w3) \<Rightarrow>
          answer (l\<lparr>rl_rsp := put_ret_length len (put_descriptor d (rl_rsp l))\<rparr>) v (rt, w3)
      else answer l v (rt, w))"

lemma dispatch_by_value:
  assumes "code_waits (get_func_code (rl_req l))" and "thread_begin env l s = (rt, p)"
  shows "router_dispatch env l s =
    (case progress_value (re_lite env) p of None \<Rightarrow> Never_Returns | Some (v, w) \<Rightarrow> thread_finish env l v rt w)"
  using assms(1)
proof (unfold code_waits_def, elim disjE)
  assume c: "get_func_code (rl_req l) = FUNC_userspace_liteapi_receive_message_fast"
  then show ?thesis
    using assms(2) by (auto simp: dispatch_cases do_receive_message_fast_def thread_begin_def thread_finish_def
        begin_receive_value Let_def split: option.split)
next
  assume c: "get_func_code (rl_req l) = FUNC_userspace_liteapi_send_reply_imm_fast"
  then have "get_func_code (rl_req l) \<noteq> FUNC_userspace_liteapi_receive_message_fast"
    by (simp add: func_codes)
  then show ?thesis
    using assms(2) c by (auto simp: dispatch_cases do_send_reply_imm_fast_def thread_begin_def thread_finish_def
        begin_send_value Let_def split: option.split prod.splits)
qed

lemma begin_spin_counter:
  "thread_begin env l s = (rt, Waits (Recv_spin d lp ret i) w) \<Longrightarrow> i < CHECK_LENGTH"
  by (auto simp: thread_begin_def begin_receive_def begin_send_def check_positive Let_def split: if_splits prod.splits)

text \<open>
  C14: the calls that wait, step by step. For a request to receive or to send, the case of the
  router's switch answers if and only if the steps of the thread, run without another thread,
  come to an end, and then with the same response and the same state; it never returns if and only if
  they go on for ever. So the steps that \<open>Threads\<close> interleaves are those of the code.
\<close>

theorem waiting_calls_in_steps:
  assumes "code_waits (get_func_code (rl_req l))" and "thread_begin env l s = (rt, p)"
  shows "(router_dispatch env l s = Respond l' s' \<longleftrightarrow>
      (\<exists>k v w. polls (re_lite env) k p = Returns v w \<and> thread_finish env l v rt w = Respond l' s')) \<and>
    (router_dispatch env l s = Never_Returns \<longleftrightarrow> (\<forall>k v w. polls (re_lite env) k p \<noteq> Returns v w))"
proof -
  have iff: "(\<exists>k. polls (re_lite env) k p = Returns v w) \<longleftrightarrow> progress_value (re_lite env) p = Some (v, w)" for v w
    using assms(2) by (intro polls_returns_iff) (simp add: begin_spin_counter)
  have "thread_finish env l v rt w \<noteq> Never_Returns" for v w
    by (simp add: thread_finish_def answer_def split: prod.split)
  moreover have "(\<exists>k v w. polls (re_lite env) k p = Returns v w \<and> P v w) \<longleftrightarrow>
      (\<exists>v w. progress_value (re_lite env) p = Some (v, w) \<and> P v w)" for P
    using iff by blast
  moreover have "(\<forall>k v w. polls (re_lite env) k p \<noteq> Returns v w) \<longleftrightarrow> progress_value (re_lite env) p = None"
    using iff by (metis option.exhaust prod.exhaust option.distinct(1))
  ultimately show ?thesis
    unfolding dispatch_by_value [OF assms] by (auto split: option.split)
qed

definition sample_send_locals :: router_locals where
  "sample_send_locals = \<lparr>rl_req = put_send_reply_imm_fast_req
     \<lparr>sr_target_node = 0, sr_port = 1, sr_addr = 0x1000, sr_size = 8, sr_ret_addr = 0x2000, sr_ret_length = 0x3000,
      sr_max_ret_size = 16\<rparr> (put_func_code FUNC_userspace_liteapi_send_reply_imm_fast (stk_req sample_stack)),
     rl_rsp = stk_rsp sample_stack, rl_cid = []\<rparr>"

lemma sample_send_fields:
  "get_func_code (rl_req sample_send_locals) = FUNC_userspace_liteapi_send_reply_imm_fast"
  "get_send_reply_imm_fast_req (rl_req sample_send_locals) = \<lparr>sr_target_node = 0, sr_port = 1, sr_addr = 0x1000,
     sr_size = 8, sr_ret_addr = 0x2000, sr_ret_length = 0x3000, sr_max_ret_size = 16\<rparr>"
proof -
  have "length (stk_req sample_stack) = 280"
    using sample_stack_ok by (simp only: stack_ok_def)
  then show "get_func_code (rl_req sample_send_locals) = FUNC_userspace_liteapi_send_reply_imm_fast"
    and "get_send_reply_imm_fast_req (rl_req sample_send_locals) = \<lparr>sr_target_node = 0, sr_port = 1, sr_addr = 0x1000,
      sr_size = 8, sr_ret_addr = 0x2000, sr_ret_length = 0x3000, sr_max_ret_size = 16\<rparr>"
    by (simp_all add: sample_send_locals_def decoded)
qed

lemma sample_send_steps:
  "\<exists>v w. polls sample_os (Suc (Suc 0)) (begin_send sample_os nid 1 0x2000 8 0x2000 0x3000 16 w1) = Returns v w"
  by (simp add: begin_send_def too_big_def LIMITATION_def int_syscall_def sample_os_def sample_kernel_def
      SEND_REPLY_WAIT_def NR_lite_send_reply_imm_def NR_lite_receive_message_def split: prod.split)

theorem waiting_calls_in_steps_witness:
  "\<exists>l' s'. router_dispatch sample_renv sample_send_locals (routing_init, sample_start) = Respond l' s'"
proof -
  have w: "code_waits (get_func_code (rl_req sample_send_locals))"
    by (simp add: sample_send_fields code_waits_def)
  obtain nid rt w1 where n: "resolve_node sample_renv 0 (routing_init, sample_start) = (nid, (rt, w1))"
    by (rule prod_cases3)
  let ?p = "begin_send sample_os nid 1 0x2000 8 0x2000 0x3000 16 w1"
  have b: "thread_begin sample_renv sample_send_locals (routing_init, sample_start) = (rt, ?p)"
    by (simp add: thread_begin_def sample_send_fields func_codes n)
  obtain v u where "polls sample_os (Suc (Suc 0)) ?p = Returns v u"
    using sample_send_steps [of nid w1] by (elim exE) (rule that)
  then show ?thesis
    using waiting_calls_in_steps [OF w b] by (auto simp: thread_finish_def sample_send_fields func_codes answer_def)
qed

end
