(* ===== verification/Threads.thy ===== *)
theory Threads
  imports System Waiting
begin

text \<open>
  \<open>System\<close> with all thirteen calls of the library. A call that waits for the kernel is two
  kinds of event: the process asks, and its thread takes one step after the other, each of them an
  access to the word it polls; in between other processes call, other threads step, messages to the
  vcm are lost, and the kernel changes its state in any way. The specification does the same
  next to the abstract service, without clients, connections and routers.
\<close>

section \<open>The two halves of a call\<close>

datatype wait_call =
    Wait_receive c_int c_ptr c_int c_int
  | Wait_send c_int c_int c_ptr c_int c_ptr c_ptr c_int

datatype outcome = Int_result c_int | Message c_int c_long c_int

fun wait_req :: "wait_call \<Rightarrow> byte list \<Rightarrow> byte list" where
  "wait_req (Wait_receive port ret_addr receive_size block_call) stk =
     put_receive_message_fast_req
       \<lparr>rm_port = port, rm_ret_addr = ret_addr, rm_receive_size = receive_size, rm_block_call = block_call\<rparr>
       (put_func_code FUNC_userspace_liteapi_receive_message_fast stk)"
| "wait_req (Wait_send target_node port addr sz ret_addr ret_length max_ret_size) stk =
     put_send_reply_imm_fast_req
       \<lparr>sr_target_node = target_node, sr_port = port, sr_addr = addr, sr_size = sz,
        sr_ret_addr = ret_addr, sr_ret_length = ret_length, sr_max_ret_size = max_ret_size\<rparr>
       (put_func_code FUNC_userspace_liteapi_send_reply_imm_fast stk)"

fun wait_result :: "wait_call \<Rightarrow> byte list \<Rightarrow> outcome" where
  "wait_result (Wait_receive _ _ _ _) rsp = Message (get_int_rsp rsp) (get_descriptor rsp) (get_ret_length rsp)"
| "wait_result (Wait_send _ _ _ _ _ _ _) rsp = Int_result (get_int_rsp rsp)"

text \<open>The stubs of the two calls are made of the two halves.\<close>

lemma wait_stubs:
  "c_receive_message_fast env port ra sz blk stk s =
     (case rpc_handler env (wait_req (Wait_receive port ra sz blk) (stk_req stk)) (stk_rsp stk) s of
        (_, rsp, s') \<Rightarrow> (get_int_rsp rsp, get_descriptor rsp, get_ret_length rsp, s'))"
  "c_send_reply_imm_fast env n port ad sz ra lp mx stk s =
     (case rpc_handler env (wait_req (Wait_send n port ad sz ra lp mx) (stk_req stk)) (stk_rsp stk) s of
        (_, rsp, s') \<Rightarrow> (get_int_rsp rsp, s'))"
  by (simp_all add: c_receive_message_fast_def c_send_reply_imm_fast_def call_int_def)

text \<open>
  On the link, the request is in the thread's request object while the thread is in its switch;
  when the switch is done, the response is sent. For a switch that is not interrupted this
  is the step of \<open>Server_Loop\<close>.
\<close>

definition link_deliver :: "byte list \<Rightarrow> 'w rlink \<Rightarrow> 'w rlink" where
  "link_deliver data l = l\<lparr>sk_conn := (sk_conn l)\<lparr>locals := router_fill (locals (sk_conn l)) data\<rparr>\<rparr>"

definition link_answered :: "router_locals \<Rightarrow> 'w router_shared \<Rightarrow> 'w rlink \<Rightarrow> 'w rlink" where
  "link_answered l' sh l = l\<lparr>sk_conn := (sk_conn l)\<lparr>locals := l', shared := sh,
     outbox := outbox (sk_conn l) @ [rl_rsp l']\<rparr>\<rparr>"

lemma link_uninterrupted:
  assumes "status (sk_conn l) = Serving" and "length req = 280"
    and "router_dispatch renv (router_fill (locals (sk_conn l)) req) (shared (sk_conn l)) = Respond l' sh"
  shows "slink_send (router_session_step renv) fd req l = (280, link_answered l' sh (link_deliver req l))"
  using router_link.session_serves [OF assms] assms(2)
  by (simp add: slink_send_def router_session_step_def link_answered_def link_deliver_def)

text \<open>The socket of a process while its call waits: a send only delivers.\<close>

definition asking_env :: "'k config \<Rightarrow> nat \<Rightarrow> nat \<Rightarrow> 'k node_world dialed client_env" where
  "asking_env cfg i p = (box_env cfg i p)\<lparr>ce_sock := (dial_api (node_env cfg i p))
     \<lparr>so_send := (\<lambda>_ data s. (int (length data), (link_deliver data (fst s), snd s)))\<rparr>\<rparr>"

section \<open>The system with waiting calls\<close>

type_synonym 'k box = "client_state \<times> 'k node_world dialed"

text \<open>
  Of each process the call that waits, with its stack, and whether the process is still there.
\<close>

type_synonym waiter = "wait_call \<times> bool"

record 'k threads =
  th_sys :: "'k system"
  th_wait :: "nat \<Rightarrow> nat \<Rightarrow> (stack \<times> waiter \<times> wait) option"

definition th_init :: "'k config \<Rightarrow> 'k \<Rightarrow> 'k threads" where
  "th_init cfg k = \<lparr>th_sys = sys_init cfg k, th_wait = (\<lambda>_ _. None)\<rparr>"

text \<open>
  \<open>Register\<close> is the call \<open>register_application\<close>. \<open>Kernel f\<close> is a step of the kernel, of any
  node. A process whose call waits makes no other call; such events are skipped. When it exits, its
  thread goes on until it has an answer, which it cannot send; another process can take the place
  when the thread has ended.
\<close>

datatype 'k thread_event =
    Quick sys_event
  | Register nat nat stack c_int c_int c_int "byte list" c_long
  | Ask nat nat stack wait_call
  | Step nat nat
  | Kernel "'k \<Rightarrow> 'k"

definition set2 :: "nat \<Rightarrow> nat \<Rightarrow> 'a \<Rightarrow> (nat \<Rightarrow> nat \<Rightarrow> 'a) \<Rightarrow> nat \<Rightarrow> nat \<Rightarrow> 'a" where
  "set2 i p v f = f(i := (f i)(p := v))"

lemma set2_apply [simp]: "set2 i p v f j q = (if j = i \<and> q = p then v else f j q)"
  by (auto simp: set2_def)

definition th_save :: "nat \<Rightarrow> nat \<Rightarrow> 'k box \<Rightarrow> (stack \<times> waiter \<times> wait) option \<Rightarrow> 'k threads \<Rightarrow> 'k threads" where
  "th_save i p s wt th = \<lparr>th_sys = sys_store i p s (th_sys th), th_wait = set2 i p wt (th_wait th)\<rparr>"

definition box_locals :: "'k box \<Rightarrow> router_locals" where
  "box_locals s = locals (sk_conn (fst (snd s)))"

definition box_shared :: "'k box \<Rightarrow> 'k node_world router_shared" where
  "box_shared s = shared (sk_conn (fst (snd s)))"

text \<open>
  A thread whose answer cannot be sent closes its socket, on which the router loses the thread. For a
  switch that is not interrupted this is the step of \<open>Server_Loop\<close> with a \<open>send\<close> that fails.
\<close>

definition link_closed :: "router_locals \<Rightarrow> 'w router_shared \<Rightarrow> 'w rlink \<Rightarrow> 'w rlink" where
  "link_closed l' sh l = l\<lparr>sk_conn := hangup ((sk_conn l)\<lparr>locals := l', shared := sh\<rparr>)\<rparr>"

lemma link_unsent:
  assumes "status (sk_conn l) = Serving" and "req \<noteq> []"
    and "router_dispatch renv (router_fill (locals (sk_conn l)) req) (shared (sk_conn l)) = Respond l' sh"
  shows "l\<lparr>sk_conn := router_session_step renv (Recv_Data req, False) (sk_conn l)\<rparr> = link_closed l' sh (link_deliver req l)"
  using assms by (simp add: router_session_step_def session_step_def link_closed_def link_deliver_def hangup_def)

text \<open>After a step of the thread: it waits on, or it answers and the process reads the answer.\<close>

fun th_progress ::
  "'k config \<Rightarrow> nat \<Rightarrow> nat \<Rightarrow> stack \<Rightarrow> waiter \<Rightarrow> routing_state \<Rightarrow> 'k node_world progress \<Rightarrow> 'k box \<Rightarrow>
   'k threads \<Rightarrow> outcome option \<times> 'k threads" where
  "th_progress cfg i p stk c rt (Waits wt w) s th =
     (None, th_save i p (fst s, ((fst (snd s))\<lparr>sk_conn := (sk_conn (fst (snd s)))\<lparr>shared := (rt, w)\<rparr>\<rparr>, snd (snd s)))
        (Some (stk, c, wt)) th)"
| "th_progress cfg i p stk c rt (Returns v w) s th =
     (case thread_finish (node_env cfg i p) (box_locals s) v rt w of
        Respond l' sh \<Rightarrow>
          (if snd c
           then case rpc_response (box_env cfg i p) (stk_rsp stk) (fst s, (link_answered l' sh (fst (snd s)), snd (snd s))) of
             (_, rsp, s') \<Rightarrow> (Some (wait_result (fst c) rsp), th_save i p s' None th)
           else (None, th_save i p (client_init, (link_closed l' sh (fst (snd s)), snd (snd s))) None th))
      | _ \<Rightarrow> (None, th))"

definition th_ask ::
  "'k config \<Rightarrow> nat \<Rightarrow> nat \<Rightarrow> stack \<Rightarrow> wait_call \<Rightarrow> 'k threads \<Rightarrow> outcome option \<times> 'k threads" where
  "th_ask cfg i p stk c th =
     (case rpc_request (asking_env cfg i p) (wait_req c (stk_req stk)) (sys_load i p (th_sys th)) of (r, s) \<Rightarrow>
        if r < 0 then (Some (wait_result c (stk_rsp stk)), th_save i p s None th)
        else case thread_begin (node_env cfg i p) (box_locals s) (box_shared s) of (rt, pr) \<Rightarrow>
          th_progress cfg i p stk (c, True) rt pr s th)"

definition th_turn :: "'k config \<Rightarrow> nat \<Rightarrow> nat \<Rightarrow> 'k threads \<Rightarrow> outcome option \<times> 'k threads" where
  "th_turn cfg i p th =
     (case th_wait th i p of
        None \<Rightarrow> (None, th)
      | Some (stk, c, wt) \<Rightarrow>
          (let s = sys_load i p (th_sys th)
           in th_progress cfg i p stk c (fst (box_shared s))
                (poll (re_lite (node_env cfg i p)) wt (snd (box_shared s))) s th))"

definition th_register ::
  "'k config \<Rightarrow> nat \<Rightarrow> nat \<Rightarrow> stack \<Rightarrow> c_int \<Rightarrow> c_int \<Rightarrow> c_int \<Rightarrow> byte list \<Rightarrow> c_long \<Rightarrow> 'k threads \<Rightarrow>
   outcome option \<times> 'k threads" where
  "th_register cfg i p stk port mx mu nm len th =
     (case c_register_application (box_env cfg i p) port mx mu nm len stk (sys_load i p (th_sys th)) of
        None \<Rightarrow> (None, th)
      | Some (r, s) \<Rightarrow> (Some (Int_result r), th_save i p s None th))"

fun waits_for :: "(nat \<Rightarrow> nat \<Rightarrow> 'b option) \<Rightarrow> sys_event \<Rightarrow> bool" where
  "waits_for f (Lite_Call i p stk c) = (f i p \<noteq> None)"
| "waits_for f (Exit i p) = (f i p \<noteq> None)"
| "waits_for f (Lose i q a) = False"

definition forsake :: "waiter \<Rightarrow> waiter" where
  "forsake c = (fst c, False)"

fun th_leave :: "sys_event \<Rightarrow> 'k threads \<Rightarrow> 'k threads" where
  "th_leave (Exit i p) th =
     th\<lparr>th_wait := set2 i p (map_option (\<lambda>(stk, c, wt). (stk, forsake c, wt)) (th_wait th i p)) (th_wait th)\<rparr>"
| "th_leave _ th = th"

fun th_step :: "'k config \<Rightarrow> 'k thread_event \<Rightarrow> 'k threads \<Rightarrow> outcome option \<times> 'k threads" where
  "th_step cfg (Quick e) th =
     (if waits_for (th_wait th) e then (None, th_leave e th)
      else case sys_step cfg e (th_sys th) of (r, sy) \<Rightarrow> (map_option Int_result r, th\<lparr>th_sys := sy\<rparr>))"
| "th_step cfg (Register i p stk port mx mu nm len) th =
     (if th_wait th i p \<noteq> None then (None, th) else th_register cfg i p stk port mx mu nm len th)"
| "th_step cfg (Ask i p stk c) th = (if th_wait th i p \<noteq> None then (None, th) else th_ask cfg i p stk c th)"
| "th_step cfg (Step i p) th = th_turn cfg i p th"
| "th_step cfg (Kernel f) th = (None, th\<lparr>th_sys := (th_sys th)\<lparr>sy_kernel := f (sy_kernel (th_sys th))\<rparr>\<rparr>)"

fun th_run :: "'k config \<Rightarrow> 'k thread_event list \<Rightarrow> 'k threads \<Rightarrow> outcome option list \<times> 'k threads" where
  "th_run cfg [] th = ([], th)"
| "th_run cfg (e # es) th =
     (case th_step cfg e th of (r, th1) \<Rightarrow> case th_run cfg es th1 of (rs, th2) \<Rightarrow> (r # rs, th2))"

section \<open>The specification with waiting calls\<close>

text \<open>
  What a call finds in memory that it has not written itself: the fields of the response object
  before a receive, and what follows the name of an application in its request.
\<close>

record stale =
  st_descriptor :: c_long
  st_length :: c_int
  st_rest :: "byte list"

type_synonym pending = "nat \<Rightarrow> nat \<Rightarrow> (waiter \<times> wait) option"

type_synonym 'k spec = "(service \<times> 'k) \<times> pending"

fun sp_begin :: "'k config \<Rightarrow> nat \<Rightarrow> nat \<Rightarrow> stale \<Rightarrow> wait_call \<Rightarrow> service \<times> 'k \<Rightarrow> service \<times> 'k progress" where
  "sp_begin cfg i p st (Wait_receive port ra sz blk) x =
     (fst x, begin_receive (cf_os cfg i) port ra sz (cf_rsp_addr cfg i p + 8) (cf_rsp_addr cfg i p + 16) blk
        (os_store32 (cf_os cfg i) (cf_rsp_addr cfg i p + 16) (st_length st)
          (os_store64 (cf_os cfg i) (cf_rsp_addr cfg i p + 8) (st_descriptor st) (snd x))))"
| "sp_begin cfg i p st (Wait_send v port ad sz ra lp mx) x =
     (case svc_resolve i v (fst x) of (n, sv) \<Rightarrow> (sv, begin_send (cf_os cfg i) n port ra sz ra lp mx (snd x)))"

fun sp_outcome :: "'k config \<Rightarrow> nat \<Rightarrow> nat \<Rightarrow> wait_call \<Rightarrow> c_int \<Rightarrow> 'k \<Rightarrow> outcome \<times> 'k" where
  "sp_outcome cfg i p (Wait_receive _ _ _ _) v k =
     (case os_load64 (cf_os cfg i) (cf_rsp_addr cfg i p + 8) k of (d, k1) \<Rightarrow>
        case os_load32 (cf_os cfg i) (cf_rsp_addr cfg i p + 16) k1 of (len, k2) \<Rightarrow> (Message v d len, k2))"
| "sp_outcome cfg i p (Wait_send _ _ _ _ _ _ _) v k = (Int_result v, k)"

fun sp_progress ::
  "'k config \<Rightarrow> nat \<Rightarrow> nat \<Rightarrow> waiter \<Rightarrow> service \<Rightarrow> 'k progress \<Rightarrow> pending \<Rightarrow> outcome option \<times> 'k spec" where
  "sp_progress cfg i p c sv (Waits wt k) pend = (None, ((sv, k), set2 i p (Some (c, wt)) pend))"
| "sp_progress cfg i p c sv (Returns v k) pend =
     (case sp_outcome cfg i p (fst c) v k of (out, k') \<Rightarrow>
        (if snd c then Some out else None, ((sv, k'), set2 i p None pend)))"

fun sp_leave :: "sys_event \<Rightarrow> pending \<Rightarrow> pending" where
  "sp_leave (Exit i p) pend = set2 i p (map_option (\<lambda>(c, wt). (forsake c, wt)) (pend i p)) pend"
| "sp_leave _ pend = pend"

fun sp_step :: "'k config \<Rightarrow> 'k thread_event \<Rightarrow> stale \<Rightarrow> 'k spec \<Rightarrow> outcome option \<times> 'k spec" where
  "sp_step cfg (Quick e) st (x, pend) =
     (if waits_for pend e then (None, (x, sp_leave e pend))
      else case svc_step cfg e x of (r, x') \<Rightarrow> (map_option Int_result r, (x', pend)))"
| "sp_step cfg (Register i p stk port mx mu nm len) st (x, pend) =
     (if pend i p \<noteq> None then (None, (x, pend))
      else case svc_kernel (lite_register_application (cf_os cfg i) port mx mu (nm @ st_rest st) len) x of
        (r, x') \<Rightarrow> (Some (Int_result r), (x', pend)))"
| "sp_step cfg (Ask i p stk c) st (x, pend) =
     (if pend i p \<noteq> None then (None, (x, pend))
      else case sp_begin cfg i p st c x of (sv, pr) \<Rightarrow> sp_progress cfg i p (c, True) sv pr pend)"
| "sp_step cfg (Step i p) st (x, pend) =
     (case pend i p of
        None \<Rightarrow> (None, (x, pend))
      | Some (c, wt) \<Rightarrow> sp_progress cfg i p c (fst x) (poll (cf_os cfg i) wt (snd x)) pend)"
| "sp_step cfg (Kernel f) st (x, pend) = (None, ((fst x, f (snd x)), pend))"

fun sp_run :: "'k config \<Rightarrow> ('k thread_event \<times> stale) list \<Rightarrow> 'k spec \<Rightarrow> outcome option list \<times> 'k spec" where
  "sp_run cfg [] y = ([], y)"
| "sp_run cfg (e # es) y =
     (case sp_step cfg (fst e) (snd e) y of (r, y1) \<Rightarrow> case sp_run cfg es y1 of (rs, y2) \<Rightarrow> (r # rs, y2))"

definition sp_init :: "'k \<Rightarrow> 'k spec" where
  "sp_init k = ((svc_init, k), \<lambda>_ _. None)"

end
