(* ===== verification/Threads_Refine.thy ===== *)
theory Threads_Refine
  imports Threads
begin

text \<open>
  The system with waiting calls refines its specification, step by step: \<open>th_ok\<close> relates the
  states, and every event keeps it (\<open>th_step_refines\<close>).
\<close>

section \<open>The kernel's half of a waiting call\<close>

lemma os_snd_memory [simp]:
  "os_load64 (os_snd os) a (x, k) = (case os_load64 os a k of (v, k') \<Rightarrow> (v, (x, k')))"
  "os_load32 (os_snd os) a (x, k) = (case os_load32 os a k of (u, k') \<Rightarrow> (u, (x, k')))"
  "os_store64 (os_snd os) a v (x, k) = (x, os_store64 os a v k)"
  "os_store32 (os_snd os) a u (x, k) = (x, os_store32 os a u k)"
  "os_usleep (os_snd os) (x, k) = (x, os_usleep os k)"
  by (simp_all add: os_snd_def with_snd_def)

lemma int_syscall_os_snd: "int_syscall (os_snd os) nr args (x, k) = (case int_syscall os nr args k of (v, k') \<Rightarrow> (v, (x, k')))"
  by (simp add: with_snd_def)

lemma finish_send_snd: "finish_send (os_snd os) lp (x, k) = (case finish_send os lp k of (r, k') \<Rightarrow> (r, (x, k')))"
  by (simp add: finish_send_def split: prod.split)

lemma finish_receive_snd:
  "finish_receive (os_snd os) ret d lp (x, k) = (case finish_receive os ret d lp k of (r, k') \<Rightarrow> (r, (x, k')))"
  by (simp add: finish_receive_def Let_def split: prod.split)

lemma poll_snd: "poll (os_snd os) wt (x, k) = map_progress (Pair x) (poll os wt k)"
  by (cases wt) (simp_all add: finish_receive_snd finish_send_snd split: prod.split)

lemma begin_receive_snd:
  "begin_receive (os_snd os) port ra sz d lp blk (x, k) = map_progress (Pair x) (begin_receive os port ra sz d lp blk k)"
  by (simp add: begin_receive_def int_syscall_os_snd split: prod.split del: int_syscall_snd)

lemma begin_send_snd:
  "begin_send (os_snd os) n port ad sz ra lp mx (x, k) = map_progress (Pair x) (begin_send os n port ad sz ra lp mx k)"
  by (simp add: begin_send_def int_syscall_os_snd split: prod.split del: int_syscall_snd)

section \<open>Requests of waiting calls\<close>

lemma wait_req_fields:
  assumes "length stk = 280"
  shows "length (wait_req c stk) = 280" and "code_waits (get_func_code (wait_req c stk))"
    and "get_func_code (wait_req c stk) = FUNC_userspace_liteapi_receive_message_fast \<longleftrightarrow>
      (case c of Wait_receive _ _ _ _ \<Rightarrow> True | _ \<Rightarrow> False)"
  using assms by (cases c; simp add: decoded code_waits_def func_codes)+

text \<open>The first part of a call, on the router and in the specification.\<close>

lemma begin_refines:
  assumes ref: "refines cl (fst x)" and stk: "length stk = 280" and req: "rl_req l = wait_req c stk"
    and begin_x: "sp_begin cfg i p \<lparr>st_descriptor = get_descriptor (rl_rsp l), st_length = get_ret_length (rl_rsp l),
      st_rest = rest\<rparr> c x = (sv, pr)"
  shows "\<exists>rt vl. thread_begin (node_env cfg i p) l (cl_rts cl i, (attach i cl, snd x)) = (rt, map_progress (Pair vl) pr) \<and>
    refines (settle i rt vl cl) sv"
proof (cases c)
  case (Wait_receive port ra sz blk)
  have "thread_begin (node_env cfg i p) l (cl_rts cl i, (attach i cl, snd x)) =
      (cl_rts cl i, map_progress (Pair (attach i cl)) pr)" and "sv = fst x"
    using begin_x stk
    by (simp_all add: thread_begin_def req Wait_receive decoded begin_receive_snd node_env_def Let_def)
  then show ?thesis
    using refines_same [OF ref] by auto
next
  case (Wait_send v port ad sz ra lp mx)
  obtain n where r: "svc_resolve i v (fst x) = (n, sv)" and pr: "pr = begin_send (cf_os cfg i) n port ra sz ra lp mx (snd x)"
    using begin_x Wait_send by (auto split: prod.splits)
  obtain rt vl where rn: "resolve_node (node_env cfg i p) v (cl_rts cl i, (attach i cl, snd x)) = (n, (rt, (vl, snd x)))"
    and ref': "refines (settle i rt vl cl) sv"
    using resolve_node_refines [OF ref r, of cfg p "snd x"] by blast
  have "thread_begin (node_env cfg i p) l (cl_rts cl i, (attach i cl, snd x)) = (rt, map_progress (Pair vl) pr)"
    using stk by (simp add: thread_begin_def req Wait_send decoded func_codes rn pr begin_send_snd)
  with ref' show ?thesis
    by blast
qed

text \<open>The last part: the response object has the outcome of the specification.\<close>

lemma finish_refines:
  assumes stk: "length stk = 280" and req: "rl_req l = wait_req c stk" and rsp: "length (rl_rsp l) = 24"
    and out: "sp_outcome cfg i p c v k = (out, k')"
  shows "\<exists>l'. thread_finish (node_env cfg i p) l v rt (vl, k) = Respond l' (rt, (vl, k')) \<and>
    rl_req l' = rl_req l \<and> rl_cid l' = rl_cid l \<and> length (rl_rsp l') = 24 \<and> wait_result c (rl_rsp l') = out"
proof (cases c)
  case (Wait_receive port ra sz blk)
  obtain d k1 where d: "os_load64 (cf_os cfg i) (cf_rsp_addr cfg i p + 8) k = (d, k1)"
    by (rule prod.exhaust)
  obtain len k2 where len: "os_load32 (cf_os cfg i) (cf_rsp_addr cfg i p + 16) k1 = (len, k2)"
    by (rule prod.exhaust)
  have "re_rsp_addr (node_env cfg i p) = cf_rsp_addr cfg i p"
    by (simp add: node_env_def)
  then show ?thesis
    using out d len stk rsp Wait_receive
    by (auto simp: thread_finish_def req decoded answer_def rsp_fields)
next
  case (Wait_send n port ad sz ra lp mx)
  then show ?thesis
    using out stk rsp by (auto simp: thread_finish_def req decoded func_codes answer_def rsp_fields)
qed

section \<open>The process's half\<close>

text \<open>Connecting does not depend on what a send does.\<close>

lemma conn_without_send:
  fixes env :: "'w client_env" and f
  defines "env' \<equiv> env\<lparr>ce_sock := (ce_sock env)\<lparr>so_send := f\<rparr>\<rparr>"
  shows "conn_cid env' = conn_cid env" and "rpc_disconn env' = rpc_disconn env" and "rpc_conn env' = rpc_conn env"
proof -
  show c: "conn_cid env' = conn_cid env" and d: "rpc_disconn env' = rpc_disconn env"
    by (simp_all add: env'_def fun_eq_iff conn_cid_def rpc_disconn_def)
  have e: "ce_no_container env' = ce_no_container env" "ce_pid env' = ce_pid env" "so_socket (ce_sock env') = so_socket (ce_sock env)"
    "so_unlink (ce_sock env') = so_unlink (ce_sock env)" "so_bind (ce_sock env') = so_bind (ce_sock env)"
    "so_connect (ce_sock env') = so_connect (ce_sock env)"
    by (simp_all add: env'_def)
  show "rpc_conn env' = rpc_conn env"
    by (simp only: rpc_conn_def c d e fun_eq_iff simp_thms)
qed

lemma rpc_conn_asking: "rpc_conn (asking_env cfg i p) nm s = rpc_conn (box_env cfg i p) nm s"
proof -
  have "ce_sock (box_env cfg i p) = dial_api (node_env cfg i p)"
    by (simp add: box_env_def proc_env_def)
  then show ?thesis
    using conn_without_send(3) [where env = "box_env cfg i p" and f = "\<lambda>_ data s. (int (length data), link_deliver data (fst s), snd s)"]
    by (simp only: asking_env_def)
qed

lemma request_asked:
  assumes pr: "proc_ok (cf_proc cfg i p)" and conn: "proc_conn (node_env cfg i p) (cf_proc cfg i p) s = (cs, (l, path))"
  shows "rpc_request (asking_env cfg i p) req s = (0, (cs, (link_deliver req l, path)))"
proof -
  have send: "rpc_send (asking_env cfg i p) req (cs', (m, q)) = (0, (cs', (link_deliver req m, q)))" for cs' m q
    by (simp add: rpc_send_def asking_env_def)
  obtain cs0 l0 p0 where s: "s = (cs0, (l0, p0))"
    by (rule prod_cases3)
  show ?thesis
    using conn rpc_conn_dials [OF pr, of "node_env cfg i p" "node_shm (cf_shm cfg i)" cs0 l0 p0]
    by (auto simp: s rpc_request_def rpc_conn_asking box_env_def proc_conn_def send split: if_splits)
qed

definition link_read :: "'w rlink \<Rightarrow> 'w rlink" where
  "link_read l = l\<lparr>sk_read := Suc (sk_read l)\<rparr>"

lemma response_read:
  assumes "rlink_ready (cs, l)" and "length (rl_rsp l') = 24" and "length buf = 24"
  shows "rpc_response (box_env cfg i p) buf (cs, (link_answered l' sh l, path)) =
    (0, rl_rsp l', (cs, (link_read (link_answered l' sh l), path)))"
  using assms
  by (simp add: rpc_response_def box_env_def proc_env_def dial_api_def sock_fst_def with_fst_def slink_api_def
      slink_recv_def link_answered_def link_read_def rlink_ready_def slink_ready_def sizeofs)

lemma answered_ready:
  assumes "rlink_ready (cs, l)" and "length (rl_rsp l') = 24" and "length (rl_req l') = 280"
  shows "rlink_ready (cs, link_read (link_answered l' sh l))"
    and "locals (sk_conn (link_read (link_answered l' sh l))) = l'"
    and "shared (sk_conn (link_read (link_answered l' sh l))) = sh"
  using assms by (simp_all add: rlink_ready_def slink_ready_def router_linv_def link_answered_def link_read_def)

lemma delivered_ready:
  assumes "rlink_ready (cs, l)" and "length req = 280"
  shows "rlink_ready (cs, link_deliver req l)" and "rl_req (locals (sk_conn (link_deliver req l))) = req"
    and "rl_cid (locals (sk_conn (link_deliver req l))) = rl_cid (locals (sk_conn l))"
    and "rl_rsp (locals (sk_conn (link_deliver req l))) = rl_rsp (locals (sk_conn l))"
    and "shared (sk_conn (link_deliver req l)) = shared (sk_conn l)"
  using assms by (simp_all add: rlink_ready_def slink_ready_def router_linv_def link_deliver_def router_fill_full)

section \<open>The relation between the two\<close>

text \<open>
  A waiting process is connected, and its thread has its request. Of a process that has gone the
  library's state stays until its thread has ended.
\<close>

fun wait_ok :: "(stack \<times> waiter \<times> wait) option \<Rightarrow> (waiter \<times> wait) option \<Rightarrow> 'k box \<Rightarrow> bool" where
  "wait_ok None None s = True"
| "wait_ok (Some (stk, c, wt)) (Some (c', wt')) s =
     (c' = c \<and> wt' = wt \<and> stack_ok stk \<and> client_sock (fst s) \<noteq> -1 \<and> rl_req (box_locals s) = wait_req (fst c) (stk_req stk))"
| "wait_ok _ _ s = False"

definition th_ok :: "'k config \<Rightarrow> 'k threads \<Rightarrow> 'k spec \<Rightarrow> bool" where
  "th_ok cfg th y =
     (sys_ok cfg (th_sys th) (fst y) \<and>
      (\<forall>i p. wait_ok (th_wait th i p) (snd y i p) (sy_clients (th_sys th) i p)))"

lemma th_ok_init: "th_ok cfg (th_init cfg k) (sp_init k)"
  by (simp add: sp_init_def th_ok_def th_init_def sys_ok_init)

lemma wait_ok_None: "wait_ok a b s \<Longrightarrow> a = None \<longleftrightarrow> b = None"
  by (cases "(a, b, s)" rule: wait_ok.cases) simp_all

lemma th_ok_sys: "th_ok cfg th y \<Longrightarrow> sys_ok cfg (th_sys th) (fst y)"
  by (simp add: th_ok_def)

lemma th_ok_wait: "th_ok cfg th y \<Longrightarrow> wait_ok (th_wait th i p) (snd y i p) (sy_clients (th_sys th) i p)"
  by (simp add: th_ok_def)

lemma th_ok_free: "th_ok cfg th y \<Longrightarrow> th_wait th i p = None \<longleftrightarrow> snd y i p = None"
  by (rule wait_ok_None) (rule th_ok_wait)

text \<open>Storing the state of one process, with what its router and the kernel have become.\<close>

lemma th_save_ok:
  assumes ok: "th_ok cfg th ((sv0, k0), pend)"
    and ref: "refines (settle i rt vl (sy_cluster (th_sys th))) sv"
    and l: "client_ok (cf_proc cfg i p) (cs, (l, path))" "shared (sk_conn l) = (rt, (vl, k))"
    and wt: "wait_ok wt wt' (cs, (l, path))"
  shows "th_ok cfg (th_save i p (cs, (l, path)) wt th) ((sv, k), set2 i p wt' pend)"
  using assms
  by (auto simp: th_ok_def th_save_def sys_ok_def sys_store_def settle_def)

lemma ready_client_ok:
  "rlink_ready (cs, l) \<Longrightarrow> rl_cid (locals (sk_conn l)) = proc_ident pr \<Longrightarrow> client_ok pr (cs, (l, path))"
  by (simp add: client_ok_def)

lemma closed_ok:
  "client_ok pr (client_init, (link_closed l' sh l, path))" "shared (sk_conn (link_closed l' sh l)) = sh"
  by (simp_all add: client_ok_def client_init_def link_closed_def hangup_def)

section \<open>Every step refines its specification\<close>

lemma progress_refines:
  assumes ok: "th_ok cfg th ((sv0, k0), pend)"
    and ref: "refines (settle i rt vl (sy_cluster (th_sys th))) sv"
    and ready: "rlink_ready (cs, l)" and cid: "rl_cid (locals (sk_conn l)) = proc_ident (cf_proc cfg i p)"
    and req: "rl_req (locals (sk_conn l)) = wait_req (fst c) (stk_req stk)" and stk: "stack_ok stk"
    and spec: "sp_progress cfg i p c sv pr pend = (r, y)"
  shows "\<exists>th'. th_progress cfg i p stk c rt (map_progress (Pair vl) pr) (cs, (l, path)) th = (r, th') \<and> th_ok cfg th' y"
proof (cases pr)
  case (Waits wt k)
  let ?l = "l\<lparr>sk_conn := (sk_conn l)\<lparr>shared := (rt, (vl, k))\<rparr>\<rparr>"
  have l: "rlink_ready (cs, ?l)" "rl_cid (locals (sk_conn ?l)) = proc_ident (cf_proc cfg i p)"
    "shared (sk_conn ?l) = (rt, (vl, k))" and sock: "client_sock cs \<noteq> -1"
    using ready cid by (simp_all add: rlink_ready_def slink_ready_def)
  have "wait_ok (Some (stk, c, wt)) (Some (c, wt)) (cs, (?l, path))"
    using stk req sock by (simp add: box_locals_def)
  then show ?thesis
    using th_save_ok [OF ok ref ready_client_ok [OF l(1,2)] l(3)] spec Waits by auto
next
  case (Returns v k)
  have len: "length (stk_req stk) = 280" "length (stk_rsp stk) = 24" "length (rl_rsp (locals (sk_conn l))) = 24"
    using stk ready by (simp_all add: stack_ok_def rlink_ready_def slink_ready_def router_linv_def)
  obtain out k' where out: "sp_outcome cfg i p (fst c) v k = (out, k')"
    by (rule prod.exhaust)
  obtain l' where fin: "thread_finish (node_env cfg i p) (locals (sk_conn l)) v rt (vl, k) = Respond l' (rt, (vl, k'))"
    and l': "rl_req l' = rl_req (locals (sk_conn l))" "rl_cid l' = rl_cid (locals (sk_conn l))"
      "length (rl_rsp l') = 24" "wait_result (fst c) (rl_rsp l') = out"
    using finish_refines [OF len(1) req len(3) out] by blast
  show ?thesis
  proof (cases "snd c")
    case True
    let ?l = "link_read (link_answered l' (rt, (vl, k')) l)"
    have "length (rl_req l') = 280"
      using l'(1) req wait_req_fields(1) [OF len(1)] by simp
    note a = answered_ready [OF ready l'(3) this, of "(rt, (vl, k'))"]
    have "th_ok cfg (th_save i p (cs, (?l, path)) None th) ((sv, k'), set2 i p None pend)"
      using a l'(2) cid by (intro th_save_ok [OF ok ref] ready_client_ok) simp_all
    then show ?thesis
      using True spec Returns out fin response_read [OF ready l'(3) len(2)] l'(4) by (auto simp: box_locals_def)
  next
    case False
    have "th_ok cfg (th_save i p (client_init, (link_closed l' (rt, (vl, k')) l, path)) None th) ((sv, k'), set2 i p None pend)"
      by (intro th_save_ok [OF ok ref] closed_ok) simp
    then show ?thesis
      using False spec Returns out fin by (auto simp: box_locals_def)
  qed
qed

lemma ask_refines:
  assumes ok: "th_ok cfg th (x, pend)" and pr: "proc_ok (cf_proc cfg i p)" and stk: "stack_ok stk"
    and free: "pend i p = None"
  shows "\<exists>st. \<forall>r y. sp_step cfg (Ask i p stk c) st (x, pend) = (r, y) \<longrightarrow>
    (\<exists>th'. th_step cfg (Ask i p stk c) th = (r, th') \<and> th_ok cfg th' y)"
proof -
  have sys: "sys_ok cfg (th_sys th) x" and free': "th_wait th i p = None"
    using th_ok_sys [OF ok] th_ok_free [OF ok, of i p] free by simp_all
  have len: "length (stk_req stk) = 280"
    using stk by (simp add: stack_ok_def)
  obtain cs l path where conn: "proc_conn (node_env cfg i p) (cf_proc cfg i p) (sys_load i p (th_sys th)) = (cs, (l, path))"
    and ready: "rlink_ready (cs, l)" and cid: "rl_cid (locals (sk_conn l)) = proc_ident (cf_proc cfg i p)"
    and sh: "shared (sk_conn l) = (cl_rts (sy_cluster (th_sys th)) i, (attach i (sy_cluster (th_sys th)), snd x))"
    by (rule load_ready [OF sys pr])
  let ?l = "link_deliver (wait_req c (stk_req stk)) l"
  note d = delivered_ready [OF ready wait_req_fields(1) [OF len, of c]]
  let ?st = "\<lparr>st_descriptor = get_descriptor (rl_rsp (locals (sk_conn ?l))),
    st_length = get_ret_length (rl_rsp (locals (sk_conn ?l))), st_rest = []\<rparr>"
  show ?thesis
  proof (intro exI [of _ ?st] allI impI)
    fix r y
    assume spec: "sp_step cfg (Ask i p stk c) ?st (x, pend) = (r, y)"
    obtain sv pr where b: "sp_begin cfg i p ?st c x = (sv, pr)"
      by (rule prod.exhaust)
    have ref: "refines (sy_cluster (th_sys th)) (fst x)"
      using sys by (simp add: sys_ok_def)
    obtain rt vl where tb: "thread_begin (node_env cfg i p) (locals (sk_conn ?l)) (shared (sk_conn ?l)) =
        (rt, map_progress (Pair vl) pr)"
      and ref': "refines (settle i rt vl (sy_cluster (th_sys th))) sv"
      using begin_refines [OF ref len d(2) b] unfolding d(5) sh by blast
    have sp: "sp_progress cfg i p (c, True) sv pr pend = (r, y)"
      using spec free b by simp
    have "\<exists>th'. th_progress cfg i p stk (c, True) rt (map_progress (Pair vl) pr) (cs, (?l, path)) th = (r, th') \<and> th_ok cfg th' y"
      using ok progress_refines [OF _ ref' d(1) _ _ stk sp, of "fst x" "snd x" path] d(2,3) cid by simp
    then show "\<exists>th'. th_step cfg (Ask i p stk c) th = (r, th') \<and> th_ok cfg th' y"
      using free' tb request_asked [OF pr conn] by (simp add: th_ask_def box_locals_def box_shared_def)
  qed
qed

lemma turn_refines:
  assumes ok: "th_ok cfg th (x, pend)" and spec: "sp_step cfg (Step i p) st (x, pend) = (r, y)"
  shows "\<exists>th'. th_step cfg (Step i p) th = (r, th') \<and> th_ok cfg th' y"
proof (cases "pend i p")
  case None
  then have "th_wait th i p = None"
    using th_ok_free [OF ok, of i p] by simp
  then show ?thesis
    using ok spec None by (simp add: th_turn_def)
next
  case (Some a)
  obtain c wt where a: "a = (c, wt)"
    by (rule prod.exhaust)
  obtain cs l path where cl: "sy_clients (th_sys th) i p = (cs, (l, path))"
    by (rule prod_cases3)
  have w: "wait_ok (th_wait th i p) (Some (c, wt)) (cs, (l, path))"
    using th_ok_wait [OF ok, of i p] Some a cl by simp
  then obtain stk where tw: "th_wait th i p = Some (stk, c, wt)" and stk: "stack_ok stk" and sock: "client_sock cs \<noteq> -1"
    and req: "rl_req (locals (sk_conn l)) = wait_req (fst c) (stk_req stk)"
    by (cases "th_wait th i p") (auto simp: box_locals_def)
  have sys: "sys_ok cfg (th_sys th) x"
    using th_ok_sys [OF ok] by simp
  then have "client_ok (cf_proc cfg i p) (cs, (l, path))" and ref: "refines (sy_cluster (th_sys th)) (fst x)"
    and k: "sy_kernel (th_sys th) = snd x"
    using cl by (auto simp: sys_ok_def) metis
  then have ready: "rlink_ready (cs, l)" and cid: "rl_cid (locals (sk_conn l)) = proc_ident (cf_proc cfg i p)"
    using sock by (simp_all add: client_ok_def)
  let ?cl = "sy_cluster (th_sys th)"
  let ?l = "l\<lparr>sk_conn := (sk_conn l)\<lparr>shared := (cl_rts ?cl i, (attach i ?cl, snd x))\<rparr>\<rparr>"
  have load: "sys_load i p (th_sys th) = (cs, (?l, path))"
    by (simp add: sys_load_def cl k)
  have l: "rlink_ready (cs, ?l)" "rl_cid (locals (sk_conn ?l)) = proc_ident (cf_proc cfg i p)"
    "rl_req (locals (sk_conn ?l)) = wait_req (fst c) (stk_req stk)"
    using ready cid req by (simp_all add: rlink_ready_def slink_ready_def)
  have sp: "sp_progress cfg i p c (fst x) (poll (cf_os cfg i) wt (snd x)) pend = (r, y)"
    using spec Some a by simp
  show ?thesis
    using ok progress_refines [OF _ refines_same [OF ref] l stk sp, of "fst x" "snd x" path] tw
    by (simp add: th_turn_def load box_shared_def poll_snd Let_def)
qed

lemma register_refines:
  assumes ok: "th_ok cfg th (x, pend)" and pr: "proc_ok (cf_proc cfg i p)" and stk: "stack_ok stk"
    and nm: "length nm = unat len" "unat len \<le> 32" and free: "pend i p = None"
  shows "\<exists>st. \<forall>r y. sp_step cfg (Register i p stk port mx mu nm len) st (x, pend) = (r, y) \<longrightarrow>
    (\<exists>th'. th_step cfg (Register i p stk port mx mu nm len) th = (r, th') \<and> th_ok cfg th' y)"
proof -
  have sys: "sys_ok cfg (th_sys th) x" and free': "th_wait th i p = None"
    using th_ok_sys [OF ok] th_ok_free [OF ok, of i p] free by simp_all
  let ?cl = "sy_cluster (th_sys th)" and ?s = "sys_load i p (th_sys th)"
  obtain cs l path where conn: "proc_conn (node_env cfg i p) (cf_proc cfg i p) ?s = (cs, (l, path))"
    and ready: "rlink_ready (cs, l)" and cid: "rl_cid (locals (sk_conn l)) = proc_ident (cf_proc cfg i p)"
    and sh: "shared (sk_conn l) = (cl_rts ?cl i, (attach i ?cl, snd x))"
    by (rule load_ready [OF sys pr])
  obtain req rest where req: "req_register_application port mx mu nm len (stk_req stk) = Some req"
    and car: "carried (call_int (on_router (node_env cfg i p) (link_env cfg i)) req (stk_rsp stk)) (cs, l) (cl_rts ?cl i)
      (lite_register_application (re_lite (node_env cfg i p)) port mx mu (nm @ rest) len (attach i ?cl, snd x))"
    by (rule carried_register [OF ready stk sh nm])
  obtain v k where reg: "lite_register_application (cf_os cfg i) port mx mu (nm @ rest) len (snd x) = (v, k)"
    by (rule prod.exhaust)
  have "lite_register_application (re_lite (node_env cfg i p)) port mx mu (nm @ rest) len (attach i ?cl, snd x) =
      (v, (attach i ?cl, k))"
    using reg by (simp add: node_env_def wrappers_snd with_snd_def)
  then obtain l' where call: "call_int (on_router (node_env cfg i p) (link_env cfg i)) req (stk_rsp stk) (cs, l) = (v, (cs, l'))"
    and l': "rlink_ready (cs, l')" "rl_cid (locals (sk_conn l')) = proc_ident (cf_proc cfg i p)"
      "shared (sk_conn l') = (cl_rts ?cl i, (attach i ?cl, k))"
    using car cid unfolding carried_def by auto
  have "th_register cfg i p stk port mx mu nm len th = (Some (Int_result v), th_save i p (cs, (l', path)) None th)"
    using call_int_dialed [OF pr conn, of "node_shm (cf_shm cfg i)" req "stk_rsp stk" "link_env cfg i"]
    by (simp add: th_register_def c_register_application_def box_env_def req call)
  moreover have "refines (settle i (cl_rts ?cl i) (attach i ?cl) ?cl) (fst x)"
    using sys by (intro refines_same) (simp add: sys_ok_def)
  then have "th_ok cfg (th_save i p (cs, (l', path)) None th) ((fst x, k), set2 i p None pend)"
    using ok l' by (intro th_save_ok [of cfg th "fst x" "snd x"] ready_client_ok) simp_all
  moreover have "set2 i p None pend = pend"
    using free by (auto simp: fun_eq_iff)
  moreover have "sp_step cfg (Register i p stk port mx mu nm len) \<lparr>st_descriptor = 0, st_length = 0, st_rest = rest\<rparr> (x, pend) =
      (Some (Int_result v), ((fst x, k), pend))"
    using free reg by (simp add: svc_kernel_def)
  ultimately show ?thesis
    using free' by (intro exI [of _ "\<lparr>st_descriptor = 0, st_length = 0, st_rest = rest\<rparr>"]) simp
qed

text \<open>A call that does not wait leaves the other processes alone.\<close>

lemma sys_step_clients:
  "\<not> waits_for f e \<Longrightarrow> f j q \<noteq> None \<Longrightarrow> sy_clients (snd (sys_step cfg e sy)) j q = sy_clients sy j q"
  by (cases e) (auto simp: sys_store_def split: option.splits prod.splits)

text \<open>A waiting process that goes away leaves its thread where it is.\<close>

lemma leave_ok:
  assumes ok: "th_ok cfg th (x, pend)"
  shows "th_ok cfg (th_leave e th) (x, sp_leave e pend)"
proof (cases e)
  case (Exit i p)
  have "wait_ok (map_option (\<lambda>(stk, c, wt). (stk, forsake c, wt)) a) (map_option (\<lambda>(c, wt). (forsake c, wt)) b) s"
    if "wait_ok a b s" for a b and s :: "'a box"
    using that by (cases "(a, b, s)" rule: wait_ok.cases) (auto simp: forsake_def)
  then show ?thesis
    using ok Exit by (auto simp: th_ok_def)
qed (use ok in simp_all)

lemma quick_refines:
  assumes ok: "th_ok cfg th (x, pend)" and ev: "event_ok cfg e" and room: "Suc (length (sv_nodes (fst x))) < 2 ^ 31"
    and spec: "sp_step cfg (Quick e) st (x, pend) = (r, y)"
  shows "\<exists>th'. th_step cfg (Quick e) th = (r, th') \<and> th_ok cfg th' y"
proof -
  have same: "th_wait th i p = None \<longleftrightarrow> pend i p = None" for i p
    using th_ok_free [OF ok, of i p] by simp
  then have w: "waits_for (th_wait th) e = waits_for pend e"
    by (cases e) simp_all
  show ?thesis
  proof (cases "waits_for pend e")
    case True
    then show ?thesis
      using leave_ok [OF ok] spec w by auto
  next
    case False
    obtain r' x' where s: "svc_step cfg e x = (r', x')"
      by (rule prod.exhaust)
    obtain sy' where y: "sys_step cfg e (th_sys th) = (r', sy')" and ok': "sys_ok cfg sy' x'"
      using sys_step_refines [OF _ ev _ s, of "th_sys th"] th_ok_sys [OF ok] room by auto
    have "wait_ok (th_wait th j q) (pend j q) (sy_clients sy' j q)" for j q
    proof (cases "th_wait th j q")
      case None
      then show ?thesis
        using same [of j q] by simp
    next
      case Some
      then have "sy_clients sy' j q = sy_clients (th_sys th) j q"
        using sys_step_clients [of "th_wait th" e j q cfg "th_sys th"] False w y by simp
      then show ?thesis
        using th_ok_wait [OF ok, of j q] by simp
    qed
    then show ?thesis
      using spec False s w y ok' by (auto simp: th_ok_def)
  qed
qed

section \<open>Events\<close>

fun thread_event_ok :: "'k config \<Rightarrow> 'k thread_event \<Rightarrow> bool" where
  "thread_event_ok cfg (Quick e) = event_ok cfg e"
| "thread_event_ok cfg (Register i p stk port mx mu nm len) =
     (proc_ok (cf_proc cfg i p) \<and> stack_ok stk \<and> length nm = unat len \<and> unat len \<le> 32)"
| "thread_event_ok cfg (Ask i p stk c) = (proc_ok (cf_proc cfg i p) \<and> stack_ok stk)"
| "thread_event_ok cfg _ = True"

lemma kernel_refines:
  "th_ok cfg th (x, pend) \<Longrightarrow> sp_step cfg (Kernel f) st (x, pend) = (r, y) \<Longrightarrow>
   \<exists>th'. th_step cfg (Kernel f) th = (r, th') \<and> th_ok cfg th' y"
  by (auto simp: th_ok_def sys_ok_def)

lemma skip_refines:
  assumes ok: "th_ok cfg th (x, pend)" and busy: "pend i p \<noteq> None"
  shows "th_step cfg (Ask i p stk c) th = (None, th)" and "sp_step cfg (Ask i p stk c) st (x, pend) = (None, (x, pend))"
    and "th_step cfg (Register i p stk port mx mu nm len) th = (None, th)"
    and "sp_step cfg (Register i p stk port mx mu nm len) st (x, pend) = (None, (x, pend))"
  using th_ok_free [OF ok, of i p] busy by auto

text \<open>What a call finds in memory is there when its step begins, so it is found step by step.\<close>

lemma th_step_refines:
  assumes ok: "th_ok cfg th y" and ev: "thread_event_ok cfg e" and room: "Suc (length (sv_nodes (fst (fst y)))) < 2 ^ 31"
  shows "\<exists>st th'. th_step cfg e th = (fst (sp_step cfg e st y), th') \<and> th_ok cfg th' (snd (sp_step cfg e st y))"
proof -
  obtain x pend where y: "y = (x, pend)"
    by (rule prod.exhaust)
  note ok' = ok [unfolded y]
  have some: ?thesis if "\<exists>st. \<forall>r y'. sp_step cfg e st (x, pend) = (r, y') \<longrightarrow> (\<exists>th'. th_step cfg e th = (r, th') \<and> th_ok cfg th' y')"
    using that unfolding y by (metis prod.collapse)
  have busy: ?thesis if "th_step cfg e th = (None, th)" and "\<And>st. sp_step cfg e st (x, pend) = (None, (x, pend))"
    using that ok y by simp
  show ?thesis
  proof (cases e)
    case (Quick e')
    have "event_ok cfg e'" and "Suc (length (sv_nodes (fst x))) < 2 ^ 31"
      using ev room y Quick by simp_all
    from quick_refines [OF ok' this] show ?thesis
      by (intro some) (simp only: Quick, blast)
  next
    case (Register i p stk port mx mu nm len)
    then have pre: "proc_ok (cf_proc cfg i p)" "stack_ok stk" "length nm = unat len" "unat len \<le> 32"
      using ev by simp_all
    show ?thesis
    proof (cases "pend i p = None")
      case True
      show ?thesis
        by (rule some) (unfold Register, rule register_refines [OF ok' pre True])
    next
      case False
      note skip = skip_refines [OF ok' False]
      show ?thesis
        by (rule busy) (unfold Register, rule skip(3), rule skip(4))
    qed
  next
    case (Ask i p stk c)
    then have pre: "proc_ok (cf_proc cfg i p)" "stack_ok stk"
      using ev by simp_all
    show ?thesis
    proof (cases "pend i p = None")
      case True
      show ?thesis
        by (rule some) (unfold Ask, rule ask_refines [OF ok' pre True])
    next
      case False
      note skip = skip_refines [OF ok' False]
      show ?thesis
        by (rule busy) (unfold Ask, rule skip(1), rule skip(2))
    qed
  next
    case (Step i p)
    from turn_refines [OF ok'] show ?thesis
      by (intro some) (simp only: Step, blast)
  next
    case (Kernel f)
    from kernel_refines [OF ok'] show ?thesis
      by (intro some) (simp only: Kernel, blast)
  qed
qed

text \<open>A step gives out at most one number.\<close>

lemma sp_progress_service [simp]: "fst (fst (snd (sp_progress cfg i p c sv pr pend))) = sv"
  by (cases pr) (simp_all split: prod.split)

lemma sp_begin_nodes: "sv_nodes (fst (sp_begin cfg i p st c x)) = sv_nodes (fst x)"
proof (cases c)
  case (Wait_send v port ad sz ra lp mx)
  then show ?thesis
    using svc_resolve_nodes [of i v "fst x"] by (simp add: case_prod_beta)
qed simp

lemma sp_step_nodes:
  "length (sv_nodes (fst (fst (snd (sp_step cfg e st y))))) \<le> Suc (length (sv_nodes (fst (fst y))))"
proof -
  obtain x pend where y: "y = (x, pend)"
    by (rule prod.exhaust)
  show ?thesis
  proof (cases e)
    case (Quick e')
    then show ?thesis
      using svc_step_nodes [of cfg e' x] y by (simp add: case_prod_beta)
  next
    case (Register i p stk port mx mu nm len)
    then show ?thesis
      using y svc_kernel_fst [where x = x] by (simp add: case_prod_beta)
  next
    case (Ask i p stk c)
    then show ?thesis
      using y sp_begin_nodes [of cfg i p st c x] by (simp add: case_prod_beta)
  next
    case (Step i p)
    then show ?thesis
      using y by (simp add: case_prod_beta split: option.split)
  qed (simp add: y)
qed

end
