(* ===== verification/System_Facts.thy ===== *)
theory System_Facts
  imports System
begin

text \<open>
  The invariants of the abstract service that the statements on whole runs rest on: the
  numbers of the containers are kept and tell them apart, and a router that has lost nothing
  translates them. At the end a configuration for the witnesses.
\<close>

section \<open>Invariants of the service\<close>

text \<open>
  The numbers of containers are numbers of the list, registered for the node of their
  router, each of one container; and no number is asked for in vain once it is given out.
\<close>

definition svc_inv :: "(nat \<Rightarrow> c_int) \<Rightarrow> service \<Rightarrow> bool" where
  "svc_inv nids sv =
     ((\<forall>i cid v. sv_members sv i cid = Some v \<longrightarrow> svc_issued v sv \<and> svc_node v sv = nids i) \<and>
      (\<forall>i cid j cid' v. sv_members sv i cid = Some v \<longrightarrow> sv_members sv j cid' = Some v \<longrightarrow> i = j \<and> cid = cid'))"

lemma svc_inv_init: "svc_inv nids svc_init"
  by (simp add: svc_inv_def svc_init_def)

lemma svc_inv_frame:
  "sv_members sv' = sv_members sv \<Longrightarrow> sv_nodes sv' = sv_nodes sv \<Longrightarrow> svc_inv nids sv' = svc_inv nids sv"
  by (simp add: svc_inv_def svc_issued_def svc_node_def)

lemma svc_inv_grow: "svc_inv nids sv \<Longrightarrow> svc_inv nids (svc_grow n sv)"
  by (auto simp: svc_inv_def svc_issued_grow svc_node_grow)

lemma svc_inv_enter:
  assumes inv: "svc_inv nids sv" and v: "unat v = Suc (length (sv_nodes sv))"
  shows "svc_inv nids (svc_enter i cid v (svc_learn i v (svc_grow (nids i) sv)))"
proof -
  have "svc_inv nids (svc_grow (nids i) sv)"
    using inv by (rule svc_inv_grow)
  moreover have "sv_members sv j c \<noteq> Some v" for j c
  proof
    assume "sv_members sv j c = Some v"
    then have "svc_issued v sv"
      using inv unfolding svc_inv_def by blast
    then show False
      using v by (simp add: svc_issued_def)
  qed
  moreover have "svc_issued v (svc_grow (nids i) sv)" and "svc_node v (svc_grow (nids i) sv) = nids i"
    using v by (simp_all add: svc_issued_def svc_node_def spec_resolve_def)
  ultimately show ?thesis
    by (auto simp: svc_inv_def split: if_splits)
qed

lemma svc_join_inv:
  assumes "svc_inv nids sv" and "Suc (length (sv_nodes sv)) < 2 ^ 31"
  shows "svc_inv nids (snd (svc_join (nids i) i cid sv))"
proof -
  have "unat (word_of_nat (Suc (length (sv_nodes sv))) :: c_int) = Suc (length (sv_nodes sv))"
    using assms(2) by (simp add: unat_of_nat del: of_nat_Suc)
  then show ?thesis
    using svc_inv_enter [OF assms(1)] svc_inv_grow [OF assms(1)] assms(1)
      svc_inv_frame [of "svc_cut i sv" sv] svc_inv_frame [of "svc_cut i (svc_grow (nids i) sv)" "svc_grow (nids i) sv"]
    by (auto simp: svc_join_def Let_def simp del: of_nat_Suc split: option.split)
qed

lemma svc_resolve_members: "sv_members (snd (svc_resolve i v sv)) = sv_members sv"
  by (simp add: svc_resolve_def)

lemma svc_step_inv:
  assumes "svc_inv (cf_nid cfg) (fst x)" and "Suc (length (sv_nodes (fst x))) < 2 ^ 31"
  shows "svc_inv (cf_nid cfg) (fst (snd (svc_step cfg e x)))"
proof (cases e)
  case (Lite_Call i p stk c)
  have "svc_inv (cf_nid cfg) (fst (snd (svc_call cfg i cid c x)))" for cid
    using assms svc_join_inv [OF assms] svc_inv_frame [OF svc_resolve_members svc_resolve_nodes]
    by (auto simp: svc_call_fst split: lite_call.split)
  then show ?thesis
    using Lite_Call by (auto split: prod.splits) (metis fst_conv snd_conv)
next
  case (Lose i q a)
  then show ?thesis
    using assms by (simp add: svc_inv_frame [of "svc_loss i q a (fst x)" "fst x"])
qed (use assms in simp)

section \<open>Numbers are kept\<close>

lemma svc_join_keeps:
  "sv_members sv j c = Some v \<Longrightarrow> sv_members (snd (svc_join n i cid sv)) j c = Some v"
  by (auto simp: svc_join_def Let_def simp del: of_nat_Suc split: option.split)

lemma svc_join_enters:
  "svc_join n i cid sv = (v, sv') \<Longrightarrow> v \<noteq> -1 \<Longrightarrow> sv_members sv' i cid = Some v"
  by (auto simp: svc_join_def Let_def simp del: of_nat_Suc split: option.splits if_splits)

lemma svc_step_keeps:
  assumes "sv_members (fst x) j c = Some v"
  shows "sv_members (fst (snd (svc_step cfg e x))) j c = Some v"
proof (cases e)
  case (Lite_Call i p stk call)
  have "sv_members (fst (snd (svc_call cfg i cid call x))) j c = Some v" for cid
    using assms by (simp add: svc_call_fst svc_join_keeps svc_resolve_members split: lite_call.split)
  from this [of "proc_ident (cf_proc cfg i p)"] show ?thesis
    using Lite_Call by (auto split: prod.splits)
qed (use assms in simp_all)

section \<open>Requests reach the node of the container\<close>

text \<open>The events that make a router ask for the node of a number.\<close>

fun asks :: "nat \<Rightarrow> c_int \<Rightarrow> sys_event \<Rightarrow> bool" where
  "asks j v (Lite_Call i p stk (Call_alloc u sz fl pw)) = (i = j \<and> u = v)"
| "asks j v (Lite_Call i p stk (Call_query u port)) = (i = j \<and> u = v)"
| "asks j v _ = False"

fun loses :: "nat \<Rightarrow> sys_event \<Rightarrow> bool" where
  "loses j (Lose i q a) = (i = j)"
| "loses j _ = False"

text \<open>A router that has lost nothing talks to the vcm and does not hold \<open>v\<close> for missing.\<close>

definition svc_fresh :: "nat \<Rightarrow> c_int \<Rightarrow> service \<Rightarrow> bool" where
  "svc_fresh j v sv = (sv_online sv j \<and> sv_lossy sv j = (False, False) \<and> v \<notin> sv_early sv j)"

lemma svc_join_fresh: "svc_fresh j v sv \<Longrightarrow> svc_fresh j v (snd (svc_join n i cid sv))"
  by (auto simp: svc_fresh_def svc_join_def Let_def simp del: of_nat_Suc split: option.split)

lemma svc_resolve_fresh:
  "svc_fresh j v sv \<Longrightarrow> i = j \<and> u = v \<longrightarrow> svc_issued v sv \<Longrightarrow> svc_fresh j v (snd (svc_resolve i u sv))"
  by (auto simp: svc_fresh_def svc_resolve_def)

lemma svc_step_fresh:
  assumes fresh: "svc_fresh j v (fst x)" and e: "\<not> loses j e" "asks j v e \<longrightarrow> svc_issued v (fst x)"
  shows "svc_fresh j v (fst (snd (svc_step cfg e x)))"
proof (cases e)
  case (Lite_Call i p stk c)
  have "svc_fresh j v (fst (snd (svc_call cfg i cid c x)))" for cid
    using fresh e Lite_Call by (cases c) (auto simp: svc_call_fst simp del: svc_call.simps intro: svc_join_fresh svc_resolve_fresh)
  from this [of "proc_ident (cf_proc cfg i p)"] show ?thesis
    using Lite_Call by (auto split: prod.splits)
next
  case (Lose i q a)
  then show ?thesis
    using fresh e by (auto simp: svc_fresh_def)
qed (use fresh in simp)

lemma svc_resolve_issued:
  assumes "svc_fresh j v sv" and "svc_issued v sv"
  shows "fst (svc_resolve j v sv) = svc_node v sv"
  using assms by (simp add: svc_fresh_def svc_resolve_def)

section \<open>A sample configuration\<close>

text \<open>
  Two nodes, 0 and 2. The processes 0 and 3 of node 0 run in containers whose ids agree in five
  characters, process 2 of node 2 in another container.
\<close>

definition sample_config :: "sample_world config" where
  "sample_config = \<lparr>cf_nid = (\<lambda>i. if i = 0 then 4 else 5), cf_os = (\<lambda>_. sample_os), cf_shm = (\<lambda>_. sample_shm),
     cf_rsp_addr = (\<lambda>_ p. 0x800 + 0x100 * word_of_nat p),
     cf_proc = (\<lambda>i p. \<lparr>pr_cpuset = (if p = 0 then ''/docker/abcdef0123'' else if p = 3 then ''/docker/abcdeX0123''
        else ''/docker/123456789a''), pr_pid = 100 + p\<rparr>)\<rparr>"

lemma sample_idents:
  "proc_ident (cf_proc sample_config 0 0) = ''/abcde''" "proc_ident (cf_proc sample_config 0 3) = ''/abcde''"
  "proc_ident (cf_proc sample_config 2 2) = ''/12345''" "cf_nid sample_config 0 = 4" "cf_nid sample_config 2 = 5"
  by (simp_all add: sample_config_def proc_ident_def)

end
