(* ===== verification/Threads_Facts.thy ===== *)
theory Threads_Facts
  imports Threads_Refine System_Facts
begin

text \<open>
  What the refinement of \<open>Threads_Refine\<close> gives for whole runs: the results of every interleaving
  are those of the specification, and a call that waits returns once its answer is there.
\<close>

section \<open>Positions of a run\<close>

definition th_at :: "'k config \<Rightarrow> 'k thread_event list \<Rightarrow> 'k \<Rightarrow> nat \<Rightarrow> 'k threads" where
  "th_at cfg es k n = snd (th_run cfg (take n es) (th_init cfg k))"

definition th_results :: "'k config \<Rightarrow> 'k \<Rightarrow> 'k thread_event list \<Rightarrow> outcome option list" where
  "th_results cfg k es = fst (th_run cfg es (th_init cfg k))"

definition th_kernel :: "'k config \<Rightarrow> 'k thread_event list \<Rightarrow> 'k \<Rightarrow> nat \<Rightarrow> 'k" where
  "th_kernel cfg es k n = sy_kernel (th_sys (th_at cfg es k n))"

lemma th_run_snoc:
  "th_run cfg (es @ [e]) th =
     (case th_run cfg es th of (rs, th1) \<Rightarrow> case th_step cfg e th1 of (r, th2) \<Rightarrow> (rs @ [r], th2))"
  by (induction es arbitrary: th) (auto split: prod.split)

lemma th_at_Suc: "n < length es \<Longrightarrow> th_at cfg es k (Suc n) = snd (th_step cfg (es ! n) (th_at cfg es k n))"
  by (simp add: th_at_def take_Suc_conv_app_nth th_run_snoc split: prod.split)

lemma th_at_0 [simp]: "th_at cfg es k 0 = th_init cfg k"
  by (simp add: th_at_def)

lemma th_run_nth:
  "n < length es \<Longrightarrow> fst (th_run cfg es th) ! n = fst (th_step cfg (es ! n) (snd (th_run cfg (take n es) th)))"
proof (induction es arbitrary: th n)
  case (Cons e es)
  then show ?case
    by (cases n) (simp_all add: case_prod_beta)
qed simp

lemma th_results_nth: "n < length es \<Longrightarrow> th_results cfg k es ! n = fst (th_step cfg (es ! n) (th_at cfg es k n))"
  by (simp add: th_results_def th_at_def th_run_nth)

section \<open>The run of the specification\<close>

lemma sp_run_snoc:
  "sp_run cfg (es @ [e]) y =
     (case sp_run cfg es y of (rs, y1) \<Rightarrow> case sp_step cfg (fst e) (snd e) y1 of (r, y2) \<Rightarrow> (rs @ [r], y2))"
  by (induction es arbitrary: y) (auto split: prod.split)

definition sp_at :: "'k config \<Rightarrow> 'k thread_event list \<Rightarrow> stale list \<Rightarrow> 'k \<Rightarrow> nat \<Rightarrow> 'k spec" where
  "sp_at cfg es sts k n = snd (sp_run cfg (take n (zip es sts)) (sp_init k))"

lemma sp_at_0 [simp]: "sp_at cfg es sts k 0 = sp_init k"
  by (simp add: sp_at_def)

lemma sp_at_Suc:
  assumes "n < length es" and "n < length sts"
  shows "sp_at cfg es sts k (Suc n) = snd (sp_step cfg (es ! n) (sts ! n) (sp_at cfg es sts k n))"
proof -
  have "take (Suc n) (zip es sts) = take n (zip es sts) @ [(es ! n, sts ! n)]"
    using assms by (simp add: take_Suc_conv_app_nth)
  then show ?thesis
    by (simp add: sp_at_def sp_run_snoc case_prod_beta)
qed

lemma sp_at_append: "n \<le> length sts \<Longrightarrow> sp_at cfg es (sts @ sts') k n = sp_at cfg es sts k n"
  by (simp add: sp_at_def take_zip)

lemma sp_run_nth:
  "n < length zs \<Longrightarrow> fst (sp_run cfg zs y) ! n = fst (sp_step cfg (fst (zs ! n)) (snd (zs ! n)) (snd (sp_run cfg (take n zs) y)))"
proof (induction zs arbitrary: y n)
  case (Cons z zs)
  then show ?case
    by (cases n) (simp_all add: case_prod_beta)
qed simp

lemma length_sp_run: "length (fst (sp_run cfg zs y)) = length zs"
  by (induction zs arbitrary: y) (simp_all add: case_prod_beta)

lemma length_th_run: "length (fst (th_run cfg es th)) = length es"
  by (induction es arbitrary: th) (simp_all add: case_prod_beta)

text \<open>
  \<open>sts\<close> are the contents of the memory that the calls of the run have found, and the specification
  that finds the same goes along with the system.
\<close>

definition spec_of :: "'k config \<Rightarrow> 'k thread_event list \<Rightarrow> 'k \<Rightarrow> stale list \<Rightarrow> bool" where
  "spec_of cfg es k sts =
     (length sts = length es \<and>
      (\<forall>n\<le>length es. th_ok cfg (th_at cfg es k n) (sp_at cfg es sts k n)) \<and>
      (\<forall>n<length es. th_results cfg k es ! n = fst (sp_step cfg (es ! n) (sts ! n) (sp_at cfg es sts k n))))"

lemma sp_at_nodes:
  "n \<le> length es \<Longrightarrow> n \<le> length sts \<Longrightarrow> length (sv_nodes (fst (fst (sp_at cfg es sts k n)))) \<le> n"
proof (induction n)
  case 0
  then show ?case
    by (simp add: sp_init_def svc_init_def)
next
  case (Suc n)
  then have "n < length es" and "n < length sts"
    by simp_all
  note at = sp_at_Suc [OF this, of cfg k]
  show ?case
    unfolding at using sp_step_nodes [of cfg "es ! n" "sts ! n" "sp_at cfg es sts k n"] Suc by simp
qed

lemma spec_upto:
  assumes ok: "list_all (thread_event_ok cfg) es" "length es < 2 ^ 31"
  shows "n \<le> length es \<Longrightarrow> \<exists>sts. length sts = n \<and>
    (\<forall>m\<le>n. th_ok cfg (th_at cfg es k m) (sp_at cfg es sts k m)) \<and>
    (\<forall>m<n. th_results cfg k es ! m = fst (sp_step cfg (es ! m) (sts ! m) (sp_at cfg es sts k m)))"
proof (induction n)
  case 0
  then show ?case
    by (simp add: th_ok_init)
next
  case (Suc n)
  then obtain sts where len: "length sts = n" and inv: "\<forall>m\<le>n. th_ok cfg (th_at cfg es k m) (sp_at cfg es sts k m)"
    and res: "\<forall>m<n. th_results cfg k es ! m = fst (sp_step cfg (es ! m) (sts ! m) (sp_at cfg es sts k m))"
    by auto
  have n: "n < length es"
    using Suc.prems by simp
  have ev: "thread_event_ok cfg (es ! n)"
    using ok(1) n by (simp add: list_all_length)
  have room: "Suc (length (sv_nodes (fst (fst (sp_at cfg es sts k n))))) < 2 ^ 31"
    using sp_at_nodes [of n es sts cfg k] n len ok(2) by simp
  obtain st th' where step: "th_step cfg (es ! n) (th_at cfg es k n) = (fst (sp_step cfg (es ! n) st (sp_at cfg es sts k n)), th')"
    and ok': "th_ok cfg th' (snd (sp_step cfg (es ! n) st (sp_at cfg es sts k n)))"
    using th_step_refines [OF inv [rule_format, OF order_refl] ev room] by (elim exE conjE) (rule that)
  let ?sts = "sts @ [st]"
  have same: "m \<le> n \<Longrightarrow> sp_at cfg es ?sts k m = sp_at cfg es sts k m" for m
    using len by (simp add: sp_at_append)
  have "sp_at cfg es ?sts k (Suc n) = snd (sp_step cfg (es ! n) st (sp_at cfg es sts k n))"
    using n len same by (simp add: sp_at_Suc nth_append)
  then have inv': "\<forall>m\<le>Suc n. th_ok cfg (th_at cfg es k m) (sp_at cfg es ?sts k m)"
    using inv same ok' step n by (auto simp: th_at_Suc le_Suc_eq)
  have res': "\<forall>m<Suc n. th_results cfg k es ! m = fst (sp_step cfg (es ! m) (?sts ! m) (sp_at cfg es ?sts k m))"
    using res same step n len by (auto simp: th_results_nth less_Suc_eq nth_append)
  show ?case
    using len inv' res' by (intro exI [of _ ?sts] conjI) simp_all
qed

lemma spec_exists:
  assumes "list_all (thread_event_ok cfg) es" and "length es < 2 ^ 31"
  obtains sts where "spec_of cfg es k sts"
proof -
  have "\<exists>sts. spec_of cfg es k sts"
    using spec_upto [OF assms order_refl, of k] by (simp only: spec_of_def)
  then show thesis
    by (rule exE) (rule that)
qed

lemma spec_result:
  "spec_of cfg es k sts \<Longrightarrow> n < length es \<Longrightarrow>
   th_results cfg k es ! n = fst (sp_step cfg (es ! n) (sts ! n) (sp_at cfg es sts k n))"
  by (simp add: spec_of_def)

lemma spec_state: "spec_of cfg es k sts \<Longrightarrow> n \<le> length es \<Longrightarrow> th_ok cfg (th_at cfg es k n) (sp_at cfg es sts k n)"
  by (simp add: spec_of_def)

lemma spec_Suc:
  "spec_of cfg es k sts \<Longrightarrow> n < length es \<Longrightarrow>
   sp_at cfg es sts k (Suc n) = snd (sp_step cfg (es ! n) (sts ! n) (sp_at cfg es sts k n))"
  by (simp add: spec_of_def sp_at_Suc)

lemma spec_kernel: "spec_of cfg es k sts \<Longrightarrow> n \<le> length es \<Longrightarrow> th_kernel cfg es k n = snd (fst (sp_at cfg es sts k n))"
  using spec_state [of cfg es k sts n] by (simp add: th_kernel_def th_ok_def sys_ok_def)

lemma spec_wait:
  "spec_of cfg es k sts \<Longrightarrow> n \<le> length es \<Longrightarrow> th_wait (th_at cfg es k n) i p = None \<longleftrightarrow> snd (sp_at cfg es sts k n) i p = None"
  by (rule th_ok_free) (rule spec_state)

lemma spec_results: "spec_of cfg es k sts \<Longrightarrow> th_results cfg k es = fst (sp_run cfg (zip es sts) (sp_init k))"
proof (rule nth_equalityI)
  assume s: "spec_of cfg es k sts"
  then show len: "length (th_results cfg k es) = length (fst (sp_run cfg (zip es sts) (sp_init k)))"
    by (simp add: th_results_def length_sp_run length_th_run spec_of_def)
  show "th_results cfg k es ! n = fst (sp_run cfg (zip es sts) (sp_init k)) ! n" if "n < length (th_results cfg k es)" for n
    using that s len spec_result [OF s, of n] by (simp add: sp_run_nth sp_at_def length_sp_run spec_of_def)
qed

section \<open>The service during a run\<close>

text \<open>A step changes the service like a call of \<open>System\<close>, like a resolution, or not at all.\<close>

lemma sp_step_service:
  obtains (quick) e' where "e = Quick e'" and "fst (fst (snd (sp_step cfg e st y))) = fst (snd (svc_step cfg e' (fst y)))"
  | (send) i p stk v port ad sz ra lp mx where "e = Ask i p stk (Wait_send v port ad sz ra lp mx)"
      and "fst (fst (snd (sp_step cfg e st y))) = snd (svc_resolve i v (fst (fst y)))"
  | (same) "fst (fst (snd (sp_step cfg e st y))) = fst (fst y)"
proof -
  obtain x pend where y: "y = (x, pend)"
    by (rule prod.exhaust)
  show thesis
  proof (cases e)
    case (Quick e')
    then show thesis
      using quick [of e'] same y by (cases "waits_for pend e'") (simp_all add: case_prod_beta)
  next
    case (Register i p stk port mx mu nm len)
    then show thesis
      using same y svc_kernel_fst [where x = x] by (simp add: case_prod_beta)
  next
    case (Ask i p stk c)
    then show thesis
      using same y send by (cases c; cases "pend i p") (simp_all add: case_prod_beta)
  next
    case (Step i p)
    then show thesis
      using same y by (simp add: case_prod_beta split: option.splits)
  next
    case (Kernel f)
    then show thesis
      using same y by simp
  qed
qed

fun th_asks :: "nat \<Rightarrow> c_int \<Rightarrow> 'k thread_event \<Rightarrow> bool" where
  "th_asks j v (Quick e) = asks j v e"
| "th_asks j v (Ask i p stk (Wait_send u port ad sz ra lp mx)) = (i = j \<and> u = v)"
| "th_asks j v _ = False"

fun th_loses :: "nat \<Rightarrow> 'k thread_event \<Rightarrow> bool" where
  "th_loses j (Quick e) = loses j e"
| "th_loses j _ = False"

lemma sp_step_inv:
  assumes "svc_inv (cf_nid cfg) (fst (fst y))" and "Suc (length (sv_nodes (fst (fst y)))) < 2 ^ 31"
  shows "svc_inv (cf_nid cfg) (fst (fst (snd (sp_step cfg e st y))))"
  by (rule sp_step_service [of e cfg st y])
    (simp_all add: svc_step_inv [OF assms] assms(1) svc_inv_frame [OF svc_resolve_members svc_resolve_nodes])

lemma sp_step_keeps:
  assumes "sv_members (fst (fst y)) j c = Some v"
  shows "sv_members (fst (fst (snd (sp_step cfg e st y)))) j c = Some v"
  by (rule sp_step_service [of e cfg st y]) (simp_all add: svc_step_keeps [OF assms] assms svc_resolve_members)

lemma sp_step_fresh:
  assumes "svc_fresh j v (fst (fst y))" and "\<not> th_loses j e" and "th_asks j v e \<longrightarrow> svc_issued v (fst (fst y))"
  shows "svc_fresh j v (fst (fst (snd (sp_step cfg e st y))))"
proof (rule sp_step_service [of e cfg st y])
  fix e'
  assume "e = Quick e'" and "fst (fst (snd (sp_step cfg e st y))) = fst (snd (svc_step cfg e' (fst y)))"
  then show ?thesis
    using svc_step_fresh [of j v "fst y" e' cfg] assms by simp
next
  fix i p stk u port ad sz ra lp mx
  assume "e = Ask i p stk (Wait_send u port ad sz ra lp mx)"
    and "fst (fst (snd (sp_step cfg e st y))) = snd (svc_resolve i u (fst (fst y)))"
  then show ?thesis
    using svc_resolve_fresh [OF assms(1), of i u] assms(3) by simp
qed (use assms(1) in simp)

text \<open>The service at a position of the run.\<close>

definition sv_at :: "'k config \<Rightarrow> 'k thread_event list \<Rightarrow> stale list \<Rightarrow> 'k \<Rightarrow> nat \<Rightarrow> service" where
  "sv_at cfg es sts k n = fst (fst (sp_at cfg es sts k n))"

lemma sv_at_inv:
  assumes s: "spec_of cfg es k sts" and len: "length es < 2 ^ 31"
  shows "n \<le> length es \<Longrightarrow> svc_inv (cf_nid cfg) (sv_at cfg es sts k n)"
proof (induction n)
  case 0
  show ?case
    by (simp add: sv_at_def sp_init_def svc_inv_init)
next
  case (Suc n)
  have "Suc (length (sv_nodes (sv_at cfg es sts k n))) < 2 ^ 31"
    using sp_at_nodes [of n es sts cfg k] Suc.prems len s by (simp add: spec_of_def sv_at_def)
  then show ?case
    using sp_step_inv [of cfg "sp_at cfg es sts k n" "es ! n" "sts ! n"] Suc spec_Suc [OF s, of n] by (simp add: sv_at_def)
qed

lemma sv_at_keeps:
  assumes s: "spec_of cfg es k sts" and m: "sv_members (sv_at cfg es sts k m) j c = Some v" and "m \<le> n" and "n \<le> length es"
  shows "sv_members (sv_at cfg es sts k n) j c = Some v"
  using assms(3,4)
proof (induction n rule: dec_induct)
  case base
  show ?case
    by (rule m)
next
  case (step n)
  then show ?case
    using sp_step_keeps [of "sp_at cfg es sts k n" j c v cfg "es ! n" "sts ! n"] spec_Suc [OF s, of n] by (simp add: sv_at_def)
qed

text \<open>A join that has returned a number, at a position of a run.\<close>

definition joined_as :: "'k config \<Rightarrow> 'k \<Rightarrow> 'k thread_event list \<Rightarrow> nat \<Rightarrow> nat \<Rightarrow> nat \<Rightarrow> c_int \<Rightarrow> bool" where
  "joined_as cfg k es a i p v =
     (a < length es \<and> (\<exists>stk addr eth ib. es ! a = Quick (Lite_Call i p stk (Call_join addr eth ib))) \<and>
      th_results cfg k es ! a = Some (Int_result v) \<and> v \<noteq> -1)"

lemma joined_member:
  assumes s: "spec_of cfg es k sts" and j: "joined_as cfg k es a i p v" and n: "a < n" "n \<le> length es"
  shows "sv_members (sv_at cfg es sts k n) i (proc_ident (cf_proc cfg i p)) = Some v"
proof -
  obtain stk addr eth ib where e: "es ! a = Quick (Lite_Call i p stk (Call_join addr eth ib))"
    and a: "a < length es" and r: "th_results cfg k es ! a = Some (Int_result v)" "v \<noteq> -1"
    using j by (auto simp: joined_as_def)
  obtain x pend where y: "sp_at cfg es sts k a = (x, pend)"
    by (rule prod.exhaust)
  obtain w sv' where sj: "svc_join (cf_nid cfg i) i (proc_ident (cf_proc cfg i p)) (fst x) = (w, sv')"
    by (rule prod.exhaust)
  have free: "\<not> waits_for pend (Lite_Call i p stk (Call_join addr eth ib))" and "w = v"
    using spec_result [OF s a] r(1) e y sj by (auto split: if_splits)
  then have "sv_members (sv_at cfg es sts k (Suc a)) i (proc_ident (cf_proc cfg i p)) = Some v"
    using svc_join_enters [OF sj] r(2) e y sj spec_Suc [OF s a] by (simp add: sv_at_def)
  then show ?thesis
    by (rule sv_at_keeps [OF s]) (use n in auto)
qed

lemma fresh_at:
  assumes s: "spec_of cfg es k sts" and len: "length es < 2 ^ 31" and j: "joined_as cfg k es a i p v"
    and loss: "\<forall>e\<in>set es. \<not> th_loses m e" and early: "\<forall>n<a. \<not> th_asks m v (es ! n)"
  shows "n \<le> length es \<Longrightarrow> svc_fresh m v (sv_at cfg es sts k n)"
proof (induction n)
  case 0
  show ?case
    by (simp add: sv_at_def sp_init_def svc_fresh_def svc_init_def)
next
  case (Suc n)
  have "svc_issued v (sv_at cfg es sts k n)" if "th_asks m v (es ! n)"
  proof -
    have "\<not> th_asks m v (es ! a)"
      using j by (auto simp: joined_as_def)
    then have "a < n"
      using that early by (metis nat_neq_iff)
    then have "sv_members (sv_at cfg es sts k n) i (proc_ident (cf_proc cfg i p)) = Some v"
      using joined_member [OF s j] Suc.prems by simp
    then show ?thesis
      using sv_at_inv [OF s len, of n] Suc.prems unfolding svc_inv_def by auto
  qed
  then show ?case
    using sp_step_fresh [of m v "sp_at cfg es sts k n" "es ! n" cfg "sts ! n"] Suc loss spec_Suc [OF s, of n]
    by (simp add: sv_at_def)
qed

lemma resolve_joined:
  assumes s: "spec_of cfg es k sts" and len: "length es < 2 ^ 31" and j: "joined_as cfg k es a i p v"
    and loss: "\<forall>e\<in>set es. \<not> th_loses m e" and early: "\<forall>n<a. \<not> th_asks m v (es ! n)"
    and b: "a < b" "b \<le> length es"
  shows "fst (svc_resolve m v (sv_at cfg es sts k b)) = cf_nid cfg i"
proof -
  have "sv_members (sv_at cfg es sts k b) i (proc_ident (cf_proc cfg i p)) = Some v"
    by (rule joined_member [OF s j b])
  moreover have "svc_inv (cf_nid cfg) (sv_at cfg es sts k b)"
    by (rule sv_at_inv [OF s len b(2)])
  ultimately have "svc_issued v (sv_at cfg es sts k b)" and "svc_node v (sv_at cfg es sts k b) = cf_nid cfg i"
    unfolding svc_inv_def by blast+
  moreover have "svc_fresh m v (sv_at cfg es sts k b)"
    by (rule fresh_at [OF s len j loss early b(2)])
  ultimately show ?thesis
    by (simp add: svc_resolve_issued)
qed

section \<open>Waiting calls return\<close>

text \<open>The answer is there: the polled word has changed.\<close>

fun arrived :: "'w lite_os \<Rightarrow> wait \<Rightarrow> 'w \<Rightarrow> bool" where
  "arrived os (Recv_spin d lp ret i) w = (fst (os_load64 os d w) \<noteq> 0)"
| "arrived os (Recv_sleep d lp ret) w = (fst (os_load64 os d w) \<noteq> 0)"
| "arrived os (Send_spin lp) w = (fst (os_load32 os lp w) \<noteq> SEND_REPLY_WAIT)"
| "arrived os _ w = True"

fun wait_rank :: "wait \<Rightarrow> nat" where
  "wait_rank (Recv_spin d lp ret i) = 3"
| "wait_rank (Recv_sleep d lp ret) = 2"
| "wait_rank (Send_spin lp) = 2"
| "wait_rank _ = 1"

lemma wait_rank_bounds: "0 < wait_rank wt \<and> wait_rank wt \<le> 3"
  by (cases wt) simp_all

lemma poll_arrived:
  "arrived os wt w \<Longrightarrow> poll os wt w = Waits wt' w' \<Longrightarrow> wait_rank wt' < wait_rank wt"
  by (cases wt) (auto split: prod.splits if_splits)

text \<open>Other events leave the place where a thread waits alone.\<close>

lemma th_progress_waits:
  "(j, q) \<noteq> (i, p) \<Longrightarrow> th_wait (snd (th_progress cfg i p stk c rt pr s th)) j q = th_wait th j q"
  by (cases pr) (auto simp: th_save_def split: prod.split switch_result.split)

lemma th_ask_waits:
  assumes "(j, q) \<noteq> (i, p)"
  shows "th_wait (snd (th_ask cfg i p stk c th)) j q = th_wait th j q"
proof -
  obtain r s where r: "rpc_request (asking_env cfg i p) (wait_req c (stk_req stk)) (sys_load i p (th_sys th)) = (r, s)"
    by (rule prod.exhaust)
  obtain rt pr where b: "thread_begin (node_env cfg i p) (box_locals s) (box_shared s) = (rt, pr)"
    by (rule prod.exhaust)
  show ?thesis
    using th_progress_waits [OF assms, of cfg stk "(c, True)" rt pr s th] assms by (auto simp: th_ask_def r b th_save_def)
qed

lemma th_turn_waits:
  assumes "(j, q) \<noteq> (i, p)"
  shows "th_wait (snd (th_turn cfg i p th)) j q = th_wait th j q"
proof (cases "th_wait th i p")
  case (Some a)
  let ?s = "sys_load i p (th_sys th)"
  obtain stk c wt where a: "a = (stk, c, wt)"
    by (rule prod_cases3)
  show ?thesis
    using th_progress_waits [OF assms, of cfg stk c _ _ ?s th] by (simp add: th_turn_def Let_def Some a)
qed (simp add: th_turn_def)

lemma th_leave_waits: "e \<noteq> Exit j q \<Longrightarrow> th_wait (th_leave e th) j q = th_wait th j q"
  by (cases e) auto

lemma th_step_waits:
  assumes w: "th_wait th j q = Some a" and e: "e \<noteq> Step j q" "e \<noteq> Quick (Exit j q)"
  shows "th_wait (snd (th_step cfg e th)) j q = Some a"
proof (cases e)
  case (Ask i p stk c)
  show ?thesis
  proof (cases "(j, q) = (i, p)")
    case False
    from th_ask_waits [OF this, of cfg stk c th] show ?thesis
      using w Ask by simp
  qed (use w Ask in simp)
next
  case (Step i p)
  then have ne: "(j, q) \<noteq> (i, p)"
    using e by auto
  show ?thesis
    using w Step th_turn_waits [OF ne, of cfg th] by simp
next
  case (Register i p stk port mx mu nm len)
  then show ?thesis
    using w by (cases a) (auto simp: th_register_def th_save_def split: option.split)
next
  case (Quick e')
  then show ?thesis
    using w e th_leave_waits [of e' j q th] by (auto split: prod.split)
qed (use w in simp)

lemma th_step_keeps:
  assumes w: "th_wait th j q = Some (stk, c, wt)" and e: "e \<noteq> Step j q"
  obtains c' where "th_wait (snd (th_step cfg e th)) j q = Some (stk, c', wt)"
proof (cases "e = Quick (Exit j q)")
  case True
  then show thesis
    using w that [of "forsake c"] by simp
next
  case False
  then show thesis
    using th_step_waits [OF w e] that by blast
qed

text \<open>A step of the thread itself: where \<open>poll\<close> leaves it, from the kernel as it is.\<close>

lemma th_turn_poll:
  assumes ok: "th_ok cfg th y" and w: "th_wait th i p = Some (stk, c, wt)"
  shows "case poll (cf_os cfg i) wt (sy_kernel (th_sys th)) of
      Waits wt' k' \<Rightarrow> fst (th_step cfg (Step i p) th) = None \<and> (\<exists>stk'. th_wait (snd (th_step cfg (Step i p) th)) i p = Some (stk', c, wt'))
    | Returns v k' \<Rightarrow> (fst (th_step cfg (Step i p) th) \<noteq> None \<longleftrightarrow> snd c) \<and> th_wait (snd (th_step cfg (Step i p) th)) i p = None"
proof -
  obtain x pend where y: "y = (x, pend)"
    by (rule prod.exhaust)
  have pend: "pend i p = Some (c, wt)"
    using th_ok_wait [OF ok, of i p] w y by (cases "pend i p") auto
  have k: "sy_kernel (th_sys th) = snd x"
    using th_ok_sys [OF ok] y by (simp add: sys_ok_def)
  obtain r' y' where s: "sp_step cfg (Step i p) \<lparr>st_descriptor = 0, st_length = 0, st_rest = []\<rparr> (x, pend) = (r', y')"
    by (rule prod.exhaust)
  obtain th' where th': "th_step cfg (Step i p) th = (r', th')" and ok': "th_ok cfg th' y'"
    using turn_refines [OF ok [unfolded y] s] by (elim exE conjE) (rule that)
  note w' = th_ok_wait [OF ok', of i p]
  show ?thesis
  proof (cases "poll (cf_os cfg i) wt (snd x)")
    case (Waits wt' k')
    then have "r' = None" and "snd y' i p = Some (c, wt')"
      using s pend by auto
    then show ?thesis
      using w' Waits k th' by (cases "th_wait th' i p") auto
  next
    case (Returns v k')
    then have "r' \<noteq> None \<longleftrightarrow> snd c" and "snd y' i p = None"
      using s pend by (auto split: prod.splits if_splits)
    then show ?thesis
      using w' Returns k th' by (cases "th_wait th' i p") auto
  qed
qed

text \<open>When the answer is there, the step ends the call or comes closer to its end.\<close>

lemma th_turn_arrived:
  assumes ok: "th_ok cfg th y" and w: "th_wait th i p = Some (stk, c, wt)"
    and a: "arrived (cf_os cfg i) wt (sy_kernel (th_sys th))" and r: "th_wait (snd (th_step cfg (Step i p) th)) i p \<noteq> None"
  shows "\<exists>stk' wt'. th_wait (snd (th_step cfg (Step i p) th)) i p = Some (stk', c, wt') \<and> wait_rank wt' < wait_rank wt"
  using th_turn_poll [OF ok w] poll_arrived [OF a] r
  by (cases "poll (cf_os cfg i) wt (sy_kernel (th_sys th))") auto

text \<open>The thread is in a loop, not behind it.\<close>

fun looks :: "wait \<Rightarrow> bool" where
  "looks (Recv_done d lp ret) = False"
| "looks (Send_done lp) = False"
| "looks _ = True"

lemma poll_looks:
  "looks wt \<Longrightarrow> \<exists>wt' w'. poll os wt w = Waits wt' w' \<and> (looks wt' \<or> arrived os wt w)"
  "\<not> looks wt \<Longrightarrow> \<exists>v w'. poll os wt w = Returns v w'"
  by (cases wt; auto split: prod.split)+

text \<open>A request to wait that has not returned leaves its process waiting.\<close>

lemma th_ask_waiting:
  assumes ok: "th_ok cfg th y" and ev: "thread_event_ok cfg (Ask i p stk c)" and free: "th_wait th i p = None"
  shows "case th_wait (snd (th_step cfg (Ask i p stk c) th)) i p of
      None \<Rightarrow> fst (th_step cfg (Ask i p stk c) th) \<noteq> None | Some (stk', c', wt) \<Rightarrow> looks wt \<and> snd c'"
proof -
  obtain x pend where y: "y = (x, pend)"
    by (rule prod.exhaust)
  have pr: "proc_ok (cf_proc cfg i p)" "stack_ok stk" and free': "pend i p = None"
    using ev th_ok_free [OF ok, of i p] free y by simp_all
  obtain st where st: "\<forall>r y'. sp_step cfg (Ask i p stk c) st (x, pend) = (r, y') \<longrightarrow>
      (\<exists>th'. th_step cfg (Ask i p stk c) th = (r, th') \<and> th_ok cfg th' y')"
    using ask_refines [OF ok [unfolded y] pr free'] by (rule exE)
  obtain r' y' where s: "sp_step cfg (Ask i p stk c) st (x, pend) = (r', y')"
    by (rule prod.exhaust)
  obtain th' where th': "th_step cfg (Ask i p stk c) th = (r', th')" and ok': "th_ok cfg th' y'"
    using st s by blast
  obtain sv pr where b: "sp_begin cfg i p st c x = (sv, pr)"
    by (rule prod.exhaust)
  have "case snd y' i p of None \<Rightarrow> r' \<noteq> None | Some (c', wt) \<Rightarrow> looks wt \<and> snd c'"
    using s free' b by (cases pr; cases c) (auto simp: begin_receive_def begin_send_def split: prod.splits if_splits)
  then show ?thesis
    using th_ok_wait [OF ok', of i p] th' by (cases "th_wait th' i p"; cases "snd y' i p") auto
qed

text \<open>Only a request to wait makes a process wait.\<close>

lemma th_step_free:
  assumes w: "th_wait th j q = None" and e: "\<And>stk c. e \<noteq> Ask j q stk c"
  shows "th_wait (snd (th_step cfg e th)) j q = None"
proof (cases e)
  case (Ask i p stk c)
  then have ne: "(j, q) \<noteq> (i, p)"
    using e by auto
  show ?thesis
    using w Ask th_ask_waits [OF ne, of cfg stk c th] by simp
next
  case (Step i p)
  then show ?thesis
    using w th_turn_waits [of j q i p cfg th] by (cases "(j, q) = (i, p)") (simp_all add: th_turn_def)
next
  case (Register i p stk port mx mu nm len)
  then show ?thesis
    using w by (auto simp: th_register_def th_save_def split: option.split)
next
  case (Quick e')
  have "th_wait (th_leave e' th) j q = None"
    using w by (cases e') auto
  then show ?thesis
    using w Quick by (auto split: prod.split)
qed (use w in simp)

definition turns :: "nat \<Rightarrow> nat \<Rightarrow> 'k thread_event list \<Rightarrow> nat \<Rightarrow> nat \<Rightarrow> nat set" where
  "turns i p es a b = {n. a < n \<and> n < b \<and> es ! n = Step i p}"

lemma finite_turns: "finite (turns i p es a b)"
  by (rule finite_subset [of _ "{..<b}"]) (auto simp: turns_def)

lemma turns_Suc:
  "a < n \<Longrightarrow> turns i p es a (Suc n) = (if es ! n = Step i p then insert n (turns i p es a n) else turns i p es a n)"
  by (auto simp: turns_def less_Suc_eq)

lemma card_turns_Suc:
  "a < n \<Longrightarrow> card (turns i p es a (Suc n)) = (if es ! n = Step i p then 1 else 0) + card (turns i p es a n)"
  by (simp add: turns_Suc card_insert_disjoint [OF finite_turns]) (simp add: turns_def)

lemma waiting_progress:
  assumes ok: "list_all (thread_event_ok cfg) es" "length es < 2 ^ 31"
    and ask: "es ! a = Ask i p stk c" "th_results cfg k es ! a = None"
    and arr: "\<forall>n stk c wt. n \<in> turns i p es a (length es) \<longrightarrow> th_wait (th_at cfg es k n) i p = Some (stk, c, wt) \<longrightarrow>
      arrived (cf_os cfg i) wt (th_kernel cfg es k n)"
  shows "a < n \<Longrightarrow> n \<le> length es \<Longrightarrow> \<forall>m\<in>turns i p es a n. th_wait (th_at cfg es k (Suc m)) i p \<noteq> None \<Longrightarrow>
    \<exists>stk c wt. th_wait (th_at cfg es k n) i p = Some (stk, c, wt) \<and> wait_rank wt + card (turns i p es a n) \<le> 3"
proof (induction n)
  case (Suc n)
  obtain sts where "spec_of cfg es k sts"
    by (rule spec_exists [OF ok])
  note y = spec_state [OF this Suc_leD [OF Suc.prems(2)]]
  have at: "th_at cfg es k (Suc n) = snd (th_step cfg (es ! n) (th_at cfg es k n))"
    and res: "th_results cfg k es ! n = fst (th_step cfg (es ! n) (th_at cfg es k n))"
    using Suc.prems by (simp_all add: th_at_Suc th_results_nth)
  show ?case
  proof (cases "n = a")
    case True
    have "thread_event_ok cfg (Ask i p stk c)"
      using ok(1) ask(1) True Suc.prems by (metis list_all_length Suc_le_lessD)
    then have "th_wait (th_at cfg es k (Suc n)) i p \<noteq> None"
      using th_ask_waiting [OF y, of i p stk c] th_step_waits [of "th_at cfg es k n" i p _ "es ! n" cfg] ask res at True
      by (cases "th_wait (th_at cfg es k n) i p"; cases "th_wait (th_at cfg es k (Suc n)) i p") auto
    moreover have "turns i p es a (Suc n) = {}"
      using True by (auto simp: turns_def)
    ultimately show ?thesis
      using wait_rank_bounds by auto
  next
    case False
    then have n: "a < n" "n < length es"
      using Suc.prems by simp_all
    then obtain stk' c' wt where w: "th_wait (th_at cfg es k n) i p = Some (stk', c', wt)"
      and rank: "wait_rank wt + card (turns i p es a n) \<le> 3"
      using Suc.IH Suc.prems(3) by (auto simp: turns_Suc split: if_splits)
    show ?thesis
    proof (cases "es ! n = Step i p")
      case True
      then have "n \<in> turns i p es a (length es)" and "n \<in> turns i p es a (Suc n)"
        using n by (simp_all add: turns_def)
      then have "arrived (cf_os cfg i) wt (sy_kernel (th_sys (th_at cfg es k n)))"
        and "th_wait (snd (th_step cfg (Step i p) (th_at cfg es k n))) i p \<noteq> None"
        using arr Suc.prems(3) w at True by (auto simp: th_kernel_def)
      from th_turn_arrived [OF y w this] show ?thesis
        using rank at True n(1) by (auto simp: card_turns_Suc)
    next
      case False
      obtain c2 where "th_wait (snd (th_step cfg (es ! n) (th_at cfg es k n))) i p = Some (stk', c2, wt)"
        by (rule th_step_keeps [OF w False])
      then show ?thesis
        using False rank at n(1) by (auto simp: card_turns_Suc)
    qed
  qed
qed simp

text \<open>A process that has not exited since it has asked is there when its call ends.\<close>

lemma still_there:
  assumes ok: "list_all (thread_event_ok cfg) es" "length es < 2 ^ 31" and free: "th_wait (th_at cfg es k a) i p = None"
  shows "a \<le> n \<Longrightarrow> n \<le> length es \<Longrightarrow> \<forall>l. a < l \<and> l < n \<longrightarrow> es ! l \<noteq> Quick (Exit i p) \<Longrightarrow>
    th_wait (th_at cfg es k n) i p = Some (stk, c, wt) \<Longrightarrow> snd c"
proof (induction n arbitrary: stk c wt rule: dec_induct)
  case base
  then show ?case
    using free by simp
next
  case (step n)
  obtain sts where "spec_of cfg es k sts"
    by (rule spec_exists [OF ok])
  note y = spec_state [OF this Suc_leD [OF step.prems(1)]]
  have n: "n < length es" and ev: "thread_event_ok cfg (es ! n)"
    using step.prems(1) ok(1) by (simp_all add: list_all_length)
  note at = th_at_Suc [OF n, of cfg k]
  show ?case
  proof (cases "th_wait (th_at cfg es k n) i p")
    case None
    then obtain stk' c' where "es ! n = Ask i p stk' c'"
      using th_step_free [OF None, of "es ! n" cfg] step.prems(3) at by auto
    then show ?thesis
      using th_ask_waiting [OF y _ None, of stk' c'] ev step.prems(3) at by simp
  next
    case (Some b)
    obtain stk0 c0 wt0 where b: "b = (stk0, c0, wt0)"
      by (rule prod_cases3)
    have "snd c0"
      using step.IH [OF _ _ Some [unfolded b]] step.prems(1,2) by simp
    moreover have "c = c0"
    proof (cases "es ! n = Step i p")
      case True
      then show ?thesis
        using th_turn_poll [OF y Some [unfolded b]] step.prems(3) at
        by (cases "poll (cf_os cfg i) wt0 (sy_kernel (th_sys (th_at cfg es k n)))") auto
    next
      case False
      have "a \<noteq> n"
        using free Some by auto
      then have "es ! n \<noteq> Quick (Exit i p)"
        using step.prems(2) step.hyps by simp
      from th_step_waits [OF Some False this, of cfg] show ?thesis
        using step.prems(3) at b by simp
    qed
    ultimately show ?thesis
      by simp
  qed
qed

text \<open>A step that ends a call returns it to a process that is still there.\<close>

lemma step_ends_call:
  assumes ok: "list_all (thread_event_ok cfg) es" "length es < 2 ^ 31" and n: "n < length es" "es ! n = Step i p"
    and w: "th_wait (th_at cfg es k n) i p = Some (stk, c, wt)" and e: "th_wait (th_at cfg es k (Suc n)) i p = None"
  shows "th_results cfg k es ! n \<noteq> None \<longleftrightarrow> snd c"
proof -
  obtain sts where "spec_of cfg es k sts"
    by (rule spec_exists [OF ok])
  note y = spec_state [OF this less_imp_le [OF n(1)]]
  show ?thesis
    using th_turn_poll [OF y w] e n(2) by (auto simp: th_at_Suc [OF n(1)] th_results_nth [OF n(1)] split: progress.splits)
qed

text \<open>
  A thread behind its loop has seen the answer: at one of its steps \<open>m\<close> it was in the loop, the
  polled word had changed, and the process has been waiting since.
\<close>

definition saw_answer :: "'k config \<Rightarrow> 'k \<Rightarrow> 'k thread_event list \<Rightarrow> nat \<Rightarrow> nat \<Rightarrow> nat \<Rightarrow> nat \<Rightarrow> bool" where
  "saw_answer cfg k es i p n m =
     (m < n \<and> es ! m = Step i p \<and> (\<forall>l\<in>{m..n}. th_wait (th_at cfg es k l) i p \<noteq> None) \<and>
      (\<exists>stk c wt. th_wait (th_at cfg es k m) i p = Some (stk, c, wt) \<and> looks wt \<and>
         arrived (cf_os cfg i) wt (th_kernel cfg es k m)))"

lemma saw_answer_Suc:
  "saw_answer cfg k es i p n m \<Longrightarrow> th_wait (th_at cfg es k (Suc n)) i p \<noteq> None \<Longrightarrow> saw_answer cfg k es i p (Suc n) m"
  by (auto simp: saw_answer_def le_Suc_eq)

lemma behind_loop:
  assumes ok: "list_all (thread_event_ok cfg) es" "length es < 2 ^ 31"
  shows "n \<le> length es \<Longrightarrow> th_wait (th_at cfg es k n) i p = Some (stk, c, wt) \<Longrightarrow> \<not> looks wt \<Longrightarrow>
    \<exists>m. saw_answer cfg k es i p n m"
proof (induction n arbitrary: stk c wt)
  case 0
  then show ?case
    by (simp add: th_init_def)
next
  case (Suc n)
  obtain sts where "spec_of cfg es k sts"
    by (rule spec_exists [OF ok])
  note y = spec_state [OF this Suc_leD [OF Suc.prems(1)]]
  have n: "n < length es" and ev: "thread_event_ok cfg (es ! n)"
    using Suc.prems(1) ok(1) by (simp_all add: list_all_length)
  note at = th_at_Suc [OF n, of cfg k]
  show ?case
  proof (cases "th_wait (th_at cfg es k n) i p")
    case None
    then obtain stk' c' where "es ! n = Ask i p stk' c'"
      using th_step_free [OF None, of "es ! n" cfg] Suc.prems(2) at by auto
    then show ?thesis
      using th_ask_waiting [OF y _ None, of stk' c'] ev Suc.prems(2,3) at by simp
  next
    case (Some a)
    obtain stk0 c0 wt0 where a: "a = (stk0, c0, wt0)"
      by (rule prod_cases3)
    have waits: "th_wait (th_at cfg es k (Suc n)) i p \<noteq> None"
      using Suc.prems(2) by simp
    have "\<exists>m. saw_answer cfg k es i p n m" if "\<not> looks wt0"
      using Suc.IH [OF _ Some [unfolded a] that] n by simp
    moreover have "saw_answer cfg k es i p (Suc n) n" if "looks wt0"
    proof -
      have step: "es ! n = Step i p"
      proof (rule ccontr)
        assume "es ! n \<noteq> Step i p"
        from th_step_keeps [OF Some [unfolded a] this] obtain c2 where
          "th_wait (th_at cfg es k (Suc n)) i p = Some (stk0, c2, wt0)"
          unfolding at by blast
        then show False
          using Suc.prems(2,3) that by simp
      qed
      then have "arrived (cf_os cfg i) wt0 (sy_kernel (th_sys (th_at cfg es k n)))"
        using th_turn_poll [OF y Some [unfolded a]] poll_looks(1) [OF that, of "cf_os cfg i" "sy_kernel (th_sys (th_at cfg es k n))"]
          Suc.prems(2,3) at by auto
      then show ?thesis
        using step waits Some a that by (auto simp: saw_answer_def th_kernel_def le_Suc_eq)
    qed
    ultimately show ?thesis
      using saw_answer_Suc [OF _ waits] by blast
  qed
qed

section \<open>A sample run\<close>

text \<open>
  Two nodes, 0 and 2. The processes 0 and 3 of node 0 run in containers whose ids agree in five
  characters, process 2 of node 2 in another container. Process 0 receives; while it waits,
  process 3 asks for its number and process 2 queries a port. The kernel completes a receive at once.
\<close>

definition sample_events :: "sample_world thread_event list" where
  "sample_events =
     [Quick (Lite_Call 0 0 sample_stack (Call_join [49] 18500 1)),
      Quick (Lite_Call 2 2 sample_stack (Call_join [49] 18500 1)),
      Ask 0 0 sample_stack (Wait_receive 7 0x1000 64 1),
      Quick (Lite_Call 0 3 sample_stack Call_node_id),
      Step 0 0,
      Quick (Lite_Call 2 2 sample_stack (Call_query 1 7)),
      Step 0 0,
      Ask 2 2 sample_stack (Wait_send 1 7 0x1000 8 0x2000 0x3000 16),
      Step 0 0]"

lemma sample_events_ok: "list_all (thread_event_ok sample_config) sample_events" "length sample_events < 2 ^ 31"
  by (simp_all add: sample_events_def sample_config_def proc_ok_def)

lemma sample_nth:
  "length sample_events = 9"
  "sample_events ! 0 = Quick (Lite_Call 0 0 sample_stack (Call_join [49] 18500 1))"
  "sample_events ! Suc 0 = Quick (Lite_Call 2 2 sample_stack (Call_join [49] 18500 1))"
  "sample_events ! 2 = Ask 0 0 sample_stack (Wait_receive 7 0x1000 64 1)"
  "sample_events ! 3 = Quick (Lite_Call 0 3 sample_stack Call_node_id)"
  "sample_events ! 4 = Step 0 0"
  "sample_events ! 5 = Quick (Lite_Call 2 2 sample_stack (Call_query 1 7))"
  "sample_events ! 6 = Step 0 0"
  "sample_events ! 7 = Ask 2 2 sample_stack (Wait_send 1 7 0x1000 8 0x2000 0x3000 16)"
  "sample_events ! 8 = Step 0 0"
  by (simp_all add: sample_events_def)

lemma turns_filter: "turns i p es a b = set (filter (\<lambda>n. es ! n = Step i p) [Suc a..<b])"
  by (auto simp: turns_def)

lemma sample_turns: "turns 0 0 sample_events 2 (length sample_events) = {4, 6, 8}"
  by (simp add: turns_filter sample_events_def upt_rec numeral_eq_Suc)

text \<open>The specification along the run, for any contents of the memory that the receive finds.\<close>

definition sample_got :: "sample_world" where
  "sample_got = sample_start\<lparr>sw_mem := (\<lambda>_. 0)(0x810 := 5, 0x808 := 77), sw_calls := [NR_lite_receive_message]\<rparr>"

lemma sample_spec_begin:
  "sp_begin sample_config 0 0 st (Wait_receive 7 0x1000 64 1) (sv, sample_start) =
     (sv, Waits (Recv_spin 0x808 0x810 0 0) sample_got)"
  by (simp add: begin_receive_def sample_config_def sample_os_def int_syscall_def sample_kernel_def sample_start_def
      sample_got_def fun_upd_twist)

definition sample_asked :: "sample_world" where
  "sample_asked = sample_got\<lparr>sw_calls := [NR_lite_receive_message, NR_lite_query_port]\<rparr>"

definition sample_sent :: "sample_world" where
  "sample_sent = sample_asked\<lparr>sw_mem := (sw_mem sample_asked)(0x3000 := 6),
     sw_calls := sw_calls sample_asked @ [NR_lite_send_reply_imm]\<rparr>"

definition sample_sv1 :: service where
  "sample_sv1 = snd (svc_join 4 0 ''/abcde'' svc_init)"

definition sample_sv2 :: service where
  "sample_sv2 = snd (svc_join 5 2 ''/12345'' sample_sv1)"

lemma sample_svc_steps:
  "svc_step sample_config (Lite_Call 0 0 sample_stack (Call_join [49] 18500 1)) (svc_init, k) = (Some 1, (sample_sv1, k))"
  "svc_step sample_config (Lite_Call 2 2 sample_stack (Call_join [49] 18500 1)) (sample_sv1, k) = (Some 2, (sample_sv2, k))"
  "svc_step sample_config (Lite_Call 0 3 sample_stack Call_node_id) (sample_sv2, k) = (Some 1, (sample_sv2, k))"
  by (simp_all add: sample_idents sample_sv1_def sample_sv2_def svc_join_def svc_init_def svc_updates svc_number_def Let_def)

definition sample_sv3 :: service where
  "sample_sv3 = snd (svc_resolve 2 1 sample_sv2)"

lemmas sample_service = sample_sv1_def sample_sv2_def sample_sv3_def svc_join_def svc_init_def svc_updates
  svc_resolve_def svc_issued_def svc_node_def spec_resolve_def Let_def

lemma sample_resolve: "svc_resolve 2 1 sample_sv2 = (4, sample_sv3)" "svc_resolve 2 1 sample_sv3 = (4, sample_sv3)"
  by (simp_all add: sample_service fun_eq_iff)

lemma sample_kernel_steps:
  "svc_step sample_config (Lite_Call 2 2 sample_stack (Call_query 1 7)) (sample_sv2, sample_got) = (Some 0, (sample_sv3, sample_asked))"
  "sp_begin sample_config 2 2 st (Wait_send 1 7 0x1000 8 0x2000 0x3000 16) (sample_sv3, sample_asked) =
     (sample_sv3, Waits (Send_spin 0x3000) sample_sent)"
  by (simp_all add: sample_resolve svc_remote_def svc_kernel_def lite_query_port_def begin_send_def too_big_def LIMITATION_def
      int_syscall_def sample_config_def sample_os_def sample_kernel_def sample_asked_def sample_sent_def sample_got_def
      sample_start_def NR_lite_query_port_def NR_lite_receive_message_def NR_lite_send_reply_imm_def)

lemma sample_polls:
  "poll (cf_os sample_config 0) (Recv_spin 0x808 0x810 0 0) sample_got = Waits (Recv_sleep 0x808 0x810 0) sample_got"
  "poll (cf_os sample_config 0) (Recv_sleep 0x808 0x810 0) sample_asked = Waits (Recv_done 0x808 0x810 0) sample_asked"
  "poll (cf_os sample_config 0) (Recv_done 0x808 0x810 0) sample_sent = Returns 0 sample_sent"
  by (simp_all add: sample_config_def sample_os_def sample_got_def sample_asked_def sample_sent_def finish_receive_def finish_send_def
      IMM_SEND_ONLY_FLAG_def)

lemma sample_outcome:
  "sp_outcome sample_config 0 0 (Wait_receive 7 0x1000 64 1) 0 sample_sent = (Message 0 77 5, sample_sent)"
  by (simp add: sample_config_def sample_os_def sample_got_def sample_asked_def sample_sent_def)

lemma sample_arrivals:
  "arrived sample_os (Recv_spin 0x808 lp ret n) sample_got" "arrived sample_os (Recv_sleep 0x808 lp ret) sample_asked"
  "arrived sample_os (Recv_done d lp ret) w"
  by (simp_all add: sample_os_def sample_asked_def sample_got_def)

lemmas sample_steps = sp_init_def sample_svc_steps sample_spec_begin sample_kernel_steps sample_polls sample_outcome

lemma sample_results:
  assumes "length sts = 9"
  shows "fst (sp_run sample_config (zip sample_events sts) (sp_init sample_start)) =
      [Some (Int_result 1), Some (Int_result 2), None, Some (Int_result 1), None, Some (Int_result 0), None, None,
       Some (Message 0 77 5)]" (is ?results)
    and "snd (fst (snd (sp_run sample_config (zip sample_events sts) (sp_init sample_start)))) = sample_sent" (is ?kernel)
    and "n \<in> {4, 6, 8} \<Longrightarrow> \<exists>c wt. snd (sp_at sample_config sample_events sts sample_start n) 0 0 = Some (c, wt) \<and>
      arrived sample_os wt (snd (fst (sp_at sample_config sample_events sts sample_start n)))"
proof -
  obtain a b c d e f g h i where sts: "sts = [a, b, c, d, e, f, g, h, i]"
    using assms by (auto simp: numeral_eq_Suc length_Suc_conv)
  show ?results and ?kernel
    by (simp_all add: sts sample_events_def sample_steps del: svc_step.simps sp_begin.simps poll.simps sp_outcome.simps)
  show "\<exists>c wt. snd (sp_at sample_config sample_events sts sample_start n) 0 0 = Some (c, wt) \<and>
      arrived sample_os wt (snd (fst (sp_at sample_config sample_events sts sample_start n)))" if n: "n \<in> {4, 6, 8}"
    using n by (auto simp: sp_at_def sts sample_events_def sample_steps sample_arrivals
        simp del: svc_step.simps sp_begin.simps poll.simps sp_outcome.simps arrived.simps)
qed

lemma sample_run_results:
  "th_results sample_config sample_start sample_events =
     [Some (Int_result 1), Some (Int_result 2), None, Some (Int_result 1), None, Some (Int_result 0), None, None,
      Some (Message 0 77 5)]"
proof -
  obtain sts where s: "spec_of sample_config sample_events sample_start sts"
    by (rule spec_exists [OF sample_events_ok])
  then have "length sts = 9"
    by (simp add: spec_of_def sample_nth)
  then show ?thesis
    by (simp only: spec_results [OF s] sample_results(1))
qed

lemma sample_joins:
  "joined_as sample_config sample_start sample_events 0 0 0 1"
  "joined_as sample_config sample_start sample_events 1 2 2 2"
  by (simp_all add: joined_as_def sample_nth sample_run_results)

lemma sample_stays: "l < length sample_events \<Longrightarrow> sample_events ! l \<noteq> Quick (Exit 0 0)"
  by (auto simp: sample_events_def less_Suc_eq numeral_eq_Suc)

lemma sample_free:
  "th_wait (th_at sample_config sample_events sample_start 3) 0 3 = None"
  "th_wait (th_at sample_config sample_events sample_start 5) 2 2 = None"
  "th_wait (th_at sample_config sample_events sample_start 7) 2 2 = None"
  "th_wait (th_at sample_config sample_events sample_start 2) 0 0 = None"
proof -
  obtain sts where s: "spec_of sample_config sample_events sample_start sts"
    by (rule spec_exists [OF sample_events_ok])
  then have "length sts = 9"
    by (simp add: spec_of_def sample_nth)
  then obtain a b c d e f g h i where "sts = [a, b, c, d, e, f, g, h, i]"
    by (auto simp: numeral_eq_Suc length_Suc_conv)
  then have "snd (sp_at sample_config sample_events sts sample_start 3) 0 3 = None"
    and "snd (sp_at sample_config sample_events sts sample_start 5) 2 2 = None"
    and "snd (sp_at sample_config sample_events sts sample_start 7) 2 2 = None"
    and "snd (sp_at sample_config sample_events sts sample_start 2) 0 0 = None"
    by (simp_all add: sp_at_def sample_events_def sample_steps del: svc_step.simps sp_begin.simps poll.simps sp_outcome.simps)
  then show "th_wait (th_at sample_config sample_events sample_start 3) 0 3 = None"
    and "th_wait (th_at sample_config sample_events sample_start 5) 2 2 = None"
    and "th_wait (th_at sample_config sample_events sample_start 7) 2 2 = None"
    and "th_wait (th_at sample_config sample_events sample_start 2) 0 0 = None"
    using spec_wait [OF s] by (simp_all add: sample_nth)
qed

lemma sample_arrived:
  assumes n: "n \<in> {4, 6, 8}" and w: "th_wait (th_at sample_config sample_events sample_start n) 0 0 = Some (stk, c, wt)"
  shows "arrived (cf_os sample_config 0) wt (th_kernel sample_config sample_events sample_start n)"
proof -
  obtain sts where s: "spec_of sample_config sample_events sample_start sts"
    by (rule spec_exists [OF sample_events_ok])
  then have "length sts = 9"
    by (simp add: spec_of_def sample_nth)
  then obtain c' wt' where p: "snd (sp_at sample_config sample_events sts sample_start n) 0 0 = Some (c', wt')"
    and a: "arrived sample_os wt' (snd (fst (sp_at sample_config sample_events sts sample_start n)))"
    using sample_results(3) [of sts n] n by blast
  have le: "n \<le> length sample_events"
    using n by (auto simp: sample_nth)
  have "wt' = wt"
    using th_ok_wait [OF spec_state [OF s le], of 0 0] w p by simp
  then show ?thesis
    using a spec_kernel [OF s le] by (simp add: sample_config_def)
qed

end
