(* ===== verification/Spec2Isabelle.thy ===== *)
theory Spec2Isabelle
  imports Routing_Facts Messaging Mock_Server Accept Bench_Rpc Latency_Run Isolation
    Client_Threads Threads_Facts
begin

text \<open>
  Freelite lets containers use the LITE kernel module for RDMA through a router process on
  their physical node. Three kinds of process talk to each other:

  \<^item> the virtual cluster manager (\<open>vcm/vcm.cpp\<close>) numbers the containers of the cluster
    (virtual nodes, \<open>vid\<close>) and knows on which physical node (\<open>nid\<close>) each of them lives;
  \<^item> a router per node (\<open>router/test_router.cpp\<close>, \<open>router/lib/\<close>) accepts the containers of its
    node on a UNIX socket, calls the kernel module for them, translates virtual nodes, and
    keeps one TCP connection to the vcm;
  \<^item> the client library in a container (\<open>client/lib/\<close>) turns every call of the LITE interface
    into a request to the router. \<open>client/test_server.c\<close> is a mock of the router.

  The messages are C structures sent as raw bytes, so they are modelled as bytes at the
  offsets of the x86-64 ABI. The C type \<open>int\<close> is a 32-bit word, read with \<open>sint\<close> where its
  sign matters, pointers and \<open>long\<close> are 64-bit words. The operating system is not part of
  the repository: socket calls (\<open>socket_api\<close>), the LITE system calls with the memory that the
  kernel fills in (\<open>lite_os\<close>), POSIX shared memory (\<open>shm_api\<close>) and listening sockets
  (\<open>listen_api\<close>) are records of functions on a world \<open>'w\<close>, parameters of every definition that
  uses them. A call that may never return, or that the C standard gives no meaning, is
  \<open>None\<close> or \<open>Never_Returns\<close>.

  The theories, in the order of the layers:

  \<^item> \<open>FL_Prelude\<close>: bytes, fields at offsets (locale \<open>buf_field\<close>), C strings, \<open>unordered_map::insert\<close>.
  \<^item> \<open>Wire\<close>: the structures of \<open>inc/rpc_types.h\<close>, \<open>inc/func_code.h\<close> and \<open>inc/vcm_types.hpp\<close> and
    their layout. Locale \<open>req_body\<close>, interpreted for each of the eleven members of the union.
  \<^item> \<open>Server_Loop\<close>: the loop of the connection threads, common to the three servers. Locale
    \<open>session_server\<close>, interpreted for the vcm, the router and the mock.
  \<^item> \<open>Vcm\<close>: the vcm's registry and its refinement to the list of registered nodes;
    interleaved connections of many routers.
  \<^item> \<open>Routing\<close>, \<open>Routing_Facts\<close>: \<open>router/lib/routing.cpp\<close>, the caches and the exchange with the
    vcm, and what happens when it fails.
  \<^item> \<open>Cluster\<close>: routers linked to the vcm over connections that may lose messages. Locale
    \<open>vid_directory\<close>: agreement of the routers' maps with the vcm's.
  \<^item> \<open>Lite_Lib\<close>, \<open>Lite_Facts\<close>, \<open>Messaging\<close>: \<open>router/lib/lite-lib.c\<close>, the wrappers of the system
    calls. Locale \<open>poll_loop\<close>: loops that wait for the kernel, as partial functions; a claim
    that such a call returns is an equivalence with the kernel's write.
  \<^item> \<open>Shm\<close>: \<open>router/lib/shm.cpp\<close>.
  \<^item> \<open>Router\<close>, \<open>Router_Facts\<close>: the connection thread of the router, case by case.
  \<^item> \<open>Client\<close>, \<open>Requests\<close>, \<open>Client_Facts\<close>: \<open>client/lib/rpc.c\<close> and \<open>client/lib/lite-lib.c\<close>. What a
    stub's two stack objects hold before the call is an argument of the stub.
  \<^item> \<open>Rpc_Link\<close>, \<open>Remote_Calls\<close>: a client connected to a connection thread. Locale
    \<open>rpc_service\<close>, which every \<open>linked_server\<close> provides; the stubs over the router's switch, the
    resolution of nodes on the way, and the sizes that are refused.
  \<^item> \<open>Client_Threads\<close>: threads of one process that share the library's socket, with the \<open>send\<close> and
    the \<open>recv\<close> of a call as separate steps.
  \<^item> \<open>Mock_Server\<close>: \<open>client/test_server.c\<close> and the program \<open>client/test_client.c\<close> run against it, for
    every \<open>LOG_LEVEL\<close>: most of its calls are arguments of \<open>LOG_INFO\<close>.
  \<^item> \<open>Accept\<close>: the \<open>main\<close> functions of the servers, which SIGINT may interrupt in \<open>select\<close> or
    elsewhere, and the order of accesses to the descriptor they share with a new thread (\<open>race_step\<close>).
  \<^item> \<open>Bench\<close>: the checks and the arithmetic of \<open>client/test_rpc.c\<close>.
  \<^item> \<open>Write_Test\<close>: the program \<open>client/test_write.c\<close> and the same run as its router sees it.
  \<^item> \<open>Bench_Rpc\<close>: the functions of \<open>client/test_rpc.c\<close> that send and receive, with the readings of the
    clock and the latencies of \<open>--async-latency\<close>, its run with one thread, and the same run as its router
    sees it (\<open>at_router\<close> relates the two).
  \<^item> \<open>Latency\<close>: the options and shared memory names of \<open>client/test_latency.c\<close>, and its
    threads as a step relation, in three stages around the allocation of the key.
  \<^item> \<open>Latency_Run\<close>: that program with one thread and all its calls, and the same run as its router
    sees it.
  \<^item> \<open>Isolation\<close>: what the bytes a connection sends can change in its router.
  \<^item> \<open>Service\<close>: the abstract service of the cluster (a list of nodes, the numbers of the
    containers, what each router has asked in vain), and that \<open>Routing\<close> over the links of
    \<open>Cluster\<close> refines it, lost messages included.
  \<^item> \<open>Worlds\<close>: a process that connects on its first call, to the thread the router starts for
    the path it has bound; operations on one half of a pair of worlds.
  \<^item> \<open>System\<close>, \<open>System_Facts\<close>: any number of nodes with any number of processes, one vcm, one
    kernel: every call that does not wait for the kernel, through all the layers above, refines
    the abstract service next to the kernel (\<open>sys_ok\<close>); the invariants of the service.
  \<^item> \<open>Waiting\<close>: the two calls that wait for the kernel (\<open>receive_message_fast\<close>,
    \<open>send_reply_imm_fast\<close>) cut into the steps of their thread, one for each turn of a polling
    loop, and that the steps without other threads are the call.
  \<^item> \<open>Threads\<close>, \<open>Threads_Refine\<close>, \<open>Threads_Facts\<close>: \<open>System\<close> with the waiting calls and
    \<open>register_application\<close>, that is with all thirteen calls, in any interleaving of processes,
    waiting threads and kernel; its refinement, step by step, and what it gives for whole runs.
  \<^item> \<open>Samples\<close>: a concrete instance of the parameters, for the witnesses.

  In \<open>System\<close> a call of the library is one step: a client waits for its answer, a thread serves
  one connection, and the routing operations of a call are one critical section, so any
  interleaving of the threads of all routers orders the calls by their critical sections. The
  calls that wait hold no lock while they poll, so in \<open>Threads\<close> they are many steps: the request
  with the system call, each look at the polled word, and what follows the loop with the answer.
  Such a call and \<open>register_application\<close> let the kernel read or keep bytes that the call has not
  written; the specification takes them as an argument (\<open>stale\<close>), and its results are
  claimed for some such bytes. A process has one thread here, so while it waits it makes no other call
  (several threads are in \<open>Client_Threads\<close>). When it exits while it waits, the thread goes on to
  poll until it finds its answer, which it cannot send any more; then its place is free.

  A step of the model is what happens under one lock (\<open>vcm_mutex\<close>, \<open>map_mutex\<close>), so the runs of
  \<open>Vcm\<close> and \<open>Cluster\<close> are all the interleavings of the threads. The numbers of events are
  below 2^31 where the counter of the vcm, a C \<open>int\<close>, must not overflow. The only fuel is in
  the code itself (\<open>CHECK_LENGTH\<close>); all other loops are structural or partial functions.

  In the benchmarks \<open>memset\<close> has no result for bytes that are not mapped (the program crashes), and a
  failed \<open>BUG\<close> ends \<open>test_rpc\<close>; the record \<open>host\<close> has the clocks and the memory that the program itself uses.
  The names of \<open>test_latency\<close> are for ids of up to five digits, which all ids that the options admit are.

  Not modelled: the output of logging (\<open>inc/log.h\<close>; what \<open>LOG_INFO\<close> keeps from being called is), the SIGPIPE
  of a send to a peer that is gone (it is taken for the error it would return), the build files; the
  rates that the benchmarks compute and print, the processors their threads run on, and the
  exchanges of their runs with more than one thread, which overlap as in \<open>Client_Threads\<close>; two
  threads that make the first connection of a process at once. Partial reads that cut a request
  in two are events of the loop like any other, their retransmission is TCP's.

  This theory states what the whole system guarantees; the last section follows single calls
  through client, router and vcm for any kernel.
\<close>

section \<open>What the containers can rely on\<close>

text \<open>
  C1: the system implements its service. For any list of events of any number of nodes (joins and
  all other calls of their processes, requests to receive and to send, single steps of the threads
  that wait, exits, lost messages, steps of the kernel; fewer than 2^31 events) the results,
  one for every event, are those of the abstract service next to the kernel, for some contents of the
  memory that a call finds and has not written; and the kernel ends in the same state.
\<close>

theorem threads_refine_service:
  assumes "list_all (thread_event_ok cfg) es" and "length es < 2 ^ 31"
  shows "\<exists>sts. length sts = length es \<and> th_results cfg k es = fst (sp_run cfg (zip es sts) (sp_init k)) \<and>
    th_kernel cfg es k (length es) = snd (fst (snd (sp_run cfg (zip es sts) (sp_init k))))"
proof -
  obtain sts where s: "spec_of cfg es k sts"
    by (rule spec_exists [OF assms])
  then have "length sts = length es"
    by (simp add: spec_of_def)
  then show ?thesis
    using spec_results [OF s] spec_kernel [OF s order_refl] by (intro exI [of _ sts]) (simp add: sp_at_def)
qed

text \<open>
  Process 3 has not joined, but its router takes it for process 0, which is waiting for a message
  and gets it in the end.
\<close>

theorem threads_refine_service_witness:
  "th_results sample_config sample_start sample_events =
     [Some (Int_result 1), Some (Int_result 2), None, Some (Int_result 1), None, Some (Int_result 0), None, None,
      Some (Message 0 77 5)]"
  using threads_refine_service [OF sample_events_ok, of sample_start] sample_nth(1) sample_results(1) by auto

text \<open>
  C2: containers are told apart. Whenever in such a run the joins of two processes have
  returned numbers, the numbers are equal exactly if the processes run on the same node in
  containers whose ids agree in the five characters that the router looks at.
\<close>

theorem joins_tell_containers_apart:
  assumes "list_all (thread_event_ok cfg) es" and "length es < 2 ^ 31"
    and "joined_as cfg k es a i p v" and "joined_as cfg k es b j q w"
  shows "v = w \<longleftrightarrow> i = j \<and> proc_ident (cf_proc cfg i p) = proc_ident (cf_proc cfg j q)"
proof -
  obtain sts where s: "spec_of cfg es k sts"
    by (rule spec_exists [OF assms(1,2)])
  have ab: "a < length es" "b < length es"
    using assms(3,4) by (simp_all add: joined_as_def)
  have m: "sv_members (sv_at cfg es sts k (length es)) i (proc_ident (cf_proc cfg i p)) = Some v"
    and m': "sv_members (sv_at cfg es sts k (length es)) j (proc_ident (cf_proc cfg j q)) = Some w"
    using joined_member [OF s assms(3) ab(1)] joined_member [OF s assms(4) ab(2)] by auto
  have "svc_inv (cf_nid cfg) (sv_at cfg es sts k (length es))"
    by (rule sv_at_inv [OF s assms(2) order_refl])
  with m m' show ?thesis
    unfolding svc_inv_def by (metis option.inject)
qed

theorem joins_tell_containers_apart_witness:
  "(1 :: c_int) \<noteq> 2 \<and> \<not> (0 = (2 :: nat) \<and> proc_ident (cf_proc sample_config 0 0) = proc_ident (cf_proc sample_config 2 2))"
  using joins_tell_containers_apart [OF sample_events_ok sample_joins] by simp

text \<open>
  C3: a number is for good. Once a process has joined as \<open>v\<close>, every later \<open>join\<close> and
  \<open>get_node_id\<close> of a process of this container returns \<open>v\<close>, whatever happens elsewhere, even
  when the router has lost the vcm.
\<close>

theorem numbers_are_kept:
  assumes "list_all (thread_event_ok cfg) es" and "length es < 2 ^ 31" and "joined_as cfg k es a i p v"
    and "a < b" and "b < length es" and "es ! b = Quick (Lite_Call i q stk c)"
    and "c = Call_node_id \<or> c = Call_join addr eth ib" and "th_wait (th_at cfg es k b) i q = None"
    and "proc_ident (cf_proc cfg i q) = proc_ident (cf_proc cfg i p)"
  shows "th_results cfg k es ! b = Some (Int_result v)"
proof -
  obtain sts where s: "spec_of cfg es k sts"
    by (rule spec_exists [OF assms(1,2)])
  obtain x pend where y: "sp_at cfg es sts k b = (x, pend)"
    by (rule prod.exhaust)
  have "sv_members (fst x) i (proc_ident (cf_proc cfg i q)) = Some v"
    using joined_member [OF s assms(3,4)] assms(5,9) y by (simp add: sv_at_def)
  moreover have "pend i q = None"
    using spec_wait [OF s, of b i q] assms(5,8) y by simp
  ultimately show ?thesis
    using spec_result [OF s assms(5)] assms(6,7) y
    by (auto simp: svc_number_def svc_join_def split: prod.split)
qed

theorem numbers_are_kept_witness:
  "th_results sample_config sample_start sample_events ! 3 = Some (Int_result 1)"
  by (rule numbers_are_kept [OF sample_events_ok sample_joins(1) _ _ sample_nth(5) _ sample_free(1)])
    (simp_all add: sample_nth sample_idents)

text \<open>
  C4: requests reach the node of the container. When a container of node \<open>i\<close> has joined as
  \<open>v\<close>, a later \<open>query_port\<close>, \<open>alloc_remote_mem\<close> or \<open>send_reply_imm_fast\<close> for \<open>v\<close> of any process on any
  node \<open>m\<close> is the system call of \<open>m\<close>'s router for the node of \<open>i\<close>, on the kernel as it then is,
  provided that \<open>m\<close>'s router has lost no message and was not asked for \<open>v\<close> before. For a send this is
  what the kernel has seen when its thread begins to wait.
\<close>

theorem requests_reach_the_node:
  assumes "list_all (thread_event_ok cfg) es" and "length es < 2 ^ 31" and "joined_as cfg k es a i p v"
    and "\<forall>e\<in>set es. \<not> th_loses m e" and "\<forall>n<a. \<not> th_asks m v (es ! n)"
    and "a < b" and "b < length es" and "th_wait (th_at cfg es k b) m q = None"
  shows "(es ! b = Quick (Lite_Call m q stk (Call_query v port)) \<longrightarrow> th_results cfg k es ! b =
      Some (Int_result (fst (lite_query_port (cf_os cfg m) (cf_nid cfg i) port (th_kernel cfg es k b))))) \<and>
    (es ! b = Quick (Lite_Call m q stk (Call_alloc v sz fl pw)) \<longrightarrow> th_results cfg k es ! b =
      Some (Int_result (fst (lite_alloc_remote_mem (cf_os cfg m) (cf_nid cfg i) sz fl pw (th_kernel cfg es k b))))) \<and>
    (es ! b = Ask m q stk (Wait_send v port ad sz ra lp mx) \<longrightarrow>
      begin_send (cf_os cfg m) (cf_nid cfg i) port ra sz ra lp mx (th_kernel cfg es k b) = Waits wt w \<longrightarrow>
      th_kernel cfg es k (Suc b) = w)"
proof -
  obtain sts where s: "spec_of cfg es k sts"
    by (rule spec_exists [OF assms(1,2)])
  obtain sv u pend where y: "sp_at cfg es sts k b = ((sv, u), pend)"
    by (metis prod.exhaust)
  have n: "fst (svc_resolve m v sv) = cf_nid cfg i"
    using resolve_joined [OF s assms(2-6)] assms(7) y by (simp add: sv_at_def)
  have u: "th_kernel cfg es k b = u" and free: "pend m q = None"
    and Suc: "th_kernel cfg es k (Suc b) = snd (fst (snd (sp_step cfg (es ! b) (sts ! b) ((sv, u), pend))))"
    using spec_kernel [OF s] spec_Suc [OF s assms(7)] spec_wait [OF s, of b m q] assms(7,8) y by simp_all
  show ?thesis
    using n u free Suc spec_result [OF s assms(7)] y
    by (auto simp: svc_remote_def svc_kernel_def split: prod.splits)
qed

theorem requests_reach_the_node_witness:
  "th_results sample_config sample_start sample_events ! 5 =
     Some (Int_result (fst (lite_query_port sample_os 4 7 (th_kernel sample_config sample_events sample_start 5))))"
proof -
  have "\<forall>e\<in>set sample_events. \<not> th_loses 2 e" and "\<forall>n<0. \<not> th_asks 2 1 (sample_events ! n)"
    by (simp_all add: sample_events_def)
  from requests_reach_the_node [OF sample_events_ok sample_joins(1) this _ _ sample_free(2), of sample_stack 7]
  show ?thesis
    by (simp add: sample_nth sample_idents) (simp add: sample_config_def)
qed

text \<open>
  C5: a call that waits returns. When a process has asked to receive or to send and its call has not
  returned, and from then on its thread finds its answer at every step it takes, then one of its
  first three steps ends the call, whatever the other processes, their threads, the network and
  the kernel do in between, and even when the process is gone; and this step returns the call to
  a process that is still there.
\<close>

theorem waiting_call_returns:
  assumes ok: "list_all (thread_event_ok cfg) es" "length es < 2 ^ 31"
    and ask: "a < length es" "es ! a = Ask i p stk c" "th_results cfg k es ! a = None"
    and arr: "\<forall>n stk c wt. n \<in> turns i p es a (length es) \<longrightarrow> th_wait (th_at cfg es k n) i p = Some (stk, c, wt) \<longrightarrow>
      arrived (cf_os cfg i) wt (th_kernel cfg es k n)"
    and three: "3 \<le> card (turns i p es a (length es))"
  shows "\<exists>n\<in>turns i p es a (length es). th_wait (th_at cfg es k (Suc n)) i p = None \<and>
    (th_wait (th_at cfg es k a) i p = None \<and> (\<forall>l. a < l \<and> l < n \<longrightarrow> es ! l \<noteq> Quick (Exit i p)) \<longrightarrow>
      th_results cfg k es ! n \<noteq> None)"
proof -
  have "\<exists>n. n \<in> turns i p es a (length es) \<and> th_wait (th_at cfg es k (Suc n)) i p = None"
  proof (rule ccontr)
    assume "\<not> ?thesis"
    then have "\<forall>n\<in>turns i p es a (length es). th_wait (th_at cfg es k (Suc n)) i p \<noteq> None"
      by auto
    from waiting_progress [OF ok ask(2,3) arr ask(1) order_refl this]
    obtain wt where "wait_rank wt + card (turns i p es a (length es)) \<le> 3"
      by (elim exE conjE) (rule that)
    then show False
      using three wait_rank_bounds [of wt] by simp
  qed
  then obtain n where n: "n \<in> turns i p es a (length es)" "th_wait (th_at cfg es k (Suc n)) i p = None"
    and first: "\<forall>m<n. \<not> (m \<in> turns i p es a (length es) \<and> th_wait (th_at cfg es k (Suc m)) i p = None)"
    by (subst (asm) exists_least_iff) blast
  have n': "a < n" "n < length es" "es ! n = Step i p"
    using n(1) by (simp_all add: turns_def)
  have "\<forall>m\<in>turns i p es a n. th_wait (th_at cfg es k (Suc m)) i p \<noteq> None"
    using first n'(2) by (auto simp: turns_def)
  then obtain stk' c' wt where w: "th_wait (th_at cfg es k n) i p = Some (stk', c', wt)"
    using waiting_progress [OF ok ask(2,3) arr n'(1) less_imp_le [OF n'(2)]] by blast
  show ?thesis
  proof (intro bexI [OF _ n(1)] conjI impI n(2))
    assume "th_wait (th_at cfg es k a) i p = None \<and> (\<forall>l. a < l \<and> l < n \<longrightarrow> es ! l \<noteq> Quick (Exit i p))"
    then have "snd c'"
      using still_there [OF ok _ less_imp_le [OF n'(1)] less_imp_le [OF n'(2)] _ w] by simp
    then show "th_results cfg k es ! n \<noteq> None"
      using step_ends_call [OF ok n'(2,3) w n(2)] by simp
  qed
qed

theorem waiting_call_returns_witness:
  "\<exists>n\<in>{4, 6, 8}. th_results sample_config sample_start sample_events ! n \<noteq> None"
proof -
  have ask: "2 < length sample_events" "th_results sample_config sample_start sample_events ! 2 = None"
    by (simp_all add: sample_nth sample_run_results)
  have "n < length sample_events" if "n \<in> {4, 6, 8}" for n
    using that by (auto simp: sample_nth)
  then show ?thesis
    using waiting_call_returns [OF sample_events_ok ask(1) sample_nth(4) ask(2)] sample_arrived sample_free(4) sample_stays
    unfolding sample_turns by (fastforce simp: sample_nth)
qed

text \<open>
  C6: a waiting call does not return without its answer. When a step of a thread returns a receive or a
  send, the thread has taken an earlier step in its loop at which the polled word had changed,
  and the process has been waiting all the time since.
\<close>

theorem waiting_call_not_early:
  assumes ok: "list_all (thread_event_ok cfg) es" "length es < 2 ^ 31"
    and n: "n < length es" "es ! n = Step i p" and r: "th_results cfg k es ! n \<noteq> None"
  shows "\<exists>m<n. es ! m = Step i p \<and> (\<forall>l\<in>{m..n}. th_wait (th_at cfg es k l) i p \<noteq> None) \<and>
    (\<exists>stk c wt. th_wait (th_at cfg es k m) i p = Some (stk, c, wt) \<and> looks wt \<and>
      arrived (cf_os cfg i) wt (th_kernel cfg es k m))"
proof -
  obtain sts where "spec_of cfg es k sts"
    by (rule spec_exists [OF ok])
  note y = spec_state [OF this less_imp_le [OF n(1)]]
  have step: "th_results cfg k es ! n = fst (th_step cfg (Step i p) (th_at cfg es k n))"
    using th_results_nth [OF n(1)] n(2) by simp
  then obtain stk c wt where w: "th_wait (th_at cfg es k n) i p = Some (stk, c, wt)"
    using r by (cases "th_wait (th_at cfg es k n) i p") (auto simp: th_turn_def)
  have "\<not> looks wt"
    using th_turn_poll [OF y w] poll_looks(1) [of wt "cf_os cfg i" "sy_kernel (th_sys (th_at cfg es k n))"] r step by auto
  from behind_loop [OF ok less_imp_le [OF n(1)] w this] obtain m where "saw_answer cfg k es i p n m"
    by (rule exE)
  then show ?thesis
    unfolding saw_answer_def by (intro exI [of _ m]) simp
qed

theorem waiting_call_not_early_witness:
  "\<exists>m<8. sample_events ! m = Step 0 0 \<and> th_wait (th_at sample_config sample_events sample_start m) 0 0 \<noteq> None"
proof -
  have "8 < length sample_events" and "th_results sample_config sample_start sample_events ! 8 \<noteq> None"
    by (simp_all add: sample_nth sample_run_results)
  from waiting_call_not_early [OF sample_events_ok this(1) sample_nth(10) this(2)] show ?thesis
    by blast
qed

section \<open>The objects of the system\<close>

text \<open>
  C7: every object keeps its type. In every state that such a run reaches, each process that
  has called is served by a thread whose request and response objects have 280 and 24 bytes,
  with no answer left unread; each router that still talks to the vcm is served by a thread
  with a message of 8 bytes, with no answer left unread; and the vcm's counter and map agree.
\<close>

theorem system_objects_typed:
  assumes "list_all (thread_event_ok cfg) es" and "length es < 2 ^ 31"
    and "sy = th_sys (th_at cfg es k (length es))"
  shows "vcm_inv (cl_vcm (sy_cluster sy)) \<and>
    (client_sock (fst (sy_clients sy i p)) = -1 \<or>
     (let l = fst (snd (sy_clients sy i p)) in
        status (sk_conn l) = Serving \<and> length (rl_req (locals (sk_conn l))) = 280 \<and>
        length (rl_rsp (locals (sk_conn l))) = 24 \<and> sk_read l = length (outbox (sk_conn l)))) \<and>
    (vcm_sock (cl_rts (sy_cluster sy) i) = -1 \<or>
     (let l = cl_links (sy_cluster sy) i in
        status (ln_conn l) = Serving \<and> length (locals (ln_conn l)) = 8 \<and> ln_read l = length (outbox (ln_conn l))))"
proof -
  obtain sts where s: "spec_of cfg es k sts"
    by (rule spec_exists [OF assms(1,2)])
  have ok: "sys_ok cfg sy (fst (sp_at cfg es sts k (length es)))"
    unfolding assms(3) by (rule th_ok_sys [OF spec_state [OF s order_refl]])
  then have "client_ok (cf_proc cfg i p) (sy_clients sy i p)"
    and "refines (sy_cluster sy) (fst (fst (sp_at cfg es sts k (length es))))"
    by (simp_all add: sys_ok_def)
  then show ?thesis
    by (auto simp: client_ok_def rlink_ready_def slink_ready_def router_linv_def refines_def router_refines_def
        link_ok_def Let_def)
qed

theorem system_objects_typed_witness:
  "vcm_inv (cl_vcm (sy_cluster (th_sys (th_at sample_config sample_events sample_start (length sample_events)))))"
  using system_objects_typed [OF sample_events_ok refl, of sample_start] by blast

section \<open>A container joins the cluster\<close>

text \<open>The router's world is its connection to the vcm when it makes no other call.\<close>

lemma vcm_join_through_link:
  assumes ok: "link_ok vl" "\<not> ln_drop_request vl" "\<not> ln_drop_answer vl"
    and sock: "vcm_sock rt \<noteq> -1" and new: "cid_vid_map rt cid = None"
    and reg: "get_new_vid n (shared (ln_conn vl)) = (v, s')"
  shows "\<exists>vl'. vcm_join link_api n cid rt vl = (v, rt\<lparr>cid_vid_map := (cid_vid_map rt)(cid \<mapsto> v),
      vid_nid_map_cache := umap_insert v n (vid_nid_map_cache rt)\<rparr>, vl') \<and> shared (ln_conn vl') = s'"
proof -
  obtain m where d: "vcm_dispatch (encode_vcm_msg \<lparr>vm_func_code = NID_VID, vm_id = n\<rparr>) (shared (ln_conn vl)) = Respond m s'"
    and dec: "decode_vcm_msg m = \<lparr>vm_func_code = NID_VID, vm_id = v\<rparr>"
    using vcm_dispatch_register [OF reg] by blast
  obtain vl' where "vcm_handler link_api \<lparr>vm_func_code = NID_VID, vm_id = n\<rparr> rt vl = (0, decode_vcm_msg m, rt, vl')"
    and "shared (ln_conn vl') = s'"
    using vcm_handler_delivers [OF ok sock d] by blast
  then show ?thesis
    using new dec by (simp add: vcm_join_def Let_def)
qed

text \<open>
  A join goes through all three processes. When a container joins for the first time, over
  a ready connection to a router that is connected to the vcm, the vcm appends the router's
  node to its list of registrations; the number of the new entry is what the client's
  \<open>join\<close> returns, what the router enters for the container and, with the node, in its cache.
\<close>

lemma join_through_the_cluster:
  assumes "rlink_ready (cs, l)" and "stack_ok stk" and "length input_str \<le> 272"
    and "\<not> re_no_container renv" and "re_sock renv = link_api" and "shared (sk_conn l) = (rt, vl)"
    and "link_ok vl" and "\<not> ln_drop_request vl" and "\<not> ln_drop_answer vl" and "vcm_sock rt \<noteq> -1"
    and "vcm_inv (shared (ln_conn vl))" and "vcm_room (shared (ln_conn vl))"
    and "cid_vid_map rt (rl_cid (locals (sk_conn l))) = None"
  shows "\<exists>v l' rt' vl'. c_join (on_router renv env) input_str eth ib stk (cs, l) = Some (v, (cs, l')) \<and>
    shared (sk_conn l') = (rt', vl') \<and>
    (unat v, vcm_abs (shared (ln_conn vl'))) = spec_register (re_nid renv) (vcm_abs (shared (ln_conn vl))) \<and>
    cid_vid_map rt' (rl_cid (locals (sk_conn l))) = Some v \<and>
    vid_nid_map_cache rt' = umap_insert v (re_nid renv) (vid_nid_map_cache rt)"
proof -
  let ?cid = "rl_cid (locals (sk_conn l))"
  obtain v s' where reg: "get_new_vid (re_nid renv) (shared (ln_conn vl)) = (v, s')"
    by (metis prod.exhaust)
  obtain vl' where j: "vcm_join (re_sock renv) (re_nid renv) ?cid rt vl =
      (v, rt\<lparr>cid_vid_map := (cid_vid_map rt)(?cid \<mapsto> v),
        vid_nid_map_cache := umap_insert v (re_nid renv) (vid_nid_map_cache rt)\<rparr>, vl')"
    and s': "shared (ln_conn vl') = s'"
    using vcm_join_through_link [OF assms(7-10,13) reg] assms(5) by auto
  obtain l' where "c_join (on_router renv env) input_str eth ib stk (cs, l) = Some (v, (cs, l'))"
    and "shared (sk_conn l') = (rt\<lparr>cid_vid_map := (cid_vid_map rt)(?cid \<mapsto> v),
        vid_nid_map_cache := umap_insert v (re_nid renv) (vid_nid_map_cache rt)\<rparr>, vl')"
    by (rule carried_join [OF assms(1,2,6,4,3) j])
  then show ?thesis
    using get_new_vid_abs [OF assms(11,12) reg] s' by auto
qed

section \<open>A request for another container\<close>

text \<open>
  A virtual node is translated by the registry. When the vcm has the node \<open>nid\<close> on record
  for a virtual node and the router has cached nothing else for it, \<open>query_port\<close> of a client for this virtual
  node is the router's \<open>query_port\<close> for \<open>nid\<close>, and the translation is cached.
\<close>

lemma translation_through_the_cluster:
  assumes "rlink_ready (cs, l)" and "stack_ok stk" and "shared (sk_conn l) = (rt, vl)"
    and "\<not> re_no_container renv" and "re_sock renv = link_api"
    and "link_ok vl" and "\<not> ln_drop_request vl" and "\<not> ln_drop_answer vl" and "vcm_sock rt \<noteq> -1"
    and "vid_nid_map (shared (ln_conn vl)) vid = Some nid"
    and "vid_nid_map_cache rt vid = None \<or> vid_nid_map_cache rt vid = Some nid"
  shows "\<exists>vl'. shared (ln_conn vl') = shared (ln_conn vl) \<and>
    carried (c_query_port (on_router renv env) vid port stk) (cs, l)
      (rt\<lparr>vid_nid_map_cache := (vid_nid_map_cache rt)(vid \<mapsto> nid)\<rparr>)
      (lite_query_port (re_lite renv) nid port vl')"
proof -
  have "\<exists>vl'. shared (ln_conn vl') = shared (ln_conn vl) \<and> resolve_node renv vid (rt, vl) =
      (nid, (rt\<lparr>vid_nid_map_cache := (vid_nid_map_cache rt)(vid \<mapsto> nid)\<rparr>, vl'))"
    using assms(11)
  proof
    assume none: "vid_nid_map_cache rt vid = None"
    obtain m where d: "vcm_dispatch (encode_vcm_msg \<lparr>vm_func_code = VID_NID, vm_id = vid\<rparr>) (shared (ln_conn vl)) =
        Respond m (shared (ln_conn vl))"
      and dec: "decode_vcm_msg m = \<lparr>vm_func_code = VID_NID, vm_id = get_nid_by_vid vid (shared (ln_conn vl))\<rparr>"
      using vcm_dispatch_lookup by blast
    obtain vl' where "vcm_handler link_api \<lparr>vm_func_code = VID_NID, vm_id = vid\<rparr> rt vl = (0, decode_vcm_msg m, rt, vl')"
      and "shared (ln_conn vl') = shared (ln_conn vl)"
      using vcm_handler_delivers [OF assms(6-9) d] by blast
    then show ?thesis
      using assms(4,5,10) none dec by (auto simp: resolve_node_def vcm_vid_nid_def get_nid_by_vid_def)
  next
    assume hit: "vid_nid_map_cache rt vid = Some nid"
    then have "(vid_nid_map_cache rt)(vid \<mapsto> nid) = vid_nid_map_cache rt"
      by auto
    then show ?thesis
      using assms(4,5) hit by (intro exI [of _ vl]) (simp add: resolve_node_def vcm_vid_nid_known)
  qed
  then obtain vl' where vl': "shared (ln_conn vl') = shared (ln_conn vl)" and r: "resolve_node renv vid (rt, vl) =
      (nid, (rt\<lparr>vid_nid_map_cache := (vid_nid_map_cache rt)(vid \<mapsto> nid)\<rparr>, vl'))"
    by blast
  have "carried (c_query_port (on_router renv env) vid port stk) (cs, l)
      (rt\<lparr>vid_nid_map_cache := (vid_nid_map_cache rt)(vid \<mapsto> nid)\<rparr>) (lite_query_port (re_lite renv) nid port vl')"
    by (rule carried_query_port [OF assms(1-3) r])
  with vl' show ?thesis
    by blast
qed

end
